(* ===== verification/Prelude.thy ===== *)
theory Prelude
  imports Main "HOL-Library.Word"
begin

text \<open>
  The shared base of the rtc2tcp development: the types every component uses, Go errors as
  values, bytes and strings, and the generic lemmas and rule collections that the component
  theories draw on.

  Go strings are byte sequences, and so is \<^typ>\<open>string\<close> (a \<^typ>\<open>char\<close> is an 8-bit value), so a
  Go \<open>string\<close> is a \<^typ>\<open>string\<close> and a \<open>[]byte\<close> is a list of 8-bit words.  An \<open>(T, error)\<close>
  pair is a sum: \<^term>\<open>Inl e\<close> is a non-nil error, \<^term>\<open>Inr x\<close> the value with a nil error.
\<close>

section \<open>Types and collections\<close>

named_theorems go_simps \<open>unfolding rules for the model of the Go library\<close>
named_theorems inv_simps \<open>unfolding rules for component invariants\<close>
named_theorems inv_intros \<open>preservation lemmas: one per operation of a component\<close>

type_synonym byte = "8 word"
type_synonym bytes = "byte list"
type_synonym time = int

text \<open>
  A Go error is a package-level sentinel (identified by its variable name) or a value made by
  \<open>errors.New\<close> or \<open>fmt.Errorf\<close>: the format, its string arguments and the errors wrapped by
  \<open>%w\<close>.
\<close>

datatype gerror =
    Sentinel string
  | Errorf string "string list" "gerror list"

type_synonym 'a res = "gerror + 'a"

abbreviation errors_New :: "string \<Rightarrow> gerror" where
  "errors_New m \<equiv> Errorf m [] []"

text \<open>\<open>errors.Is\<close>: the error itself or any error in its wrap tree.\<close>

fun errors_Is :: "gerror \<Rightarrow> gerror \<Rightarrow> bool" where
  "errors_Is (Sentinel n) t = (Sentinel n = t)"
| "errors_Is (Errorf f as ws) t = (Errorf f as ws = t \<or> list_ex (\<lambda>w. errors_Is w t) ws)"

text \<open>The conversions \<open>[]byte(s)\<close> and \<open>string(b)\<close>.\<close>

definition bytes_of :: "string \<Rightarrow> bytes" where
  "bytes_of s = map of_char s"

definition string_of :: "bytes \<Rightarrow> string" where
  "string_of b = map (\<lambda>x. char_of (unat x)) b"

text \<open>
  A Go map is ranged over in an order chosen by the runtime.  \<open>enumerates ks m\<close> says that
  \<open>ks\<close> is such an order: every key once.
\<close>

definition enumerates :: "'k list \<Rightarrow> ('k \<rightharpoonup> 'v) \<Rightarrow> bool" where
  "enumerates ks m \<longleftrightarrow> distinct ks \<and> set ks = dom m"

section \<open>Generic lemmas\<close>

lemma length_bytes_of [simp]: "length (bytes_of s) = length s"
  by (simp add: bytes_of_def)

lemma length_string_of [simp]: "length (string_of b) = length b"
  by (simp add: string_of_def)

lemma bytes_of_append [simp]: "bytes_of (s @ t) = bytes_of s @ bytes_of t"
  by (simp add: bytes_of_def)

lemma bytes_of_Nil [simp]: "bytes_of [] = []"
  by (simp add: bytes_of_def)

lemma unat_of_char: "unat (of_char c :: byte) = of_char c"
proof -
  have "(of_char c :: byte) = word_of_nat (of_char c)"
    by (simp add: of_char_def horner_sum_foldr del: of_nat_of_char)
  moreover have "(of_char c :: nat) < 256" by (rule nat_of_char_less_256)
  ultimately show ?thesis by (simp add: unat_of_nat)
qed

lemma string_of_bytes_of [simp]: "string_of (bytes_of s) = s"
  by (simp add: string_of_def bytes_of_def unat_of_char o_def)

lemma bytes_of_inject [simp]: "bytes_of s = bytes_of t \<longleftrightarrow> s = t"
  by (metis string_of_bytes_of)

lemma enumerates_finite: "enumerates ks m \<Longrightarrow> finite (dom m)"
  unfolding enumerates_def by (metis List.finite_set)

lemma enumerates_ex: "finite (dom m) \<Longrightarrow> \<exists>ks. enumerates ks m"
  unfolding enumerates_def using finite_distinct_list by metis

lemma enumerates_mem: "enumerates ks m \<Longrightarrow> k \<in> set ks \<longleftrightarrow> m k \<noteq> None"
  by (auto simp: enumerates_def)

lemma append_eq_length_left:
  "length xs = length ys \<Longrightarrow> xs @ us = ys @ vs \<longleftrightarrow> xs = ys \<and> us = vs"
  by simp

lemma errors_Is_refl [simp]: "errors_Is e e"
  by (cases e) auto

lemma errors_Is_Errorf [simp]:
  "errors_Is (Errorf f as ws) (Sentinel n) \<longleftrightarrow> (\<exists>w \<in> set ws. errors_Is w (Sentinel n))"
  by (auto simp: list_ex_iff)

lemma unat_word_of_nat_small: "n < 2 ^ LENGTH('a::len) \<Longrightarrow> unat (word_of_nat n :: 'a word) = n"
  by (simp add: unsigned_of_nat take_bit_nat_eq_self)

lemma unat_bound8: "unat (x :: 8 word) < 256"
  using unsigned_less [of x] by simp

lemma unat_bound16: "unat (x :: 16 word) < 65536"
  using unsigned_less [of x] by simp

end
