(* ===== verification/StateMachine.thy ===== *)
theory StateMachine
  imports Prelude
begin

text \<open>
  The session state machine of \<^verbatim>\<open>internal/webrtc/state.go\<close>: the nine states, the table of
  allowed transitions and the operations of \<open>StateMachine\<close>.  The mutex makes each operation
  atomic, so each is a function of the state.  \<open>protocol_step\<close> is the transition relation as
  \<^verbatim>\<open>PROTOCOL.md\<close> lists it; the code is shown to implement exactly it.
\<close>

section \<open>Definitions\<close>

datatype SessionState =
    StateInit
  | StateRendezvous
  | StateSignaling
  | StateAuthPending
  | StateAuthenticated
  | StateStreaming
  | StateClosing
  | StateClosed
  | StateFailed

fun allowedTransitions :: "SessionState \<Rightarrow> SessionState list" where
  "allowedTransitions StateInit = [StateRendezvous, StateClosing, StateFailed]"
| "allowedTransitions StateRendezvous = [StateSignaling, StateClosing, StateFailed]"
| "allowedTransitions StateSignaling = [StateAuthPending, StateClosing, StateFailed]"
| "allowedTransitions StateAuthPending = [StateAuthenticated, StateClosing, StateFailed]"
| "allowedTransitions StateAuthenticated = [StateStreaming, StateClosing, StateFailed]"
| "allowedTransitions StateStreaming = [StateStreaming, StateClosing, StateFailed]"
| "allowedTransitions StateClosing = [StateClosed, StateFailed]"
| "allowedTransitions StateClosed = []"
| "allowedTransitions StateFailed = []"

record stateMachine =
  sm_state :: SessionState

definition NewStateMachine :: stateMachine where
  "NewStateMachine = \<lparr>sm_state = StateInit\<rparr>"

fun stateName :: "SessionState \<Rightarrow> string" where
  "stateName StateInit = ''INIT''"
| "stateName StateRendezvous = ''RENDEZVOUS''"
| "stateName StateSignaling = ''SIGNALING''"
| "stateName StateAuthPending = ''AUTH_PENDING''"
| "stateName StateAuthenticated = ''AUTHENTICATED''"
| "stateName StateStreaming = ''STREAMING''"
| "stateName StateClosing = ''CLOSING''"
| "stateName StateClosed = ''CLOSED''"
| "stateName StateFailed = ''FAILED''"

definition Transition :: "stateMachine \<Rightarrow> SessionState \<Rightarrow> stateMachine \<times> gerror option" where
  "Transition m next =
     (if sm_state m = next \<and> next = StateStreaming then (m, None)
      else if next \<notin> set (allowedTransitions (sm_state m)) then
        (m, Some (Errorf ''invalid session state transition %s -> %s''
                    [stateName (sm_state m), stateName next] []))
      else (m\<lparr>sm_state := next\<rparr>, None))"

definition IsOneOf :: "stateMachine \<Rightarrow> SessionState list \<Rightarrow> bool" where
  "IsOneOf m states = list_ex (\<lambda>state. sm_state m = state) states"

text \<open>The transitions of \<^verbatim>\<open>PROTOCOL.md\<close>, section "Peer Session State Machine".\<close>

inductive protocol_step :: "SessionState \<Rightarrow> SessionState \<Rightarrow> bool" where
  rendezvous: "protocol_step StateInit StateRendezvous"
| signaling: "protocol_step StateRendezvous StateSignaling"
| auth_pending: "protocol_step StateSignaling StateAuthPending"
| authenticated: "protocol_step StateAuthPending StateAuthenticated"
| streaming: "protocol_step StateAuthenticated StateStreaming"
| stream_again: "protocol_step StateStreaming StateStreaming"
| closing: "s \<in> {StateInit, StateRendezvous, StateSignaling, StateAuthPending,
      StateAuthenticated, StateStreaming} \<Longrightarrow> protocol_step s StateClosing"
| closed: "protocol_step StateClosing StateClosed"
| failed: "s \<in> {StateInit, StateRendezvous, StateSignaling, StateAuthPending,
      StateAuthenticated, StateStreaming, StateClosing} \<Longrightarrow> protocol_step s StateFailed"

code_pred protocol_step .

inductive_simps protocol_step_simps: "protocol_step s t"

text \<open>A run: the transitions a client asks for, each of which must be accepted.\<close>

fun accepted :: "stateMachine \<Rightarrow> SessionState list \<Rightarrow> stateMachine option" where
  "accepted m [] = Some m"
| "accepted m (n # ns) =
     (case Transition m n of (m', None) \<Rightarrow> accepted m' ns | (_, Some _) \<Rightarrow> None)"

text \<open>The live path of a session, up to the given state.\<close>

fun livePath :: "SessionState \<Rightarrow> SessionState list" where
  "livePath StateInit = []"
| "livePath StateRendezvous = [StateRendezvous]"
| "livePath StateSignaling = [StateRendezvous, StateSignaling]"
| "livePath StateAuthPending = [StateRendezvous, StateSignaling, StateAuthPending]"
| "livePath StateAuthenticated =
     [StateRendezvous, StateSignaling, StateAuthPending, StateAuthenticated]"
| "livePath StateStreaming =
     [StateRendezvous, StateSignaling, StateAuthPending, StateAuthenticated, StateStreaming]"
| "livePath _ = []"

definition isLive :: "SessionState \<Rightarrow> bool" where
  "isLive s \<longleftrightarrow> s \<noteq> StateClosing \<and> s \<noteq> StateClosed \<and> s \<noteq> StateFailed"

section \<open>Lemmas\<close>

lemma allowedTransitions_protocol:
  "t \<in> set (allowedTransitions s) \<longleftrightarrow> protocol_step s t"
  by (cases s; cases t) (simp_all add: protocol_step_simps)

lemma Transition_ok_iff: "snd (Transition m t) = None \<longleftrightarrow> protocol_step (sm_state m) t"
  by (auto simp: Transition_def allowedTransitions_protocol protocol_step_simps)

lemma Transition_ok_state: "snd (Transition m t) = None \<Longrightarrow> fst (Transition m t) = m\<lparr>sm_state := t\<rparr>"
  by (auto simp: Transition_def split: if_splits)

lemma Transition_err_state: "snd (Transition m t) \<noteq> None \<Longrightarrow> fst (Transition m t) = m"
  by (auto simp: Transition_def split: if_splits)

lemma Transition_cases:
  obtains "protocol_step (sm_state m) t" "Transition m t = (m\<lparr>sm_state := t\<rparr>, None)"
  | e where "\<not> protocol_step (sm_state m) t" "Transition m t = (m, Some e)"
proof (cases "snd (Transition m t)")
  case None
  then show thesis
    using that(1) Transition_ok_iff Transition_ok_state by (metis prod.collapse)
next
  case (Some e)
  then show thesis
    using that(2) Transition_ok_iff Transition_err_state
    by (metis option.distinct(1) prod.collapse)
qed

lemma sm_state_Transition:
  "sm_state (fst (Transition m t)) = (if protocol_step (sm_state m) t then t else sm_state m)"
  by (rule Transition_cases [of m t]) auto

lemma IsOneOf_iff [simp]: "IsOneOf m ss \<longleftrightarrow> sm_state m \<in> set ss"
  by (auto simp: IsOneOf_def list_ex_iff)

lemma protocol_step_into_live:
  "protocol_step s t \<Longrightarrow> isLive t \<Longrightarrow>
     isLive s \<and> (livePath t = livePath s @ [t] \<or> s = StateStreaming \<and> t = StateStreaming)"
  by (auto simp: protocol_step_simps isLive_def)

lemma accepted_append:
  "accepted m (ns @ ms) = (case accepted m ns of None \<Rightarrow> None | Some m' \<Rightarrow> accepted m' ms)"
  by (induction ns arbitrary: m) (auto split: prod.splits option.splits)

lemma accepted_single: "accepted m [t] = Some m' \<longleftrightarrow> protocol_step (sm_state m) t \<and> m' = m\<lparr>sm_state := t\<rparr>"
  by (rule Transition_cases [of m t]) auto

text \<open>
  (C33) \<open>Transition\<close> implements the protocol's transition relation: it succeeds exactly on the
  transitions \<^verbatim>\<open>PROTOCOL.md\<close> allows, it then moves to the requested state, and a rejected request
  leaves the state machine as it was.
\<close>

theorem Transition_implements_protocol:
  "Transition m t =
     (if protocol_step (sm_state m) t then (m\<lparr>sm_state := t\<rparr>, None)
      else (m, Some (Errorf ''invalid session state transition %s -> %s''
                       [stateName (sm_state m), stateName t] [])))"
  by (auto simp: Transition_def allowedTransitions_protocol protocol_step_simps)

text \<open>
  No shortcut to a live state: whatever sequence of transitions was accepted from a fresh
  state machine, if the session is still live then the states it went through, up to repeated
  streaming, are exactly the protocol path.  In particular a streaming session has passed
  through \<open>AUTH_PENDING\<close> and then \<open>AUTHENTICATED\<close>.
\<close>

theorem live_state_follows_path:
  assumes "accepted NewStateMachine ns = Some m" and "isLive (sm_state m)"
  shows "remdups_adj ns = livePath (sm_state m)"
  using assms
proof (induction ns arbitrary: m rule: rev_induct)
  case Nil
  then show ?case by (auto simp: NewStateMachine_def)
next
  case (snoc t ns)
  then obtain m' where m': "accepted NewStateMachine ns = Some m'"
    and st: "protocol_step (sm_state m') t" "m = m'\<lparr>sm_state := t\<rparr>"
    by (auto simp: accepted_append accepted_single simp del: accepted.simps split: option.splits)
  from st snoc.prems have *: "isLive (sm_state m')"
    "livePath t = livePath (sm_state m') @ [t] \<or> sm_state m' = StateStreaming \<and> t = StateStreaming"
    using protocol_step_into_live by fastforce+
  from snoc.IH [OF m' *(1)] have IH: "remdups_adj ns = livePath (sm_state m')" .
  have "last ns = sm_state m'" if "ns \<noteq> []"
    using that IH *(1) last_remdups_adj [of ns] by (cases "sm_state m'") (auto simp: isLive_def)
  then show ?case
    using IH * st by (cases "ns = []") (auto simp: remdups_adj_append_two remdups_adj_append'' )
qed

theorem live_state_follows_path_witness:
  "remdups_adj [StateRendezvous, StateSignaling, StateAuthPending, StateAuthenticated,
                StateStreaming, StateStreaming] = livePath StateStreaming"
  using live_state_follows_path
    [of "[StateRendezvous, StateSignaling, StateAuthPending, StateAuthenticated,
          StateStreaming, StateStreaming]" "\<lparr>sm_state = StateStreaming\<rparr>"]
  by (simp add: NewStateMachine_def Transition_def isLive_def)

end
