(* ===== verification/GoStrings.thy ===== *)
theory GoStrings
  imports Prelude
begin

text \<open>
  The functions of Go's \<open>strings\<close> and \<open>strconv\<close> packages that rtc2tcp calls, on byte strings.

  \<open>strings.TrimSpace\<close> removes Unicode white space.  At the level of UTF-8 bytes a leading (or
  trailing) white-space rune is present exactly when the string starts (or ends) with the
  encoding of one, so the trim works on the list of those encodings.

  \<open>strings.ToUpper\<close>, \<open>ToLower\<close> and \<open>EqualFold\<close> have an ASCII path, modelled here, and a path
  that maps runes through the Unicode tables when a byte is not ASCII.  The tables are a
  parameter of type \<open>unicode\<close>: the three functions as they act on strings with a non-ASCII byte.
\<close>

section \<open>Definitions\<close>

subsection \<open>Trimming\<close>

definition spaceSeqs :: "string list" where
  "spaceSeqs =
    [[CHR 0x20], [CHR 0x09], [CHR 0x0A], [CHR 0x0B], [CHR 0x0C], [CHR 0x0D],
     [CHR 0xC2, CHR 0x85], [CHR 0xC2, CHR 0xA0], [CHR 0xE1, CHR 0x9A, CHR 0x80]]
    @ map (\<lambda>b. [CHR 0xE2, CHR 0x80, b])
        [CHR 0x80, CHR 0x81, CHR 0x82, CHR 0x83, CHR 0x84, CHR 0x85, CHR 0x86, CHR 0x87,
         CHR 0x88, CHR 0x89, CHR 0x8A, CHR 0xA8, CHR 0xA9, CHR 0xAF]
    @ [[CHR 0xE2, CHR 0x81, CHR 0x9F], [CHR 0xE3, CHR 0x80, CHR 0x80]]"

definition startsWith :: "string \<Rightarrow> string \<Rightarrow> bool" where
  "startsWith p s \<longleftrightarrow> take (length p) s = p"

fun dropSeqs :: "string list \<Rightarrow> string \<Rightarrow> string" where
  "dropSeqs ps [] = []"
| "dropSeqs ps (c # s) =
     (case find (\<lambda>p. p \<noteq> [] \<and> startsWith p (c # s)) ps of
        None \<Rightarrow> c # s
      | Some p \<Rightarrow> dropSeqs ps (drop (length p - 1) s))"

definition TrimLeftSpace :: "string \<Rightarrow> string" where
  "TrimLeftSpace s = dropSeqs spaceSeqs s"

definition TrimRightSpace :: "string \<Rightarrow> string" where
  "TrimRightSpace s = rev (dropSeqs (map rev spaceSeqs) (rev s))"

definition TrimSpace :: "string \<Rightarrow> string" where
  "TrimSpace s = TrimRightSpace (TrimLeftSpace s)"

subsection \<open>Case mapping\<close>

record unicode =
  uni_upper :: "string \<Rightarrow> string"
  uni_lower :: "string \<Rightarrow> string"
  uni_fold :: "string \<Rightarrow> string \<Rightarrow> bool"

abbreviation ord :: "char \<Rightarrow> nat" where
  "ord c \<equiv> of_char c"

definition isASCII :: "string \<Rightarrow> bool" where
  "isASCII s \<longleftrightarrow> list_all (\<lambda>c. ord c < 128) s"

definition upperChar :: "char \<Rightarrow> char" where
  "upperChar c = (if 97 \<le> ord c \<and> ord c \<le> 122 then char_of (ord c - 32) else c)"

definition lowerChar :: "char \<Rightarrow> char" where
  "lowerChar c = (if 65 \<le> ord c \<and> ord c \<le> 90 then char_of (ord c + 32) else c)"

definition ToUpper :: "unicode \<Rightarrow> string \<Rightarrow> string" where
  "ToUpper U s = (if isASCII s then map upperChar s else uni_upper U s)"

definition ToLower :: "unicode \<Rightarrow> string \<Rightarrow> string" where
  "ToLower U s = (if isASCII s then map lowerChar s else uni_lower U s)"

definition EqualFold :: "unicode \<Rightarrow> string \<Rightarrow> string \<Rightarrow> bool" where
  "EqualFold U s t =
     (if isASCII s \<and> isASCII t then map lowerChar s = map lowerChar t else uni_fold U s t)"

text \<open>Tables that leave non-ASCII strings alone, for examples on ASCII strings.\<close>

definition idUnicode :: unicode where
  "idUnicode = \<lparr>uni_upper = id, uni_lower = id, uni_fold = (=)\<rparr>"

subsection \<open>Searching, splitting and joining\<close>

text \<open>\<open>strings.Index\<close> of a single byte: \<open>None\<close> is the source's \<open>-1\<close>.\<close>

fun IndexByte :: "string \<Rightarrow> char \<Rightarrow> nat option" where
  "IndexByte [] c = None"
| "IndexByte (x # xs) c = (if x = c then Some 0 else map_option Suc (IndexByte xs c))"

definition LastIndexByte :: "string \<Rightarrow> char \<Rightarrow> nat option" where
  "LastIndexByte s c = map_option (\<lambda>i. length s - 1 - i) (IndexByte (rev s) c)"

fun Contains :: "string \<Rightarrow> string \<Rightarrow> bool" where
  "Contains [] p = (p = [])"
| "Contains (c # s) p = (startsWith p (c # s) \<or> Contains s p)"

text \<open>
  Splitting at every byte that satisfies a predicate: \<open>strings.Split\<close> on a one-byte separator
  keeps the empty pieces, \<open>strings.FieldsFunc\<close> drops them.
\<close>

fun SplitFunc :: "(char \<Rightarrow> bool) \<Rightarrow> string \<Rightarrow> string list" where
  "SplitFunc f [] = [[]]"
| "SplitFunc f (x # xs) =
     (if f x then [] # SplitFunc f xs
      else (case SplitFunc f xs of [] \<Rightarrow> [[x]] | p # ps \<Rightarrow> (x # p) # ps))"

definition SplitByte :: "string \<Rightarrow> char \<Rightarrow> string list" where
  "SplitByte s c = SplitFunc (\<lambda>x. x = c) s"

definition FieldsFunc :: "(char \<Rightarrow> bool) \<Rightarrow> string \<Rightarrow> string list" where
  "FieldsFunc f s = filter (\<lambda>p. p \<noteq> []) (SplitFunc f s)"

fun JoinWith :: "string list \<Rightarrow> string \<Rightarrow> string" where
  "JoinWith [] sep = []"
| "JoinWith [s] sep = s"
| "JoinWith (s # t # ss) sep = s @ sep @ JoinWith (t # ss) sep"

subsection \<open>Decimal numbers\<close>

definition digitChar :: "nat \<Rightarrow> char" where
  "digitChar d = char_of (48 + d)"

fun FormatNat :: "nat \<Rightarrow> string" where
  "FormatNat n = (if n < 10 then [digitChar n] else FormatNat (n div 10) @ [digitChar (n mod 10)])"

definition isDigit :: "char \<Rightarrow> bool" where
  "isDigit c \<longleftrightarrow> 48 \<le> ord c \<and> ord c \<le> 57"

definition digitsVal :: "string \<Rightarrow> nat" where
  "digitsVal ds = foldl (\<lambda>n c. 10 * n + (ord c - 48)) 0 ds"

text \<open>
  \<open>strconv.Atoi\<close> on a 64-bit platform: an optional sign, then at least one decimal digit, and
  an error when the value does not fit an \<open>int\<close>.
\<close>

definition Atoi :: "string \<Rightarrow> int option" where
  "Atoi s =
     (let (neg, ds) = (case s of [] \<Rightarrow> (False, [])
                       | c # cs \<Rightarrow> (if c = CHR ''-'' then (True, cs)
                                    else if c = CHR ''+'' then (False, cs) else (False, s)))
      in if ds = [] \<or> \<not> list_all isDigit ds then None
         else (let n = (if neg then - int (digitsVal ds) else int (digitsVal ds))
               in if - (2 ^ 63) \<le> n \<and> n < 2 ^ 63 then Some n else None))"

text \<open>The bytes that can start or end white space.\<close>

definition edgeByte :: "char \<Rightarrow> bool" where
  "edgeByte c \<longleftrightarrow> ord c \<le> 32 \<or> 128 \<le> ord c"

section \<open>Lemmas\<close>

declare FormatNat.simps [simp del]

subsection \<open>Trimming\<close>

lemma startsWith_append: "startsWith p s \<longleftrightarrow> (\<exists>t. s = p @ t)"
  unfolding startsWith_def by (metis append_eq_conv_conj append_take_drop_id)

lemma startsWith_mono: "startsWith p s \<Longrightarrow> startsWith p (s @ t)"
  by (auto simp: startsWith_append)

lemma dropSeqs_suffix: "\<exists>t. s = t @ dropSeqs ps s"
proof (induction ps s rule: dropSeqs.induct)
  case (2 ps c s)
  show ?case
  proof (cases "find (\<lambda>p. p \<noteq> [] \<and> startsWith p (c # s)) ps")
    case (Some p)
    from 2 [OF Some] obtain t where "drop (length p - 1) s = t @ dropSeqs ps (drop (length p - 1) s)"
      by blast
    then have "c # s = (c # take (length p - 1) s @ t) @ dropSeqs ps (c # s)"
      using Some by (metis (no_types, lifting) append_Cons append_assoc append_take_drop_id
          dropSeqs.simps(2) option.simps(5))
    then show ?thesis by blast
  qed simp
qed simp

lemma dropSeqs_no_lead:
  "p \<in> set ps \<Longrightarrow> p \<noteq> [] \<Longrightarrow> \<not> startsWith p (dropSeqs ps s)"
proof (induction ps s rule: dropSeqs.induct)
  case (1 ps)
  then show ?case by (simp add: startsWith_def)
next
  case (2 ps c s)
  show ?case
  proof (cases "find (\<lambda>p. p \<noteq> [] \<and> startsWith p (c # s)) ps")
    case None
    then have "dropSeqs ps (c # s) = c # s" by simp
    with None 2 show ?thesis by (auto simp: find_None_iff)
  next
    case (Some q)
    with 2 show ?thesis by simp
  qed
qed

lemma dropSeqs_id:
  "(\<And>p. p \<in> set ps \<Longrightarrow> p \<noteq> [] \<Longrightarrow> \<not> startsWith p s) \<Longrightarrow> dropSeqs ps s = s"
proof (cases s)
  case (Cons c t)
  assume "\<And>p. p \<in> set ps \<Longrightarrow> p \<noteq> [] \<Longrightarrow> \<not> startsWith p s"
  then have "find (\<lambda>p. p \<noteq> [] \<and> startsWith p (c # t)) ps = None"
    using Cons by (auto simp: find_None_iff)
  with Cons show ?thesis by simp
qed simp

lemma TrimSpace_Nil [simp]: "TrimSpace [] = []"
  by (simp add: TrimSpace_def TrimLeftSpace_def TrimRightSpace_def)

lemma TrimRight_prefix: "\<exists>t. s = TrimRightSpace s @ t"
proof -
  obtain t where "rev s = t @ dropSeqs (map rev spaceSeqs) (rev s)"
    using dropSeqs_suffix by blast
  then have "s = rev (dropSeqs (map rev spaceSeqs) (rev s)) @ rev t"
    by (metis rev_append rev_rev_ident)
  then show ?thesis by (auto simp: TrimRightSpace_def)
qed

lemma TrimSpace_no_lead:
  assumes "p \<in> set spaceSeqs" "p \<noteq> []"
  shows "\<not> startsWith p (TrimSpace s)"
proof
  assume "startsWith p (TrimSpace s)"
  moreover obtain t where "TrimLeftSpace s = TrimSpace s @ t"
    using TrimRight_prefix by (auto simp: TrimSpace_def)
  ultimately have "startsWith p (TrimLeftSpace s)" by (metis startsWith_mono)
  with assms show False by (simp add: TrimLeftSpace_def dropSeqs_no_lead)
qed

lemma TrimSpace_idem [simp]: "TrimSpace (TrimSpace s) = TrimSpace s"
proof -
  have "TrimLeftSpace (TrimSpace s) = TrimSpace s"
    unfolding TrimLeftSpace_def by (rule dropSeqs_id) (rule TrimSpace_no_lead)
  moreover have "TrimRightSpace (TrimSpace s) = TrimSpace s"
    unfolding TrimSpace_def TrimRightSpace_def
    using dropSeqs_id [OF dropSeqs_no_lead] by simp
  ultimately show ?thesis by (simp add: TrimSpace_def)
qed

lemma spaceSeqs_edges:
  "p \<in> set spaceSeqs \<Longrightarrow> p \<noteq> [] \<and> edgeByte (hd p) \<and> edgeByte (last p)"
  by (auto simp: spaceSeqs_def edgeByte_def)

lemma TrimSpace_visible:
  assumes "s \<noteq> []" "\<not> edgeByte (hd s)" "\<not> edgeByte (last s)"
  shows "TrimSpace s = s"
proof -
  have "\<not> startsWith p s" if "p \<in> set spaceSeqs" for p
    using that assms spaceSeqs_edges [OF that] by (auto simp: startsWith_append)
  then have l: "TrimLeftSpace s = s" unfolding TrimLeftSpace_def by (intro dropSeqs_id)
  have "\<not> startsWith (rev p) (rev s)" if "p \<in> set spaceSeqs" for p
  proof
    assume "startsWith (rev p) (rev s)"
    then obtain t where "rev s = rev p @ t" by (auto simp: startsWith_append)
    then have "s = rev t @ p" by (metis rev_append rev_rev_ident)
    with assms spaceSeqs_edges [OF that] show False by simp
  qed
  then have "TrimRightSpace s = s" unfolding TrimRightSpace_def by (subst dropSeqs_id) auto
  with l show ?thesis by (simp add: TrimSpace_def)
qed

lemma TrimSpace_visible_all:
  "list_all (\<lambda>c. 33 \<le> ord c \<and> ord c \<le> 126) s \<Longrightarrow> TrimSpace s = s"
  by (cases "s = []") (auto intro!: TrimSpace_visible simp: edgeByte_def list_all_iff
      dest: bspec [OF _ hd_in_set] bspec [OF _ last_in_set])

subsection \<open>Splitting and decimals\<close>

lemma SplitFunc_nonempty [simp]: "SplitFunc f s \<noteq> []"
  by (induction s) (auto split: list.splits)

lemma JoinWith_Cons: "ss \<noteq> [] \<Longrightarrow> JoinWith (s # ss) sep = s @ sep @ JoinWith ss sep"
  by (cases ss) auto

lemma JoinWith_SplitByte: "JoinWith (SplitByte s c) [c] = s"
proof -
  have "JoinWith (SplitFunc (\<lambda>x. x = c) s) [c] = s"
  proof (induction s)
    case (Cons x xs)
    then show ?case
      by (cases "SplitFunc (\<lambda>x. x = c) xs"; cases "tl (SplitFunc (\<lambda>x. x = c) xs) = []")
         (auto simp: JoinWith_Cons)
  qed simp
  then show ?thesis by (simp add: SplitByte_def)
qed

lemma SplitFunc_pieces: "p \<in> set (SplitFunc f s) \<Longrightarrow> x \<in> set p \<Longrightarrow> x \<in> set s \<and> \<not> f x"
proof (induction s arbitrary: p)
  case (Cons y ys)
  then show ?case by (auto split: if_splits list.splits) blast+
qed simp

lemma IndexByte_append:
  "c \<notin> set s \<Longrightarrow> IndexByte (s @ c # t) c = Some (length s)"
  by (induction s) auto

lemma IndexByte_None [simp]: "IndexByte s c = None \<longleftrightarrow> c \<notin> set s"
  by (induction s) auto

lemma IndexByte_absent [simp]: "c \<notin> set s \<Longrightarrow> IndexByte s c = None"
  by simp

lemma LastIndexByte_append:
  "c \<notin> set t \<Longrightarrow> LastIndexByte (s @ c # t) c = Some (length s)"
  by (simp add: LastIndexByte_def IndexByte_append)

lemma LastIndexByte_None [simp]: "LastIndexByte s c = None \<longleftrightarrow> c \<notin> set s"
  by (simp add: LastIndexByte_def)

lemma LastIndexByte_absent [simp]: "c \<notin> set s \<Longrightarrow> LastIndexByte s c = None"
  by simp

lemma FormatNat_digits: "list_all isDigit (FormatNat n)"
proof (induction n rule: FormatNat.induct)
  case (1 n)
  have d: "isDigit (digitChar k)" if "k < 10" for k
    using that by (simp add: isDigit_def digitChar_def)
  show ?case
    using 1 d by (subst FormatNat.simps) auto
qed

lemma FormatNat_nonempty [simp]: "FormatNat n \<noteq> []"
  by (subst FormatNat.simps) simp

lemma digitsVal_snoc: "digitsVal (ds @ [c]) = 10 * digitsVal ds + (ord c - 48)"
  by (simp add: digitsVal_def)

lemma digitsVal_FormatNat [simp]: "digitsVal (FormatNat n) = n"
proof (induction n rule: FormatNat.induct)
  case (1 n)
  show ?case
    by (subst FormatNat.simps) (use 1 in \<open>auto simp: digitsVal_snoc digitChar_def digitsVal_def\<close>)
qed

lemma FormatNat_inject [simp]: "FormatNat m = FormatNat n \<longleftrightarrow> m = n"
  by (metis digitsVal_FormatNat)

lemma isDigit_visible: "isDigit c \<Longrightarrow> \<not> edgeByte c"
  by (auto simp: isDigit_def edgeByte_def)

lemma Atoi_FormatNat: "n < 2 ^ 63 \<Longrightarrow> Atoi (FormatNat n) = Some (int n)"
proof -
  assume n: "n < 2 ^ 63"
  obtain c cs where f: "FormatNat n = c # cs" by (cases "FormatNat n") auto
  with FormatNat_digits [of n] have "isDigit c" by simp
  then have "c \<noteq> CHR ''-''" "c \<noteq> CHR ''+''" by (auto simp: isDigit_def)
  moreover have "int n < 2 ^ 63" using n by simp
  ultimately show ?thesis
    using f FormatNat_digits [of n] digitsVal_FormatNat [of n] by (simp add: Atoi_def)
qed

end
