(* ===== verification/GoNet.thy ===== *)
theory GoNet
  imports GoStrings
begin

unbundle bit_operations_syntax

text \<open>
  The functions of Go's \<open>net\<close> and \<open>net/netip\<close> packages that rtc2tcp calls: IP literals and
  their text form, CIDR networks, and \<open>host:port\<close> addresses.  A \<open>net.IP\<close> is a byte slice; the
  parsers always return the 16-byte form, in which an IPv4 address is mapped under
  \<open>::ffff:0:0/96\<close>.
\<close>

section \<open>Definitions\<close>

type_synonym ip = bytes

definition v4InV6Prefix :: bytes where
  "v4InV6Prefix = replicate 10 0 @ [255, 255]"

definition To4 :: "ip \<Rightarrow> ip option" where
  "To4 i = (if length i = 4 then Some i
            else if length i = 16 \<and> take 12 i = v4InV6Prefix then Some (drop 12 i)
            else None)"

subsection \<open>Parsing IP literals\<close>

text \<open>One octet of a dotted quad: decimal, no leading zero, at most 255.\<close>

definition parseOctet :: "string \<Rightarrow> byte option" where
  "parseOctet s =
     (if s \<noteq> [] \<and> list_all isDigit s \<and> (hd s = CHR ''0'' \<longrightarrow> length s = 1) \<and> digitsVal s \<le> 255
      then Some (word_of_nat (digitsVal s)) else None)"

definition parseIPv4Fields :: "string \<Rightarrow> bytes option" where
  "parseIPv4Fields s =
     (let fs = SplitByte s CHR ''.'' in if length fs = 4 then those (map parseOctet fs) else None)"

definition hexVal :: "char \<Rightarrow> nat option" where
  "hexVal c = (if 48 \<le> ord c \<and> ord c \<le> 57 then Some (ord c - 48)
               else if 97 \<le> ord c \<and> ord c \<le> 102 then Some (ord c - 87)
               else if 65 \<le> ord c \<and> ord c \<le> 70 then Some (ord c - 55) else None)"

definition isHex :: "char \<Rightarrow> bool" where
  "isHex c \<longleftrightarrow> hexVal c \<noteq> None"

definition hexNum :: "string \<Rightarrow> nat" where
  "hexNum ds = foldl (\<lambda>n c. 16 * n + (case hexVal c of None \<Rightarrow> 0 | Some d \<Rightarrow> d)) 0 ds"

text \<open>
  The loop of \<open>netip.parseIPv6\<close>: the first argument bounds its eight rounds, \<open>acc\<close> is the part
  of the address written so far and \<open>el\<close> the position of the ellipsis.  The result is the pair
  of \<open>acc\<close> and \<open>el\<close> when the whole string has been used.
\<close>

fun ipv6Loop :: "nat \<Rightarrow> string \<Rightarrow> bytes \<Rightarrow> nat option \<Rightarrow> (bytes \<times> nat option) option" where
  "ipv6Loop 0 s acc el = (if s = [] then Some (acc, el) else None)"
| "ipv6Loop (Suc n) s acc el =
     (let ds = takeWhile isHex s; rest = dropWhile isHex s in
      if ds = [] \<or> length ds > 4 then None
      else if rest \<noteq> [] \<and> hd rest = CHR ''.'' then
        (if el = None \<and> length acc \<noteq> 12 then None
         else if length acc + 4 > 16 then None
         else (case parseIPv4Fields s of None \<Rightarrow> None | Some q \<Rightarrow> Some (acc @ q, el)))
      else
        (let v = hexNum ds; acc' = acc @ [word_of_nat (v div 256), word_of_nat (v mod 256)] in
         (case rest of
            [] \<Rightarrow> Some (acc', el)
          | c # r \<Rightarrow>
              if c \<noteq> CHR '':'' \<or> r = [] then None
              else if hd r = CHR '':'' then
                (if el \<noteq> None then None
                 else if tl r = [] then Some (acc', Some (length acc'))
                 else ipv6Loop n (tl r) acc' (Some (length acc')))
              else ipv6Loop n r acc' el)))"

definition expandEllipsis :: "bytes \<Rightarrow> nat option \<Rightarrow> bytes option" where
  "expandEllipsis acc el =
     (case el of
        None \<Rightarrow> if length acc < 16 then None else Some acc
      | Some e \<Rightarrow> if length acc < 16
                  then Some (take e acc @ replicate (16 - length acc) 0 @ drop e acc) else None)"

definition parseIPv6 :: "string \<Rightarrow> bytes option" where
  "parseIPv6 s =
     (if startsWith ''::'' s then
        (if drop 2 s = [] then Some (replicate 16 0)
         else (case ipv6Loop 8 (drop 2 s) [] (Some 0) of
                 None \<Rightarrow> None | Some (acc, el) \<Rightarrow> expandEllipsis acc el))
      else (case ipv6Loop 8 s [] None of
              None \<Rightarrow> None | Some (acc, el) \<Rightarrow> expandEllipsis acc el))"

text \<open>
  \<open>netip.ParseAddr\<close> as a 16-byte address and its bit length.  An address with a zone is never
  accepted by the callers, so \<open>%\<close> is a failure.
\<close>

definition ParseAddr :: "string \<Rightarrow> (ip \<times> nat) option" where
  "ParseAddr s =
     (case find (\<lambda>c. c = CHR ''.'' \<or> c = CHR '':'' \<or> c = CHR ''%'') s of
        None \<Rightarrow> None
      | Some c \<Rightarrow>
          if c = CHR ''.'' then map_option (\<lambda>q. (v4InV6Prefix @ q, 32)) (parseIPv4Fields s)
          else if c = CHR '':'' \<and> CHR ''%'' \<notin> set s then map_option (\<lambda>a. (a, 128)) (parseIPv6 s)
          else None)"

definition ParseIP :: "string \<Rightarrow> ip option" where
  "ParseIP s = map_option fst (ParseAddr s)"

subsection \<open>Printing IP addresses\<close>

definition FormatIPv4 :: "bytes \<Rightarrow> string" where
  "FormatIPv4 q = JoinWith (map (\<lambda>b. FormatNat (unat b)) q) ''.''"

definition hexDigit :: "nat \<Rightarrow> char" where
  "hexDigit n = (if n < 10 then char_of (48 + n) else char_of (87 + n))"

fun FormatHex :: "nat \<Rightarrow> string" where
  "FormatHex n = (if n < 16 then [hexDigit n] else FormatHex (n div 16) @ [hexDigit (n mod 16)])"

fun groups16 :: "bytes \<Rightarrow> nat list" where
  "groups16 (a # b # r) = (unat a * 256 + unat b) # groups16 r"
| "groups16 _ = []"

definition zeroRun :: "nat list \<Rightarrow> nat \<Rightarrow> nat" where
  "zeroRun gs i = length (takeWhile (\<lambda>g. g = 0) (drop i gs))"

text \<open>The first longest run of at least two zero groups: its start and its end.\<close>

definition longestRun :: "nat list \<Rightarrow> (nat \<times> nat) option" where
  "longestRun gs =
     foldl (\<lambda>best i. let l = zeroRun gs i in
              if 2 \<le> l \<and> (case best of None \<Rightarrow> True | Some (s, e) \<Rightarrow> e - s < l)
              then Some (i, i + l) else best) None [0..<8]"

definition FormatIPv6 :: "ip \<Rightarrow> string" where
  "FormatIPv6 i =
     (let gs = groups16 i in
      case longestRun gs of
        None \<Rightarrow> JoinWith (map FormatHex gs) '':''
      | Some (s, e) \<Rightarrow> JoinWith (map FormatHex (take s gs)) '':'' @ ''::''
                       @ JoinWith (map FormatHex (drop e gs)) '':'')"

definition IPString :: "ip \<Rightarrow> string" where
  "IPString i = (case To4 i of Some q \<Rightarrow> FormatIPv4 q | None \<Rightarrow> FormatIPv6 i)"

subsection \<open>Classification\<close>

definition IsUnspecified :: "ip \<Rightarrow> bool" where
  "IsUnspecified i \<longleftrightarrow> To4 i = Some [0, 0, 0, 0] \<or> i = replicate 16 0"

definition IsMulticast :: "ip \<Rightarrow> bool" where
  "IsMulticast i = (case To4 i of
      Some q \<Rightarrow> hd q AND 0xF0 = 0xE0
    | None \<Rightarrow> length i = 16 \<and> hd i = 0xFF)"

definition IsLoopback :: "ip \<Rightarrow> bool" where
  "IsLoopback i = (case To4 i of
      Some q \<Rightarrow> hd q = 127
    | None \<Rightarrow> i = replicate 15 0 @ [1])"

subsection \<open>Networks\<close>

record ipnet =
  net_ip :: ip
  net_mask :: bytes

definition maskByte :: "nat \<Rightarrow> byte" where
  "maskByte n = (if 8 \<le> n then 255 else word_of_nat (256 - 2 ^ (8 - n)))"

definition CIDRMask :: "nat \<Rightarrow> nat \<Rightarrow> bytes" where
  "CIDRMask ones bits = map (\<lambda>i. maskByte (ones - 8 * i)) [0..<bits div 8]"

definition maskBytes :: "bytes \<Rightarrow> bytes \<Rightarrow> bytes" where
  "maskBytes x m = map2 (AND) x m"

definition IPMaskApply :: "ip \<Rightarrow> bytes \<Rightarrow> ip" where
  "IPMaskApply i m =
     (let j = (if length m = 4 \<and> length i = 16 \<and> take 12 i = v4InV6Prefix then drop 12 i else i)
      in if length j = length m then maskBytes j m else [])"

text \<open>\<open>dtoi\<close> accepts leading zeros and fails above \<open>0xFFFFFF\<close>.\<close>

definition dtoi :: "string \<Rightarrow> nat option" where
  "dtoi s = (if s \<noteq> [] \<and> list_all isDigit s \<and> int (digitsVal s) < 0xFFFFFF then Some (digitsVal s) else None)"

definition ParseCIDR :: "string \<Rightarrow> (ip \<times> ipnet) option" where
  "ParseCIDR s =
     (case IndexByte s CHR ''/'' of
        None \<Rightarrow> None
      | Some k \<Rightarrow>
          (case (ParseAddr (take k s), dtoi (drop (Suc k) s)) of
             (Some (a, bl), Some n) \<Rightarrow>
               if n \<le> bl then
                 (let m = CIDRMask n bl in Some (a, \<lparr>net_ip = IPMaskApply a m, net_mask = m\<rparr>))
               else None
           | _ \<Rightarrow> None))"

definition networkNumberAndMask :: "ipnet \<Rightarrow> (ip \<times> bytes) option" where
  "networkNumberAndMask n =
     (let i = (case To4 (net_ip n) of Some q \<Rightarrow> q | None \<Rightarrow> net_ip n); m = net_mask n in
      if length i \<noteq> 4 \<and> length i \<noteq> 16 then None
      else if length m = 4 then (if length i = 4 then Some (i, m) else None)
      else if length m = 16 then Some (i, if length i = 4 then drop 12 m else m)
      else None)"

definition IPNetContains :: "ipnet \<Rightarrow> ip \<Rightarrow> bool" where
  "IPNetContains n i =
     (case networkNumberAndMask n of
        None \<Rightarrow> False
      | Some (nn, m) \<Rightarrow>
          (let j = (case To4 i of Some q \<Rightarrow> q | None \<Rightarrow> i) in
           length j = length nn \<and> maskBytes nn m = maskBytes j m))"

subsection \<open>Host and port\<close>

definition JoinHostPort :: "string \<Rightarrow> string \<Rightarrow> string" where
  "JoinHostPort host port =
     (if CHR '':'' \<in> set host then ''['' @ host @ '']:'' @ port else host @ '':'' @ port)"

definition addrErr :: "string \<Rightarrow> string \<Rightarrow> gerror" where
  "addrErr hp why = Errorf ''address %s: %s'' [hp, why] []"

definition SplitHostPort :: "string \<Rightarrow> (string \<times> string) res" where
  "SplitHostPort hp =
     (case LastIndexByte hp CHR '':'' of
        None \<Rightarrow> Inl (addrErr hp ''missing port in address'')
      | Some i \<Rightarrow>
          (let checked = (\<lambda>host j k.
             if CHR ''['' \<in> set (drop j hp) then Inl (addrErr hp ''unexpected '[' in address'')
             else if CHR '']'' \<in> set (drop k hp) then Inl (addrErr hp ''unexpected ']' in address'')
             else Inr (host, drop (Suc i) hp)) in
           if hd hp = CHR ''['' then
             (case IndexByte hp CHR '']'' of
                None \<Rightarrow> Inl (addrErr hp ''missing ']' in address'')
              | Some e \<Rightarrow>
                  if e + 1 = length hp then Inl (addrErr hp ''missing port in address'')
                  else if e + 1 = i then checked (drop 1 (take e hp)) 1 (e + 1)
                  else if hp ! (e + 1) = CHR '':'' then Inl (addrErr hp ''too many colons in address'')
                  else Inl (addrErr hp ''missing port in address''))
           else
             (let host = take i hp in
              if CHR '':'' \<in> set host then Inl (addrErr hp ''too many colons in address'')
              else checked host 0 0)))"

end
