(* ===== verification/Config.thy ===== *)
theory Config
  imports GoNet
begin

text \<open>
  The configuration package, \<^verbatim>\<open>internal/config\<close>: peer modes and options (\<^verbatim>\<open>peer.go\<close>), address
  validation (\<^verbatim>\<open>address.go\<close>) and the resolution of the rendezvous token and the pairing secret
  from flags, environment and files (\<^verbatim>\<open>secrets.go\<close>).  \<open>PeerMode\<close> is a string type, as in the
  source.  The process environment is a function \<open>env\<close> (\<open>os.Getenv\<close> gives the empty string for
  an unset variable) and the file system a function \<open>fs\<close> (\<open>os.ReadFile\<close>).
\<close>

section \<open>Definitions\<close>

subsection \<open>Peer modes\<close>

type_synonym PeerMode = string

definition ModeExpose :: PeerMode where
  [simp]: "ModeExpose = ''expose''"

definition ModeConnect :: PeerMode where
  [simp]: "ModeConnect = ''connect''"

definition ParsePeerMode :: "unicode \<Rightarrow> string \<Rightarrow> PeerMode res" where
  "ParsePeerMode U value =
     (let v = ToLower U (TrimSpace value) in
      if v = ModeExpose then Inr ModeExpose
      else if v = ModeConnect then Inr ModeConnect
      else Inl (Errorf ''unsupported mode %q'' [value] []))"

definition PeerMode_Peer :: "PeerMode \<Rightarrow> PeerMode" where
  "PeerMode_Peer m = (if m = ModeExpose then ModeConnect else if m = ModeConnect then ModeExpose else [])"

subsection \<open>Addresses\<close>

datatype AddressRole = AddressRoleTarget | AddressRoleListen

definition ValidateAddress :: "string \<Rightarrow> AddressRole \<Rightarrow> string res" where
  "ValidateAddress addr0 role =
     (let addr = TrimSpace addr0 in
      if addr = [] then Inl (errors_New ''address is empty'')
      else (case SplitHostPort addr of
        Inl err \<Rightarrow> Inl (Errorf ''parse address %q: %w'' [addr] [err])
      | Inr (host, portStr) \<Rightarrow>
          (case Atoi portStr of
             None \<Rightarrow> Inl (Errorf ''invalid port %q'' [portStr] [])
           | Some port \<Rightarrow>
               if port \<le> 0 \<or> port > 65535 then Inl (Errorf ''invalid port %q'' [portStr] [])
               else if host = [] then Inl (errors_New ''host is empty'')
               else (case ParseIP host of
                  Some ip \<Rightarrow>
                    if IsUnspecified ip then
                      Inl (Errorf ''unspecified address %q is not allowed; name a specific interface'' [addr] [])
                    else if IsMulticast ip then
                      Inl (Errorf ''multicast address %q is not allowed'' [addr] [])
                    else Inr (JoinHostPort (IPString ip) portStr)
                | None \<Rightarrow>
                    if role = AddressRoleListen then
                      Inl (Errorf ''listen address %q must be an IP literal'' [addr] [])
                    else Inr addr))))"

subsection \<open>Peer options\<close>

record ICEConfig =
  ice_STUN :: string
  ice_TURN :: string
  ice_TURNUsername :: string
  ice_TURNPassword :: string

record PeerOptions =
  po_Mode :: PeerMode
  po_RendezvousToken :: string
  po_PairingSecret :: string
  po_BrokerURL :: string
  po_ICE :: ICEConfig
  po_Target :: string
  po_Listen :: string
  po_SOCKS5 :: bool

text \<open>\<open>Validate\<close> returns an error or nil.\<close>

definition PeerOptions_Validate :: "PeerOptions \<Rightarrow> gerror option" where
  "PeerOptions_Validate o' =
     (if TrimSpace (po_RendezvousToken o') = [] then Some (errors_New ''rendezvous token is required'')
      else if TrimSpace (po_PairingSecret o') = [] then Some (errors_New ''pairing secret is required'')
      else if TrimSpace (po_BrokerURL o') = [] then Some (errors_New ''broker URL is required'')
      else if po_Mode o' = ModeExpose then
        (if \<not> po_SOCKS5 o' then
           (if TrimSpace (po_Target o') = [] then
              Some (errors_New ''target is required in expose mode (or use --socks5)'')
            else (case ValidateAddress (po_Target o') AddressRoleTarget of
                    Inl err \<Rightarrow> Some (Errorf ''invalid target: %w'' [] [err]) | Inr _ \<Rightarrow> None))
         else None)
      else if po_Mode o' = ModeConnect then
        (if TrimSpace (po_Listen o') = [] then Some (errors_New ''listen is required in connect mode'')
         else (case ValidateAddress (po_Listen o') AddressRoleListen of
                 Inl err \<Rightarrow> Some (Errorf ''invalid listen: %w'' [] [err]) | Inr _ \<Rightarrow> None))
      else Some (Errorf ''unsupported mode %q'' [po_Mode o'] []))"

subsection \<open>Credentials\<close>

definition EnvRendezvousToken :: string where
  "EnvRendezvousToken = ''RTC2TCP_RENDEZVOUS_TOKEN''"

definition EnvPairingSecret :: string where
  "EnvPairingSecret = ''RTC2TCP_PAIRING_SECRET''"

definition EnvPairingSecretFile :: string where
  "EnvPairingSecretFile = ''RTC2TCP_PAIRING_SECRET_FILE''"

definition ResolveRendezvousTokenOptional :: "(string \<Rightarrow> string) \<Rightarrow> string \<Rightarrow> string" where
  "ResolveRendezvousTokenOptional env flagValue =
     (let value = TrimSpace flagValue in
      if value \<noteq> [] then value else TrimSpace (env EnvRendezvousToken))"

definition ResolveRendezvousToken :: "(string \<Rightarrow> string) \<Rightarrow> string \<Rightarrow> string res" where
  "ResolveRendezvousToken env flagValue =
     (let v = ResolveRendezvousTokenOptional env flagValue in
      if v \<noteq> [] then Inr v
      else Inl (Errorf ''rendezvous token is required via --rendezvous-token or %s'' [EnvRendezvousToken] []))"

definition countNonEmpty :: "string list \<Rightarrow> nat" where
  "countNonEmpty values = length (filter (\<lambda>value. TrimSpace value \<noteq> []) values)"

definition readSecretFile :: "(string \<Rightarrow> bytes res) \<Rightarrow> string \<Rightarrow> string res" where
  "readSecretFile fs path =
     (case fs (TrimSpace path) of
        Inl err \<Rightarrow> Inl err
      | Inr data \<Rightarrow>
          (let secret = TrimSpace (string_of data) in
           if secret = [] then Inl (errors_New ''secret file is empty'') else Inr secret))"

record source =
  src_value :: string
  src_path :: string
  src_origin :: string

fun resolveSources :: "(string \<Rightarrow> bytes res) \<Rightarrow> source list \<Rightarrow> string res" where
  "resolveSources fs [] = Inr []"
| "resolveSources fs (s # ss) =
     (if TrimSpace (src_path s) \<noteq> [] then
        (case readSecretFile fs (src_path s) of
           Inl err \<Rightarrow> Inl (Errorf ''load pairing secret from %s: %w'' [src_origin s] [err])
         | Inr secret \<Rightarrow> Inr secret)
      else if TrimSpace (src_value s) \<noteq> [] then Inr (TrimSpace (src_value s))
      else resolveSources fs ss)"

definition secretSources :: "string \<Rightarrow> string \<Rightarrow> string \<Rightarrow> string \<Rightarrow> string \<Rightarrow> string \<Rightarrow> source list" where
  "secretSources pairingSecret pairingSecretFile legacySecret legacySecretFile envSecret envSecretFile =
     [\<lparr>src_value = [], src_path = pairingSecretFile, src_origin = ''--pairing-secret-file''\<rparr>,
      \<lparr>src_value = pairingSecret, src_path = [], src_origin = ''--pairing-secret''\<rparr>,
      \<lparr>src_value = [], src_path = legacySecretFile, src_origin = ''--secret-file''\<rparr>,
      \<lparr>src_value = legacySecret, src_path = [], src_origin = ''--secret''\<rparr>,
      \<lparr>src_value = [], src_path = envSecretFile, src_origin = EnvPairingSecretFile\<rparr>,
      \<lparr>src_value = envSecret, src_path = [], src_origin = EnvPairingSecret\<rparr>]"

definition ResolvePairingSecretOptional ::
  "(string \<Rightarrow> string) \<Rightarrow> (string \<Rightarrow> bytes res) \<Rightarrow> string \<Rightarrow> string \<Rightarrow> string \<Rightarrow> string \<Rightarrow> string res" where
  "ResolvePairingSecretOptional env fs pairingSecret pairingSecretFile legacySecret legacySecretFile =
     (let explicitSources = countNonEmpty [pairingSecret, pairingSecretFile, legacySecret, legacySecretFile];
          envSecret = TrimSpace (env EnvPairingSecret);
          envSecretFile = TrimSpace (env EnvPairingSecretFile) in
      if explicitSources > 1 then Inl (errors_New ''use only one explicit pairing secret source'')
      else if explicitSources = 0 \<and> countNonEmpty [envSecret, envSecretFile] > 1 then
        Inl (errors_New ''use only one pairing secret environment source'')
      else resolveSources fs (secretSources pairingSecret pairingSecretFile legacySecret legacySecretFile
             envSecret envSecretFile))"

definition ResolvePairingSecret ::
  "(string \<Rightarrow> string) \<Rightarrow> (string \<Rightarrow> bytes res) \<Rightarrow> string \<Rightarrow> string \<Rightarrow> string \<Rightarrow> string \<Rightarrow> string res" where
  "ResolvePairingSecret env fs pairingSecret pairingSecretFile legacySecret legacySecretFile =
     (case ResolvePairingSecretOptional env fs pairingSecret pairingSecretFile legacySecret legacySecretFile of
        Inl err \<Rightarrow> Inl err
      | Inr secret \<Rightarrow>
          if secret = [] then
            Inl (Errorf ''pairing secret is required via --pairing-secret-file, --pairing-secret, or %s/%s''
                   [EnvPairingSecretFile, EnvPairingSecret] [])
          else Inr secret)"

section \<open>Lemmas\<close>

lemma readSecretFile_nonempty: "readSecretFile fs p = Inr s \<Longrightarrow> s \<noteq> [] \<and> TrimSpace s = s"
  by (auto simp: readSecretFile_def Let_def split: sum.splits if_splits)

lemma resolveSources_Inr:
  "resolveSources fs ss = Inr s \<Longrightarrow>
     TrimSpace s = s \<and> (s = [] \<longleftrightarrow> (\<forall>x \<in> set ss. TrimSpace (src_path x) = [] \<and> TrimSpace (src_value x) = []))"
  by (induction ss) (auto split: if_splits sum.splits dest: readSecretFile_nonempty)

lemma ParsePeerMode_Inr: "ParsePeerMode U v = Inr m \<Longrightarrow> m = ModeExpose \<or> m = ModeConnect"
  by (auto simp: ParsePeerMode_def Let_def split: if_splits)

lemma countNonEmpty_le_1:
  "countNonEmpty [a, b, c, d] \<le> 1 \<Longrightarrow> TrimSpace a \<noteq> [] \<Longrightarrow>
     TrimSpace b = [] \<and> TrimSpace c = [] \<and> TrimSpace d = []"
  by (auto simp: countNonEmpty_def split: if_splits)

text \<open>
  The listen address a connect peer ends up with is a unicast IP literal with a port in
  1 to 65535: validation never lets a wildcard, a multicast group or a host name through.
\<close>

theorem ValidateAddress_listen_is_unicast_literal:
  assumes "ValidateAddress addr AddressRoleListen = Inr a"
  shows "\<exists>host portStr port ip. SplitHostPort (TrimSpace addr) = Inr (host, portStr)
           \<and> Atoi portStr = Some port \<and> 1 \<le> port \<and> port \<le> 65535
           \<and> ParseIP host = Some ip \<and> \<not> IsUnspecified ip \<and> \<not> IsMulticast ip
           \<and> a = JoinHostPort (IPString ip) portStr"
  using assms
  by (auto simp: ValidateAddress_def Let_def split: if_splits sum.splits prod.splits option.splits)

theorem ValidateAddress_listen_is_unicast_literal_witness:
  "ValidateAddress '' 127.0.0.1:2222'' AddressRoleListen = Inr ''127.0.0.1:2222''
     \<and> (\<exists>ip. ParseIP ''127.0.0.1'' = Some ip \<and> \<not> IsUnspecified ip \<and> \<not> IsMulticast ip)"
proof -
  have v: "ValidateAddress '' 127.0.0.1:2222'' AddressRoleListen = Inr ''127.0.0.1:2222''" by code_simp
  have "SplitHostPort (TrimSpace '' 127.0.0.1:2222'') = Inr (''127.0.0.1'', ''2222'')" by code_simp
  with ValidateAddress_listen_is_unicast_literal [OF v] v show ?thesis by auto
qed

text \<open>
  Resolving the pairing secret: without an error the result is trimmed, and it is empty
  exactly when no flag and no environment variable names a source; a second explicit source is
  always an error; and an explicit source decides alone, whatever the environment holds.
\<close>

theorem ResolvePairingSecretOptional_spec:
  fixes ps pf ls lf
  defines "n \<equiv> countNonEmpty [ps, pf, ls, lf]"
  shows "(n > 1 \<longrightarrow> (\<exists>e. ResolvePairingSecretOptional env fs ps pf ls lf = Inl e))
       \<and> (n = 1 \<longrightarrow> ResolvePairingSecretOptional env fs ps pf ls lf
                    = ResolvePairingSecretOptional env' fs ps pf ls lf)
       \<and> (\<forall>s. ResolvePairingSecretOptional env fs ps pf ls lf = Inr s \<longrightarrow>
             TrimSpace s = s \<and>
             (s = [] \<longleftrightarrow> n = 0 \<and> countNonEmpty [env EnvPairingSecret, env EnvPairingSecretFile] = 0))"
proof (intro conjI impI allI)
  show "\<exists>e. ResolvePairingSecretOptional env fs ps pf ls lf = Inl e" if "n > 1"
    using that by (simp add: ResolvePairingSecretOptional_def n_def Let_def)
  show "ResolvePairingSecretOptional env fs ps pf ls lf
          = ResolvePairingSecretOptional env' fs ps pf ls lf" if "n = 1"
    using that
    by (auto simp: ResolvePairingSecretOptional_def n_def Let_def secretSources_def countNonEmpty_def
             split: if_splits)
  fix s assume s: "ResolvePairingSecretOptional env fs ps pf ls lf = Inr s"
  then have "resolveSources fs (secretSources ps pf ls lf (TrimSpace (env EnvPairingSecret))
               (TrimSpace (env EnvPairingSecretFile))) = Inr s"
    by (auto simp: ResolvePairingSecretOptional_def Let_def split: if_splits)
  from resolveSources_Inr [OF this]
  show "TrimSpace s = s" and "s = [] \<longleftrightarrow> n = 0 \<and> countNonEmpty [env EnvPairingSecret, env EnvPairingSecretFile] = 0"
    by (auto simp: secretSources_def n_def countNonEmpty_def)
qed

theorem ResolvePairingSecretOptional_spec_witness:
  "ResolvePairingSecretOptional (\<lambda>_. ''env'') (\<lambda>_. Inr []) '' s '' [] [] [] = Inr ''s''
     \<and> ResolvePairingSecretOptional (\<lambda>_. ''env'') (\<lambda>_. Inr []) ''a'' ''b'' [] [] \<noteq> Inr []"
proof -
  have c: "countNonEmpty ['' s '', [], [], []] = 1" "countNonEmpty [''a'', ''b'', [], []] = 2" by code_simp+
  have "ResolvePairingSecretOptional (\<lambda>_. []) (\<lambda>_. Inr []) '' s '' [] [] [] = Inr ''s''" by code_simp
  with c ResolvePairingSecretOptional_spec [of "'' s ''" "[]" "[]" "[]" "\<lambda>_. ''env''" "\<lambda>_. Inr []" "\<lambda>_. []"]
    ResolvePairingSecretOptional_spec [of "''a''" "''b''" "[]" "[]" "\<lambda>_. ''env''" "\<lambda>_. Inr []"]
  show ?thesis by auto
qed

end
