(* ===== verification/GoBase64.thy ===== *)
theory GoBase64
  imports GoStrings
begin

text \<open>
  Go's \<open>base64.RawURLEncoding\<close>: the URL-safe alphabet without padding.  As in the library, the
  decoder skips carriage returns and line feeds anywhere in the input, rejects every other byte
  outside the alphabet, rejects a final group of one character and ignores the unused low bits
  of a final group of two or three.
\<close>

section \<open>Definitions\<close>

definition b64alphabet :: string where
  "b64alphabet = ''ABCDEFGHIJKLMNOPQRSTUVWXYZabcdefghijklmnopqrstuvwxyz0123456789-_''"

definition b64char :: "nat \<Rightarrow> char" where
  "b64char n = b64alphabet ! n"

definition b64val :: "char \<Rightarrow> nat option" where
  "b64val c =
     (if 65 \<le> ord c \<and> ord c \<le> 90 then Some (ord c - 65)
      else if 97 \<le> ord c \<and> ord c \<le> 122 then Some (ord c - 71)
      else if 48 \<le> ord c \<and> ord c \<le> 57 then Some (ord c + 4)
      else if ord c = 45 then Some 62
      else if ord c = 95 then Some 63
      else None)"

fun EncodeToString :: "bytes \<Rightarrow> string" where
  "EncodeToString [] = []"
| "EncodeToString [a] =
     [b64char (unat a div 4), b64char (unat a mod 4 * 16)]"
| "EncodeToString [a, b] =
     [b64char (unat a div 4), b64char (unat a mod 4 * 16 + unat b div 16),
      b64char (unat b mod 16 * 4)]"
| "EncodeToString (a # b # c # r) =
     [b64char (unat a div 4), b64char (unat a mod 4 * 16 + unat b div 16),
      b64char (unat b mod 16 * 4 + unat c div 64), b64char (unat c mod 64)] @ EncodeToString r"

definition octet :: "nat \<Rightarrow> byte" where
  "octet n = word_of_nat n"

fun b64groups :: "nat list \<Rightarrow> bytes option" where
  "b64groups [] = Some []"
| "b64groups [v0] = None"
| "b64groups [v0, v1] = Some [octet (v0 * 4 + v1 div 16)]"
| "b64groups [v0, v1, v2] =
     Some [octet (v0 * 4 + v1 div 16), octet (v1 mod 16 * 16 + v2 div 4)]"
| "b64groups (v0 # v1 # v2 # v3 # r) =
     map_option (\<lambda>bs. octet (v0 * 4 + v1 div 16) # octet (v1 mod 16 * 16 + v2 div 4)
                      # octet (v2 mod 4 * 64 + v3) # bs) (b64groups r)"

definition DecodeString :: "string \<Rightarrow> bytes option" where
  "DecodeString s =
     (case those (map b64val (filter (\<lambda>c. c \<noteq> CHR 0x0A \<and> c \<noteq> CHR 0x0D) s)) of
        None \<Rightarrow> None
      | Some vs \<Rightarrow> b64groups vs)"

section \<open>Lemmas\<close>

lemma b64_table: "map b64val b64alphabet = map Some [0..<64]"
  by (simp add: b64alphabet_def b64val_def upt_rec)

lemma length_b64alphabet [simp]: "length b64alphabet = 64"
  by (simp add: b64alphabet_def)

lemma b64alphabet_range: "list_all (\<lambda>c. 45 \<le> ord c \<and> ord c \<le> 122) b64alphabet"
  by (simp add: b64alphabet_def)

lemma b64val_char [simp]: "i < 64 \<Longrightarrow> b64val (b64char i) = Some i"
  using arg_cong [OF b64_table, of "\<lambda>xs. xs ! i"] by (simp add: b64char_def)

lemma b64char_range: "i < 64 \<Longrightarrow> 45 \<le> ord (b64char i) \<and> ord (b64char i) \<le> 122"
  using b64alphabet_range by (simp add: b64char_def list_all_length)

lemma unat_byte_bound [simp]: "unat (a :: byte) < 256"
  using unsigned_less [of a] by simp

lemma b64_sextets:
  "unat (a :: byte) div 4 < 64" "unat a mod 4 * 16 < 64" "unat a mod 16 * 4 < 64"
  "unat a mod 4 * 16 + unat (b :: byte) div 16 < 64" "unat a mod 16 * 4 + unat b div 64 < 64"
proof -
  have "unat a < 256" "unat b < 256" by simp_all
  then show "unat a div 4 < 64" "unat a mod 4 * 16 < 64" "unat a mod 16 * 4 < 64"
    "unat a mod 4 * 16 + unat b div 16 < 64" "unat a mod 16 * 4 + unat b div 64 < 64"
    by linarith+
qed

lemma EncodeToString_chars: "set (EncodeToString b) \<subseteq> b64char ` {..<64}"
  by (induction b rule: EncodeToString.induct) (auto simp: b64_sextets)

lemma EncodeToString_visible: "list_all (\<lambda>c. 33 \<le> ord c \<and> ord c \<le> 126) (EncodeToString b)"
  using EncodeToString_chars [of b] by (force simp: list_all_iff dest: b64char_range)

lemma TrimSpace_EncodeToString [simp]: "TrimSpace (EncodeToString b) = EncodeToString b"
  by (rule TrimSpace_visible_all) (rule EncodeToString_visible)

lemma EncodeToString_no_newline:
  "filter (\<lambda>c. c \<noteq> CHR 0x0A \<and> c \<noteq> CHR 0x0D) (EncodeToString b) = EncodeToString b"
  using EncodeToString_visible [of b] by (auto simp: list_all_iff intro!: filter_True)

lemma those_append:
  "those xs = Some vs \<Longrightarrow> those ys = Some ws \<Longrightarrow> those (xs @ ys) = Some (vs @ ws)"
  by (induction xs arbitrary: vs) (auto split: option.splits simp: map_option_case)

lemma byte_div_bounds [simp]:
  "unat (b :: byte) div 16 div 16 = 0" "unat b div 16 mod 16 = unat b div 16"
  "unat b div 64 div 4 = 0" "unat b div 64 mod 4 = unat b div 64"
proof -
  have "unat b div 16 < 16" "unat b div 64 < 4" using unat_byte_bound [of b] by linarith+
  then show "unat b div 16 div 16 = 0" "unat b div 16 mod 16 = unat b div 16"
    "unat b div 64 div 4 = 0" "unat b div 64 mod 4 = unat b div 64"
    by simp_all
qed

lemma octet_unat [simp]: "octet (unat a) = a"
  by (simp add: octet_def)

lemma encode_values:
  "\<exists>vs. those (map b64val (EncodeToString b)) = Some vs \<and> b64groups vs = Some b"
  by (induction b rule: EncodeToString.induct) (auto simp: b64_sextets)

theorem DecodeString_EncodeToString [simp]: "DecodeString (EncodeToString b) = Some b"
  using encode_values [of b] by (auto simp: DecodeString_def EncodeToString_no_newline)

lemma length_EncodeToString: "length (EncodeToString b) = (4 * length b + 2) div 3"
  by (induction b rule: EncodeToString.induct) (auto simp: Let_def)

end
