(* ===== verification/GoSha256.thy ===== *)
theory GoSha256
  imports Prelude
begin

unbundle bit_operations_syntax

text \<open>
  Go's \<open>crypto/sha256\<close> and \<open>crypto/hmac\<close> (FIPS 180-4 and RFC 2104) as functions on byte lists.
\<close>

section \<open>Definitions\<close>

type_synonym u32 = "32 word"
type_synonym sha_state = "u32 \<times> u32 \<times> u32 \<times> u32 \<times> u32 \<times> u32 \<times> u32 \<times> u32"

definition sha_K :: "u32 list" where
  "sha_K =
    [1116352408, 1899447441, 3049323471, 3921009573, 961987163, 1508970993, 2453635748, 2870763221,
     3624381080, 310598401, 607225278, 1426881987, 1925078388, 2162078206, 2614888103, 3248222580,
     3835390401, 4022224774, 264347078, 604807628, 770255983, 1249150122, 1555081692, 1996064986,
     2554220882, 2821834349, 2952996808, 3210313671, 3336571891, 3584528711, 113926993, 338241895,
     666307205, 773529912, 1294757372, 1396182291, 1695183700, 1986661051, 2177026350, 2456956037,
     2730485921, 2820302411, 3259730800, 3345764771, 3516065817, 3600352804, 4094571909, 275423344,
     430227734, 506948616, 659060556, 883997877, 958139571, 1322822218, 1537002063, 1747873779,
     1955562222, 2024104815, 2227730452, 2361852424, 2428436474, 2756734187, 3204031479, 3329325298]"

definition sha_H0 :: sha_state where
  "sha_H0 = (1779033703, 3144134277, 1013904242, 2773480762,
             1359893119, 2600822924, 528734635, 1541459225)"

definition sha_s0 :: "u32 \<Rightarrow> u32" where
  "sha_s0 x = word_rotr 7 x XOR word_rotr 18 x XOR drop_bit 3 x"

definition sha_s1 :: "u32 \<Rightarrow> u32" where
  "sha_s1 x = word_rotr 17 x XOR word_rotr 19 x XOR drop_bit 10 x"

fun sha_round :: "sha_state \<Rightarrow> u32 \<times> u32 \<Rightarrow> sha_state" where
  "sha_round (a, b, c, d, e, f, g, h) (k, w) =
     (let S1 = word_rotr 6 e XOR word_rotr 11 e XOR word_rotr 25 e;
          ch = (e AND f) XOR (NOT e AND g);
          t1 = h + S1 + ch + k + w;
          S0 = word_rotr 2 a XOR word_rotr 13 a XOR word_rotr 22 a;
          maj = (a AND b) XOR (a AND c) XOR (b AND c)
      in (t1 + S0 + maj, a, b, c, d + t1, e, f, g))"

text \<open>The message schedule, kept newest first: \<open>n\<close> more words are added.\<close>

fun sha_schedule :: "nat \<Rightarrow> u32 list \<Rightarrow> u32 list" where
  "sha_schedule 0 ws = ws"
| "sha_schedule (Suc n) ws =
     sha_schedule n ((sha_s1 (ws ! 1) + ws ! 6 + sha_s0 (ws ! 14) + ws ! 15) # ws)"

fun be32s :: "bytes \<Rightarrow> u32 list" where
  "be32s (a # b # c # d # r) =
     (push_bit 24 (ucast a) OR push_bit 16 (ucast b) OR push_bit 8 (ucast c) OR ucast d) # be32s r"
| "be32s _ = []"

fun sha_add :: "sha_state \<Rightarrow> sha_state \<Rightarrow> sha_state" where
  "sha_add (a, b, c, d, e, f, g, h) (a', b', c', d', e', f', g', h') =
     (a + a', b + b', c + c', d + d', e + e', f + f', g + g', h + h')"

definition sha_block :: "sha_state \<Rightarrow> bytes \<Rightarrow> sha_state" where
  "sha_block st blk =
     sha_add st (foldl sha_round st (zip sha_K (rev (sha_schedule 48 (rev (be32s blk))))))"

definition be_bytes :: "nat \<Rightarrow> nat \<Rightarrow> bytes" where
  "be_bytes n v = map (\<lambda>i. word_of_nat (v div 256 ^ (n - 1 - i) mod 256)) [0..<n]"

definition sha_pad :: "bytes \<Rightarrow> bytes" where
  "sha_pad m =
     m @ [0x80] @ replicate ((119 - length m mod 64) mod 64) 0 @ be_bytes 8 (8 * length m)"

fun sha_blocks :: "nat \<Rightarrow> sha_state \<Rightarrow> bytes \<Rightarrow> sha_state" where
  "sha_blocks 0 st m = st"
| "sha_blocks (Suc n) st m = sha_blocks n (sha_block st (take 64 m)) (drop 64 m)"

definition be32_out :: "u32 \<Rightarrow> bytes" where
  "be32_out w = [ucast (drop_bit 24 w), ucast (drop_bit 16 w), ucast (drop_bit 8 w), ucast w]"

fun sha_out :: "sha_state \<Rightarrow> bytes" where
  "sha_out (a, b, c, d, e, f, g, h) =
     be32_out a @ be32_out b @ be32_out c @ be32_out d
     @ be32_out e @ be32_out f @ be32_out g @ be32_out h"

definition sha256 :: "bytes \<Rightarrow> bytes" where
  "sha256 m = (let p = sha_pad m in sha_out (sha_blocks (length p div 64) sha_H0 p))"

definition hmac_sha256 :: "bytes \<Rightarrow> bytes \<Rightarrow> bytes" where
  "hmac_sha256 key m =
     (let k = (if length key > 64 then sha256 key else key);
          kp = k @ replicate (64 - length k) 0
      in sha256 (map (\<lambda>b. b XOR 0x5c) kp @ sha256 (map (\<lambda>b. b XOR 0x36) kp @ m)))"

section \<open>Lemmas\<close>

lemma length_sha_out [simp]: "length (sha_out st) = 32"
  by (cases st rule: sha_out.cases) (simp add: be32_out_def)

lemma length_sha256 [simp]: "length (sha256 m) = 32"
  by (simp add: sha256_def Let_def)

lemma length_hmac_sha256 [simp]: "length (hmac_sha256 k m) = 32"
  by (simp add: hmac_sha256_def Let_def)

lemma length_be_bytes [simp]: "length (be_bytes n v) = n"
  by (simp add: be_bytes_def)

lemma be_bytes_4_inject:
  assumes "v < 2 ^ 32" "w < 2 ^ 32" "be_bytes 4 v = be_bytes 4 w"
  shows "v = w"
proof -
  have e: "(word_of_nat (v div 256 ^ k mod 256) :: byte) = word_of_nat (w div 256 ^ k mod 256)"
    if "k < 4" for k
  proof -
    have "3 - k < 4" using that by simp
    then have "be_bytes 4 x ! (3 - k) = word_of_nat (x div 256 ^ k mod 256)" for x
      using that by (simp add: be_bytes_def del: upt_Suc)
    with assms(3) show ?thesis by metis
  qed
  have e': "v div 256 ^ k mod 256 = w div 256 ^ k mod 256" if "k < 4" for k
    using arg_cong [OF e [OF that], of unat] by (simp add: unat_of_nat take_bit_eq_mod)
  have step: "x = y" if "x div 256 = y div 256" "x mod 256 = y mod 256" for x y :: nat
    using that by (metis div_mult_mod_eq)
  have top: "x div 16777216 mod 256 = x div 65536 div 256" if "x < 2 ^ 32" for x :: nat
  proof -
    have "x div 16777216 < 256" using that by (intro less_mult_imp_div_less) simp
    moreover have "x div 16777216 = x div 65536 div 256"
      using div_mult2_eq [of x 65536 256] by simp
    ultimately show ?thesis by simp
  qed
  have "v div 65536 div 256 = w div 65536 div 256"
    using e' [of 3] top [OF assms(1)] top [OF assms(2)] by simp
  then have "v div 65536 = w div 65536" by (rule step) (use e' [of 2] in simp)
  then have "v div 256 div 256 = w div 256 div 256"
    using div_mult2_eq [of v 256 256] div_mult2_eq [of w 256 256] by simp
  then have "v div 256 = w div 256" by (rule step) (use e' [of 1] in simp)
  then show ?thesis by (rule step) (use e' [of 0] in simp)
qed

end
