(* ===== verification/Auth.thy ===== *)
theory Auth
  imports GoBase64 GoSha256 Config
begin

text \<open>
  The interactive peer authenticator of \<^verbatim>\<open>internal/auth/auth.go\<close>: its state machine, the
  three-message handshake, the transcript and the key schedule.

  The PAKE primitives are third-party code (cloudflare/circl, \<^verbatim>\<open>golang.org/x/crypto\<close>) and are
  the fields of a \<open>crypto\<close> record that every operation takes: the Ristretto255 group (elements
  \<open>'e\<close>, scalars \<open>'s\<close>), X25519, Argon2id, HKDF-Expand and the randomness source (\<open>'r\<close>, an
  \<open>io.Reader\<close>).  SHA-256, HMAC and base64 are modelled.  A method that mutates the receiver
  returns the new receiver beside its results.
\<close>

section \<open>Definitions\<close>

definition SchemeCPACEV2 :: string where
  "SchemeCPACEV2 = ''rtc2tcp-auth/cpace-ristretto255-v2''"

definition SchemeTransitionalV2 :: string where
  "SchemeTransitionalV2 = ''rtc2tcp-auth/interactive-ecdh-v2a''"

definition cpaceGeneratorDST :: string where
  "cpaceGeneratorDST = ''rtc2tcp-auth/cpace-gen/v2''"

definition scalarLen :: nat where [simp]: "scalarLen = 32"
definition pointLen :: nat where [simp]: "pointLen = 32"
definition macLen :: nat where [simp]: "macLen = 32"

definition ErrPeerAuthFailed :: gerror where
  "ErrPeerAuthFailed = Sentinel ''auth.ErrPeerAuthFailed''"
definition ErrAuthStateOutOfOrder :: gerror where
  "ErrAuthStateOutOfOrder = Sentinel ''auth.ErrAuthStateOutOfOrder''"
definition ErrAuthSchemeMismatch :: gerror where
  "ErrAuthSchemeMismatch = Sentinel ''auth.ErrAuthSchemeMismatch''"
definition ErrAuthRoleMismatch :: gerror where
  "ErrAuthRoleMismatch = Sentinel ''auth.ErrAuthRoleMismatch''"
definition ErrAuthInvalidShare :: gerror where
  "ErrAuthInvalidShare = Sentinel ''auth.ErrAuthInvalidShare''"
definition ErrAuthConfirmationMismatch :: gerror where
  "ErrAuthConfirmationMismatch = Sentinel ''auth.ErrAuthConfirmationMismatch''"
definition ErrAuthUnbound :: gerror where
  "ErrAuthUnbound = Sentinel ''auth.ErrAuthUnbound''"
definition ErrAuthUnexpectedKind :: gerror where
  "ErrAuthUnexpectedKind = Sentinel ''auth.ErrAuthUnexpectedKind''"
definition ErrAuthNotComplete :: gerror where
  "ErrAuthNotComplete = Sentinel ''auth.ErrAuthNotComplete''"
definition ErrAuthUnsupportedScheme :: gerror where
  "ErrAuthUnsupportedScheme = Sentinel ''auth.ErrAuthUnsupportedScheme''"

record SessionBindingMaterial =
  bm_SessionID :: string
  bm_Mode :: PeerMode
  bm_LocalFingerprint :: string
  bm_RemoteFingerprint :: string

definition MessageKindHello :: string where [simp]: "MessageKindHello = ''hello''"
definition MessageKindAccept :: string where [simp]: "MessageKindAccept = ''accept''"
definition MessageKindConfirm :: string where [simp]: "MessageKindConfirm = ''confirm''"

record auth_message =
  am_Scheme :: string
  am_Kind :: string
  am_InitiatorRole :: string
  am_ResponderRole :: string
  am_Share :: string
  am_Confirmation :: string

definition emptyMessage :: auth_message where
  "emptyMessage = \<lparr>am_Scheme = [], am_Kind = [], am_InitiatorRole = [], am_ResponderRole = [],
                   am_Share = [], am_Confirmation = []\<rparr>"

datatype AuthState =
    AuthStateInit
  | AuthStateSentHello
  | AuthStateSentAccept
  | AuthStateSentConfirm
  | AuthStateSucceeded
  | AuthStateFailed

record ('s, 'e, 'r) crypto =
  cr_HashToElement :: "bytes \<Rightarrow> bytes \<Rightarrow> 'e"
  cr_IsIdentity :: "'e \<Rightarrow> bool"
  cr_Mul :: "'e \<Rightarrow> 's \<Rightarrow> 'e"
  cr_Marshal :: "'e \<Rightarrow> bytes res"
  cr_Unmarshal :: "bytes \<Rightarrow> 'e res"
  cr_RandomNonZeroScalar :: "'r \<Rightarrow> 's \<times> 'r"
  cr_X25519 :: "bytes \<Rightarrow> bytes \<Rightarrow> bytes res"
  cr_Basepoint :: bytes
  cr_Argon2IDKey :: "bytes \<Rightarrow> bytes \<Rightarrow> nat \<Rightarrow> nat \<Rightarrow> nat \<Rightarrow> nat \<Rightarrow> bytes"
  cr_HKDFExpandRead :: "bytes \<Rightarrow> bytes \<Rightarrow> nat \<Rightarrow> bytes"
  cr_ReadFull :: "'r \<Rightarrow> nat \<Rightarrow> bytes \<times> gerror option \<times> 'r"
  cr_RandReader :: 'r

record ('s, 'e, 'r) authenticator =
  au_pairingSecret :: bytes
  au_scheme :: string
  au_state :: AuthState
  au_rng :: 'r
  au_bound :: bool
  au_initiator :: bool
  au_material :: SessionBindingMaterial
  au_priv :: bytes
  au_pub :: bytes
  au_cpaceScalar :: "'s option"
  au_cpaceGenerator :: "'e option"
  au_cpaceLocal :: "'e option"
  au_cpaceShare :: bytes
  au_peerShare :: bytes
  au_havePeerShare :: bool
  au_transcript :: bytes
  au_sessionKey :: bytes
  au_initiatorConfirm :: bytes
  au_responderConfirm :: bytes

text \<open>The results of \<open>Step\<close>: the receiver, \<open>outbound\<close>, \<open>hasOutbound\<close>, \<open>done\<close> and \<open>err\<close>.\<close>

type_synonym ('s, 'e, 'r) step_result =
  "('s, 'e, 'r) authenticator \<times> auth_message \<times> bool \<times> bool \<times> gerror option"

subsection \<open>Construction\<close>

definition newInteractiveAuthenticator ::
  "('s, 'e, 'r) crypto \<Rightarrow> string \<Rightarrow> string \<Rightarrow> 'r option \<Rightarrow> ('s, 'e, 'r) authenticator res" where
  "newInteractiveAuthenticator C pairingSecret scheme rng =
     (let trimmed = TrimSpace pairingSecret in
      if trimmed = [] then Inl (errors_New ''pairing secret is required'')
      else if scheme \<noteq> SchemeCPACEV2 \<and> scheme \<noteq> SchemeTransitionalV2 then
        Inl (Errorf ''%w: %q'' [scheme] [ErrAuthUnsupportedScheme])
      else Inr \<lparr>au_pairingSecret = bytes_of trimmed, au_scheme = scheme, au_state = AuthStateInit,
                au_rng = (case rng of None \<Rightarrow> cr_RandReader C | Some r \<Rightarrow> r),
                au_bound = False, au_initiator = False,
                au_material = \<lparr>bm_SessionID = [], bm_Mode = [], bm_LocalFingerprint = [],
                               bm_RemoteFingerprint = []\<rparr>,
                au_priv = replicate scalarLen 0, au_pub = replicate pointLen 0,
                au_cpaceScalar = None, au_cpaceGenerator = None, au_cpaceLocal = None,
                au_cpaceShare = replicate pointLen 0, au_peerShare = replicate pointLen 0,
                au_havePeerShare = False, au_transcript = [], au_sessionKey = [],
                au_initiatorConfirm = [], au_responderConfirm = []\<rparr>)"

definition NewInteractiveAuthenticatorWithScheme ::
  "('s, 'e, 'r) crypto \<Rightarrow> string \<Rightarrow> string \<Rightarrow> ('s, 'e, 'r) authenticator res" where
  "NewInteractiveAuthenticatorWithScheme C pairingSecret scheme =
     newInteractiveAuthenticator C pairingSecret scheme (Some (cr_RandReader C))"

definition NewInteractiveAuthenticator ::
  "('s, 'e, 'r) crypto \<Rightarrow> string \<Rightarrow> ('s, 'e, 'r) authenticator res" where
  "NewInteractiveAuthenticator C pairingSecret =
     NewInteractiveAuthenticatorWithScheme C pairingSecret SchemeCPACEV2"

subsection \<open>Encodings and the key schedule\<close>

definition writeLenPrefixed :: "bytes \<Rightarrow> bytes" where
  "writeLenPrefixed b = be_bytes 4 (length b mod 2 ^ 32) @ b"

definition transcriptInput ::
  "string \<Rightarrow> string \<Rightarrow> string \<Rightarrow> string \<Rightarrow> string \<Rightarrow> string \<Rightarrow> bytes \<Rightarrow> bytes \<Rightarrow> bytes" where
  "transcriptInput scheme sessionID initiatorRole responderRole initiatorFingerprint
       responderFingerprint initiatorShare responderShare =
     writeLenPrefixed (bytes_of ''rtc2tcp-auth/transcript/v2'')
     @ writeLenPrefixed (bytes_of scheme)
     @ writeLenPrefixed (bytes_of sessionID)
     @ writeLenPrefixed (bytes_of initiatorRole)
     @ writeLenPrefixed (bytes_of responderRole)
     @ writeLenPrefixed (bytes_of initiatorFingerprint)
     @ writeLenPrefixed (bytes_of responderFingerprint)
     @ writeLenPrefixed initiatorShare
     @ writeLenPrefixed responderShare"

definition buildTranscript ::
  "string \<Rightarrow> string \<Rightarrow> string \<Rightarrow> string \<Rightarrow> string \<Rightarrow> string \<Rightarrow> bytes \<Rightarrow> bytes \<Rightarrow> bytes" where
  "buildTranscript scheme sessionID initiatorRole responderRole initiatorFingerprint
       responderFingerprint initiatorShare responderShare =
     sha256 (transcriptInput scheme sessionID initiatorRole responderRole initiatorFingerprint
       responderFingerprint initiatorShare responderShare)"

definition pairingSalt :: "string \<Rightarrow> bytes" where
  "pairingSalt sessionID = sha256 (bytes_of ''rtc2tcp/m2/pairing-salt/v1'' @ bytes_of sessionID)"

definition hkdfExtract :: "bytes \<Rightarrow> bytes \<Rightarrow> bytes" where
  "hkdfExtract salt ikm = hmac_sha256 salt ikm"

definition hkdfExpand :: "('s, 'e, 'r) crypto \<Rightarrow> bytes \<Rightarrow> bytes \<Rightarrow> nat \<Rightarrow> bytes" where
  "hkdfExpand C prk info n = take n (cr_HKDFExpandRead C prk info n @ replicate n 0)"

definition macTranscript :: "bytes \<Rightarrow> bytes \<Rightarrow> bytes" where
  "macTranscript key transcript = hmac_sha256 key transcript"

definition canonicalFingerprint :: "unicode \<Rightarrow> string \<Rightarrow> string" where
  "canonicalFingerprint U value = ToUpper U (TrimSpace value)"

definition ConstantTimeCompare :: "bytes \<Rightarrow> bytes \<Rightarrow> bool" where
  "ConstantTimeCompare x y \<longleftrightarrow> x = y"

definition validateMaterial :: "SessionBindingMaterial \<Rightarrow> gerror option" where
  "validateMaterial m =
     (if TrimSpace (bm_SessionID m) = [] then Some (errors_New ''session ID is required'')
      else if TrimSpace (bm_LocalFingerprint m) = [] then Some (errors_New ''local fingerprint is required'')
      else if TrimSpace (bm_RemoteFingerprint m) = [] then Some (errors_New ''remote fingerprint is required'')
      else if bm_Mode m = ModeConnect \<or> bm_Mode m = ModeExpose then None
      else Some (Errorf ''unsupported mode %q'' [bm_Mode m] []))"

subsection \<open>Binding\<close>

definition orderedFingerprints :: "('s, 'e, 'r) authenticator \<Rightarrow> string \<times> string" where
  "orderedFingerprints a =
     (if au_initiator a then (bm_LocalFingerprint (au_material a), bm_RemoteFingerprint (au_material a))
      else (bm_RemoteFingerprint (au_material a), bm_LocalFingerprint (au_material a)))"

definition setupECDH ::
  "('s, 'e, 'r) crypto \<Rightarrow> ('s, 'e, 'r) authenticator \<Rightarrow> ('s, 'e, 'r) authenticator \<times> gerror option" where
  "setupECDH C a =
     (case cr_ReadFull C (au_rng a) scalarLen of
        (bs, err, rng') \<Rightarrow>
          (let a1 = a\<lparr>au_priv := take scalarLen (bs @ drop (length bs) (au_priv a)), au_rng := rng'\<rparr> in
           case err of
             Some e \<Rightarrow> (a1, Some (Errorf ''generate ephemeral key: %w'' [] [e]))
           | None \<Rightarrow>
               (case cr_X25519 C (au_priv a1) (cr_Basepoint C) of
                  Inl e \<Rightarrow> (a1, Some (Errorf ''derive public share: %w'' [] [e]))
                | Inr pub \<Rightarrow>
                    if length pub \<noteq> pointLen then
                      (a1, Some (Errorf ''unexpected share length %d'' [FormatNat (length pub)] []))
                    else (a1\<lparr>au_pub := pub\<rparr>, None))))"

definition cpaceGeneratorInput :: "('s, 'e, 'r) authenticator \<Rightarrow> bytes" where
  "cpaceGeneratorInput a =
     (case orderedFingerprints a of (initiatorFP, responderFP) \<Rightarrow>
        writeLenPrefixed (au_pairingSecret a)
        @ writeLenPrefixed (bytes_of (bm_SessionID (au_material a)))
        @ writeLenPrefixed (bytes_of initiatorFP)
        @ writeLenPrefixed (bytes_of responderFP))"

definition setupCPACE ::
  "('s, 'e, 'r) crypto \<Rightarrow> ('s, 'e, 'r) authenticator \<Rightarrow> ('s, 'e, 'r) authenticator \<times> gerror option" where
  "setupCPACE C a =
     (let g = cr_HashToElement C (cpaceGeneratorInput a) (bytes_of cpaceGeneratorDST);
          a1 = a\<lparr>au_cpaceGenerator := Some g\<rparr> in
      if cr_IsIdentity C g then (a1, Some (errors_New ''cpace generator is identity''))
      else
        (case cr_RandomNonZeroScalar C (au_rng a1) of (x, rng') \<Rightarrow>
           (let l = cr_Mul C g x;
                a2 = a1\<lparr>au_cpaceScalar := Some x, au_rng := rng', au_cpaceLocal := Some l\<rparr> in
            if cr_IsIdentity C l then (a2, Some (errors_New ''cpace local share is identity''))
            else
              (case cr_Marshal C l of
                 Inl e \<Rightarrow> (a2, Some (Errorf ''marshal cpace share: %w'' [] [e]))
               | Inr shareBytes \<Rightarrow>
                   if length shareBytes \<noteq> pointLen then
                     (a2, Some (Errorf ''unexpected cpace share length %d'' [FormatNat (length shareBytes)] []))
                   else (a2\<lparr>au_cpaceShare := shareBytes\<rparr>, None)))))"

definition Bind ::
  "('s, 'e, 'r) crypto \<Rightarrow> unicode \<Rightarrow> ('s, 'e, 'r) authenticator \<Rightarrow> SessionBindingMaterial
    \<Rightarrow> ('s, 'e, 'r) authenticator \<times> gerror option" where
  "Bind C U a material =
     (if au_state a \<noteq> AuthStateInit then (a, Some ErrAuthStateOutOfOrder)
      else (case validateMaterial material of
        Some err \<Rightarrow> (a, Some err)
      | None \<Rightarrow>
          (let a1 = a\<lparr>au_material := \<lparr>bm_SessionID = TrimSpace (bm_SessionID material),
                          bm_Mode = bm_Mode material,
                          bm_LocalFingerprint = canonicalFingerprint U (bm_LocalFingerprint material),
                          bm_RemoteFingerprint = canonicalFingerprint U (bm_RemoteFingerprint material)\<rparr>,
                      au_initiator := (bm_Mode material = ModeConnect)\<rparr>;
               r = (if au_scheme a1 = SchemeCPACEV2 then setupCPACE C a1
                    else if au_scheme a1 = SchemeTransitionalV2 then setupECDH C a1
                    else (a1, Some (Errorf ''%w: %q'' [au_scheme a1] [ErrAuthUnsupportedScheme]))) in
           (case r of
              (a2, Some err) \<Rightarrow> (a2, Some err)
            | (a2, None) \<Rightarrow> (a2\<lparr>au_bound := True\<rparr>, None)))))"

definition localShareBytes :: "('s, 'e, 'r) authenticator \<Rightarrow> bytes" where
  "localShareBytes a = (if au_scheme a = SchemeCPACEV2 then au_cpaceShare a else au_pub a)"

subsection \<open>The handshake\<close>

definition auth_fail :: "('s, 'e, 'r) authenticator \<Rightarrow> ('s, 'e, 'r) authenticator" where
  "auth_fail a = a\<lparr>au_state := AuthStateFailed\<rparr>"

definition Start ::
  "('s, 'e, 'r) authenticator \<Rightarrow> ('s, 'e, 'r) authenticator \<times> auth_message res" where
  "Start a =
     (if \<not> au_bound a then (a, Inl ErrAuthUnbound)
      else if \<not> au_initiator a then (a, Inl ErrAuthStateOutOfOrder)
      else if au_state a \<noteq> AuthStateInit then (a, Inl ErrAuthStateOutOfOrder)
      else (a\<lparr>au_state := AuthStateSentHello\<rparr>,
            Inr \<lparr>am_Scheme = au_scheme a, am_Kind = MessageKindHello,
                 am_InitiatorRole = ModeConnect, am_ResponderRole = ModeExpose,
                 am_Share = EncodeToString (localShareBytes a), am_Confirmation = []\<rparr>))"

definition consumePeerShare ::
  "('s, 'e, 'r) authenticator \<Rightarrow> string \<Rightarrow> ('s, 'e, 'r) authenticator \<times> gerror option" where
  "consumePeerShare a encoded =
     (case DecodeString (TrimSpace encoded) of
        None \<Rightarrow> (a, Some ErrAuthInvalidShare)
      | Some raw \<Rightarrow>
          if length raw \<noteq> pointLen then (a, Some ErrAuthInvalidShare)
          else if ConstantTimeCompare raw (replicate pointLen 0) then (a, Some ErrAuthInvalidShare)
          else (a\<lparr>au_peerShare := raw, au_havePeerShare := True\<rparr>, None))"

text \<open>A nil scalar would make the group library panic; a bound authenticator always has one.\<close>

definition derivePakeSharedCPACE :: "('s, 'e, 'r) crypto \<Rightarrow> ('s, 'e, 'r) authenticator \<Rightarrow> bytes res" where
  "derivePakeSharedCPACE C a =
     (case cr_Unmarshal C (au_peerShare a) of
        Inl e \<Rightarrow> Inl ErrAuthInvalidShare
      | Inr peerElement \<Rightarrow>
          if cr_IsIdentity C peerElement then Inl ErrAuthInvalidShare
          else (case au_cpaceScalar a of
             None \<Rightarrow> Inl (errors_New ''panic: nil scalar'')
           | Some x \<Rightarrow>
               (let result = cr_Mul C peerElement x in
                if cr_IsIdentity C result then Inl ErrAuthInvalidShare
                else (case cr_Marshal C result of
                   Inl e \<Rightarrow> Inl (Errorf ''marshal cpace shared: %w'' [] [e])
                 | Inr out \<Rightarrow> Inr out))))"

definition derivePakeSharedECDH :: "('s, 'e, 'r) crypto \<Rightarrow> ('s, 'e, 'r) authenticator \<Rightarrow> bytes res" where
  "derivePakeSharedECDH C a =
     (case cr_X25519 C (au_priv a) (au_peerShare a) of
        Inl e \<Rightarrow> Inl ErrAuthInvalidShare
      | Inr shared \<Rightarrow>
          if ConstantTimeCompare shared (replicate pointLen 0) then Inl ErrAuthInvalidShare
          else Inr shared)"

definition derivePakeShared :: "('s, 'e, 'r) crypto \<Rightarrow> ('s, 'e, 'r) authenticator \<Rightarrow> bytes res" where
  "derivePakeShared C a =
     (if au_scheme a = SchemeCPACEV2 then derivePakeSharedCPACE C a
      else if au_scheme a = SchemeTransitionalV2 then derivePakeSharedECDH C a
      else Inl (Errorf ''%w: %q'' [au_scheme a] [ErrAuthUnsupportedScheme]))"

definition computeTranscriptAndKeys ::
  "('s, 'e, 'r) crypto \<Rightarrow> ('s, 'e, 'r) authenticator \<Rightarrow> ('s, 'e, 'r) authenticator \<times> gerror option" where
  "computeTranscriptAndKeys C a =
     (if \<not> au_havePeerShare a then (a, Some ErrAuthInvalidShare)
      else (case derivePakeShared C a of
        Inl err \<Rightarrow> (a, Some err)
      | Inr pakeShared \<Rightarrow>
          (let localShare = localShareBytes a;
               initiatorShare = (if au_initiator a then localShare else au_peerShare a);
               responderShare = (if au_initiator a then au_peerShare a else localShare);
               initiatorFingerprint = (if au_initiator a then bm_LocalFingerprint (au_material a)
                                       else bm_RemoteFingerprint (au_material a));
               responderFingerprint = (if au_initiator a then bm_RemoteFingerprint (au_material a)
                                       else bm_LocalFingerprint (au_material a));
               transcript = buildTranscript (au_scheme a) (bm_SessionID (au_material a))
                              ModeConnect ModeExpose initiatorFingerprint responderFingerprint
                              initiatorShare responderShare;
               pairingMix = cr_Argon2IDKey C (au_pairingSecret a)
                              (pairingSalt (bm_SessionID (au_material a))) 1 (8 * 1024) 1 32;
               ikm = pakeShared @ pairingMix;
               prk = hkdfExtract transcript ikm;
               kInit = hkdfExpand C prk (bytes_of ''rtc2tcp/m2/confirm-key/initiator/v1'') 32;
               kResp = hkdfExpand C prk (bytes_of ''rtc2tcp/m2/confirm-key/responder/v1'') 32 in
           (a\<lparr>au_transcript := transcript,
              au_sessionKey := hkdfExpand C prk (bytes_of ''rtc2tcp/m2/session-key/v1'') 32,
              au_initiatorConfirm := macTranscript kInit transcript,
              au_responderConfirm := macTranscript kResp transcript\<rparr>, None))))"

definition verifyConfirmation :: "string \<Rightarrow> bytes \<Rightarrow> gerror option" where
  "verifyConfirmation encoded expected =
     (let mismatch = Some (Errorf ''%w: %w'' [] [ErrPeerAuthFailed, ErrAuthConfirmationMismatch]) in
      case DecodeString (TrimSpace encoded) of
        None \<Rightarrow> mismatch
      | Some raw \<Rightarrow>
          if length raw \<noteq> macLen then mismatch
          else if \<not> ConstantTimeCompare raw expected then mismatch else None)"

definition verifyResponderConfirm :: "('s, 'e, 'r) authenticator \<Rightarrow> string \<Rightarrow> gerror option" where
  "verifyResponderConfirm a encoded = verifyConfirmation encoded (au_responderConfirm a)"

definition verifyInitiatorConfirm :: "('s, 'e, 'r) authenticator \<Rightarrow> string \<Rightarrow> gerror option" where
  "verifyInitiatorConfirm a encoded = verifyConfirmation encoded (au_initiatorConfirm a)"

text \<open>The early returns of the step functions: fail, and report the error.\<close>

definition stepFailed :: "('s, 'e, 'r) authenticator \<Rightarrow> gerror \<Rightarrow> ('s, 'e, 'r) step_result" where
  "stepFailed a err = (auth_fail a, emptyMessage, False, False, Some err)"

definition stepResponder ::
  "('s, 'e, 'r) crypto \<Rightarrow> ('s, 'e, 'r) authenticator \<Rightarrow> auth_message \<Rightarrow> ('s, 'e, 'r) step_result" where
  "stepResponder C a inbound =
     (case au_state a of
        AuthStateInit \<Rightarrow>
          if am_Kind inbound \<noteq> MessageKindHello then
            stepFailed a (Errorf ''%w: expected hello, got %q'' [am_Kind inbound] [ErrAuthUnexpectedKind])
          else if am_InitiatorRole inbound \<noteq> ModeConnect \<or> am_ResponderRole inbound \<noteq> ModeExpose then
            stepFailed a ErrAuthRoleMismatch
          else (case consumePeerShare a (am_Share inbound) of
             (a1, Some err) \<Rightarrow> stepFailed a1 err
           | (a1, None) \<Rightarrow>
               (case computeTranscriptAndKeys C a1 of
                  (a2, Some err) \<Rightarrow> stepFailed a2 err
                | (a2, None) \<Rightarrow>
                    (a2\<lparr>au_state := AuthStateSentAccept\<rparr>,
                     \<lparr>am_Scheme = au_scheme a2, am_Kind = MessageKindAccept,
                      am_InitiatorRole = [], am_ResponderRole = [],
                      am_Share = EncodeToString (localShareBytes a2),
                      am_Confirmation = EncodeToString (au_responderConfirm a2)\<rparr>, True, False, None)))
      | AuthStateSentAccept \<Rightarrow>
          if am_Kind inbound \<noteq> MessageKindConfirm then
            stepFailed a (Errorf ''%w: expected confirm, got %q'' [am_Kind inbound] [ErrAuthUnexpectedKind])
          else (case verifyInitiatorConfirm a (am_Confirmation inbound) of
             Some err \<Rightarrow> stepFailed a err
           | None \<Rightarrow> (a\<lparr>au_state := AuthStateSucceeded\<rparr>, emptyMessage, False, True, None))
      | _ \<Rightarrow> stepFailed a ErrAuthStateOutOfOrder)"

definition stepInitiator ::
  "('s, 'e, 'r) crypto \<Rightarrow> ('s, 'e, 'r) authenticator \<Rightarrow> auth_message \<Rightarrow> ('s, 'e, 'r) step_result" where
  "stepInitiator C a inbound =
     (if au_state a \<noteq> AuthStateSentHello then stepFailed a ErrAuthStateOutOfOrder
      else if am_Kind inbound \<noteq> MessageKindAccept then
        stepFailed a (Errorf ''%w: expected accept, got %q'' [am_Kind inbound] [ErrAuthUnexpectedKind])
      else (case consumePeerShare a (am_Share inbound) of
         (a1, Some err) \<Rightarrow> stepFailed a1 err
       | (a1, None) \<Rightarrow>
           (case computeTranscriptAndKeys C a1 of
              (a2, Some err) \<Rightarrow> stepFailed a2 err
            | (a2, None) \<Rightarrow>
                (case verifyResponderConfirm a2 (am_Confirmation inbound) of
                   Some err \<Rightarrow> stepFailed a2 err
                 | None \<Rightarrow>
                     (a2\<lparr>au_state := AuthStateSucceeded\<rparr>,
                      \<lparr>am_Scheme = au_scheme a2, am_Kind = MessageKindConfirm,
                       am_InitiatorRole = [], am_ResponderRole = [], am_Share = [],
                       am_Confirmation = EncodeToString (au_initiatorConfirm a2)\<rparr>, True, True, None)))))"

definition Step ::
  "('s, 'e, 'r) crypto \<Rightarrow> ('s, 'e, 'r) authenticator \<Rightarrow> auth_message \<Rightarrow> ('s, 'e, 'r) step_result" where
  "Step C a inbound =
     (if \<not> au_bound a then (a, emptyMessage, False, False, Some ErrAuthUnbound)
      else if au_state a = AuthStateSucceeded \<or> au_state a = AuthStateFailed then
        (a, emptyMessage, False, False, Some ErrAuthStateOutOfOrder)
      else if am_Scheme inbound \<noteq> au_scheme a then
        stepFailed a (Errorf ''%w: got %q want %q'' [am_Scheme inbound, au_scheme a] [ErrAuthSchemeMismatch])
      else if au_initiator a then stepInitiator C a inbound
      else stepResponder C a inbound)"

definition SessionKey :: "('s, 'e, 'r) authenticator \<Rightarrow> bytes res" where
  "SessionKey a =
     (if au_state a \<noteq> AuthStateSucceeded then Inl ErrAuthNotComplete else Inr (au_sessionKey a))"

end
