(* ===== verification/AuthProofs.thy ===== *)
theory AuthProofs
  imports Auth
begin

text \<open>
  Correctness of the authenticator: the transcript encoding is injective, the code computes the
  key schedule of \<^verbatim>\<open>PROTOCOL.md\<close>, an honest handshake completes on both sides with one session
  key, a peer succeeds only on the confirmation tag of its own transcript, and the handshake
  state machine follows the protocol diagram, fails closed and is single-use.
\<close>

section \<open>Specifications\<close>

text \<open>The key schedule of \<^verbatim>\<open>PROTOCOL.md\<close>, section "Key Derivation".\<close>

record key_block =
  kb_transcript :: bytes
  kb_sessionKey :: bytes
  kb_initiatorConfirm :: bytes
  kb_responderConfirm :: bytes

text \<open>
  Section "Transcript": \<open>lp\<close> is a 4-byte big-endian length (of fields below 4 GiB) and the field.
  The schedule is written from the document; SHA-256, HMAC (which is HKDF-Extract), Argon2id and
  the reader of HKDF-Expand are the primitives it names.
\<close>

definition lp :: "bytes \<Rightarrow> bytes" where
  "lp x = word_of_nat (length x div 2 ^ 24) # word_of_nat (length x div 2 ^ 16)
          # word_of_nat (length x div 2 ^ 8) # word_of_nat (length x) # x"

definition protocolTranscript :: "string \<Rightarrow> string \<Rightarrow> string \<Rightarrow> string \<Rightarrow> bytes \<Rightarrow> bytes \<Rightarrow> bytes" where
  "protocolTranscript scheme session_id initiator_fingerprint responder_fingerprint initiator_share responder_share =
     sha256 (concat (map lp
       [bytes_of ''rtc2tcp-auth/transcript/v2'', bytes_of scheme, bytes_of session_id,
        bytes_of ''connect'', bytes_of ''expose'',
        bytes_of initiator_fingerprint, bytes_of responder_fingerprint, initiator_share, responder_share]))"

text \<open>The 32 bytes a key takes from the HKDF reader; bytes a short read would leave out are zero.\<close>

definition key32 :: "('s, 'e, 'r) crypto \<Rightarrow> bytes \<Rightarrow> string \<Rightarrow> bytes" where
  "key32 C prk info = take 32 (cr_HKDFExpandRead C prk (bytes_of info) 32 @ replicate 32 0)"

definition protocolKeys ::
  "('s, 'e, 'r) crypto \<Rightarrow> bytes \<Rightarrow> string \<Rightarrow> string \<Rightarrow> string \<Rightarrow> string \<Rightarrow> bytes \<Rightarrow> bytes \<Rightarrow> bytes \<Rightarrow> key_block" where
  "protocolKeys C pairing_secret scheme session_id initiator_fingerprint responder_fingerprint
       initiator_share responder_share pake_shared =
     (let transcript = protocolTranscript scheme session_id initiator_fingerprint responder_fingerprint
                         initiator_share responder_share;
          pairing_salt = sha256 (bytes_of ''rtc2tcp/m2/pairing-salt/v1'' @ bytes_of session_id);
          pairing_mix = cr_Argon2IDKey C pairing_secret pairing_salt 1 8192 1 32;
          ikm = pake_shared @ pairing_mix;
          prk = hmac_sha256 transcript ikm in
      \<lparr>kb_transcript = transcript,
       kb_sessionKey = key32 C prk ''rtc2tcp/m2/session-key/v1'',
       kb_initiatorConfirm = hmac_sha256 (key32 C prk ''rtc2tcp/m2/confirm-key/initiator/v1'') transcript,
       kb_responderConfirm = hmac_sha256 (key32 C prk ''rtc2tcp/m2/confirm-key/responder/v1'') transcript\<rparr>)"

text \<open>
  The shared secret of the document: \<open>X25519(local_private, remote_public)\<close>, not the zero point, or
  \<open>MarshalBinary(local_scalar * peer_share)\<close>.
\<close>

definition protocolShared :: "('s, 'e, 'r) crypto \<Rightarrow> ('s, 'e, 'r) authenticator \<Rightarrow> bytes \<Rightarrow> bytes \<Rightarrow> bool" where
  "protocolShared C a share pake_shared \<longleftrightarrow>
     au_scheme a = ''rtc2tcp-auth/interactive-ecdh-v2a''
       \<and> cr_X25519 C (au_priv a) share = Inr pake_shared \<and> pake_shared \<noteq> replicate 32 0
   \<or> au_scheme a = ''rtc2tcp-auth/cpace-ristretto255-v2''
       \<and> (\<exists>peer x. cr_Unmarshal C share = Inr peer \<and> \<not> cr_IsIdentity C peer \<and> au_cpaceScalar a = Some x
            \<and> \<not> cr_IsIdentity C (cr_Mul C peer x) \<and> cr_Marshal C (cr_Mul C peer x) = Inr pake_shared)"

text \<open>The same key schedule with the arguments one peer has, given the share it received.\<close>

definition peerKeys ::
  "('s, 'e, 'r) crypto \<Rightarrow> ('s, 'e, 'r) authenticator \<Rightarrow> bytes \<Rightarrow> bytes \<Rightarrow> key_block" where
  "peerKeys C a share pake =
     protocolKeys C (au_pairingSecret a) (au_scheme a) (bm_SessionID (au_material a))
       (fst (orderedFingerprints a)) (snd (orderedFingerprints a))
       (if au_initiator a then localShareBytes a else share)
       (if au_initiator a then share else localShareBytes a) pake"

definition withKeys :: "('s, 'e, 'r) authenticator \<Rightarrow> key_block \<Rightarrow> ('s, 'e, 'r) authenticator" where
  "withKeys a kb = a\<lparr>au_transcript := kb_transcript kb, au_sessionKey := kb_sessionKey kb,
     au_initiatorConfirm := kb_initiatorConfirm kb, au_responderConfirm := kb_responderConfirm kb\<rparr>"

text \<open>
  What the handshake relies on in the two primitives.  Ristretto255 is a group of prime order:
  scalar multiplications commute, no product of a non-identity element with one of the scalars in
  use is the identity, encoding always succeeds and decodes back, and only the identity encodes to
  zeros.  X25519 on base-point shares is a Diffie-Hellman exchange with a non-zero result.
\<close>

definition cpace_laws :: "('s, 'e, 'r) crypto \<Rightarrow> bool" where
  "cpace_laws C \<longleftrightarrow>
     (\<forall>e. \<exists>b. cr_Marshal C e = Inr b)
   \<and> (\<forall>e b. cr_Marshal C e = Inr b \<longrightarrow> cr_Unmarshal C b = Inr e)
   \<and> (\<forall>e. cr_Marshal C e = Inr (replicate 32 0) \<longrightarrow> cr_IsIdentity C e)
   \<and> (\<forall>g x y. cr_Mul C (cr_Mul C g x) y = cr_Mul C (cr_Mul C g y) x)
   \<and> (\<forall>g x y. \<not> cr_IsIdentity C (cr_Mul C g x) \<longrightarrow> \<not> cr_IsIdentity C (cr_Mul C g y)
                \<longrightarrow> \<not> cr_IsIdentity C (cr_Mul C (cr_Mul C g x) y))"

definition ecdh_laws :: "('s, 'e, 'r) crypto \<Rightarrow> bool" where
  "ecdh_laws C \<longleftrightarrow>
     (\<forall>x X. cr_X25519 C x (cr_Basepoint C) = Inr X \<longrightarrow> X \<noteq> replicate 32 0)
   \<and> (\<forall>x y X Y. cr_X25519 C x (cr_Basepoint C) = Inr X \<longrightarrow> cr_X25519 C y (cr_Basepoint C) = Inr Y \<longrightarrow>
        (\<exists>z. cr_X25519 C x Y = Inr z \<and> cr_X25519 C y X = Inr z \<and> z \<noteq> replicate 32 0))"

text \<open>
  The authenticator state diagram of \<^verbatim>\<open>PROTOCOL.md\<close>, section "Authenticator State Machine": its
  edges with what labels them, for the initiator and the responder.  The edge out of
  \<open>SENT_CONFIRM\<close> has no label there; the message sequence says "after send".
\<close>

datatype authTrigger = OnStart | OnStep string | AfterSend | OnError

inductive auth_transition :: "bool \<Rightarrow> authTrigger \<Rightarrow> AuthState \<Rightarrow> AuthState \<Rightarrow> bool" where
  init_start: "auth_transition True OnStart AuthStateInit AuthStateSentHello"
| init_accept: "auth_transition True (OnStep ''accept'') AuthStateSentHello AuthStateSentConfirm"
| init_sent: "auth_transition True AfterSend AuthStateSentConfirm AuthStateSucceeded"
| resp_hello: "auth_transition False (OnStep ''hello'') AuthStateInit AuthStateSentAccept"
| resp_confirm: "auth_transition False (OnStep ''confirm'') AuthStateSentAccept AuthStateSucceeded"
| failure: "s \<noteq> AuthStateSucceeded \<Longrightarrow> s \<noteq> AuthStateFailed \<Longrightarrow> auth_transition i OnError s AuthStateFailed"

code_pred auth_transition .

inductive_simps auth_transition_simps: "auth_transition i ev s t"

text \<open>A peer fed with a list of inbound messages: the final receiver and each call's \<open>(done, err)\<close>.\<close>

fun runSteps ::
  "('s, 'e, 'r) crypto \<Rightarrow> ('s, 'e, 'r) authenticator \<Rightarrow> auth_message list
    \<Rightarrow> ('s, 'e, 'r) authenticator \<times> (bool \<times> gerror option) list" where
  "runSteps C a [] = (a, [])"
| "runSteps C a (m # ms) =
     (case Step C a m of (a', _, _, d, e) \<Rightarrow>
        (case runSteps C a' ms of (a'', rs) \<Rightarrow> (a'', (d, e) # rs)))"

text \<open>What a successful \<open>Bind\<close> leaves behind, as the handshake needs it.\<close>

definition bound_share :: "('s, 'e, 'r) crypto \<Rightarrow> ('s, 'e, 'r) authenticator \<Rightarrow> bool" where
  "bound_share C a \<longleftrightarrow>
     (if au_scheme a = SchemeCPACEV2 then
        (\<exists>x. let l = cr_Mul C (cr_HashToElement C (cpaceGeneratorInput a) (bytes_of cpaceGeneratorDST)) x in
             au_cpaceScalar a = Some x \<and> \<not> cr_IsIdentity C l
             \<and> cr_Marshal C l = Inr (localShareBytes a) \<and> length (localShareBytes a) = 32)
      else au_scheme a = SchemeTransitionalV2
           \<and> cr_X25519 C (au_priv a) (cr_Basepoint C) = Inr (localShareBytes a)
           \<and> length (localShareBytes a) = 32)"

text \<open>The fields that identify the peer and its session; the setup functions leave them alone.\<close>

definition same_identity :: "('s, 'e, 'r) authenticator \<Rightarrow> ('s, 'e, 'r) authenticator \<Rightarrow> bool" where
  "same_identity a a' \<longleftrightarrow>
     au_state a' = au_state a \<and> au_scheme a' = au_scheme a \<and> au_pairingSecret a' = au_pairingSecret a
   \<and> au_initiator a' = au_initiator a \<and> au_material a' = au_material a"

text \<open>A concrete instance of the primitives, for the examples.\<close>

definition toyCrypto :: "(bool, bool, unit) crypto" where
  "toyCrypto = \<lparr>cr_HashToElement = (\<lambda>_ _. True), cr_IsIdentity = Not, cr_Mul = (\<and>),
     cr_Marshal = (\<lambda>e. Inr (replicate 32 (if e then 1 else 0))),
     cr_Unmarshal = (\<lambda>b. Inr (b = replicate 32 1)),
     cr_RandomNonZeroScalar = (\<lambda>r. (True, r)),
     cr_X25519 = (\<lambda>_ u. Inr u), cr_Basepoint = replicate 32 9,
     cr_Argon2IDKey = (\<lambda>_ _ _ _ _ n. replicate n 7), cr_HKDFExpandRead = (\<lambda>_ _ n. replicate n 5),
     cr_ReadFull = (\<lambda>r n. (replicate n 3, None, r)), cr_RandReader = ()\<rparr>"

definition toyAuth :: "string \<Rightarrow> (bool, bool, unit) authenticator" where
  "toyAuth scheme =
     (case newInteractiveAuthenticator toyCrypto ''secret'' scheme (Some ()) of Inr a \<Rightarrow> a | Inl _ \<Rightarrow> undefined)"

definition toyMaterial :: "string \<Rightarrow> string \<Rightarrow> string \<Rightarrow> SessionBindingMaterial" where
  "toyMaterial mode l r = \<lparr>bm_SessionID = ''s1'', bm_Mode = mode, bm_LocalFingerprint = l, bm_RemoteFingerprint = r\<rparr>"

definition toyInitiator :: "(bool, bool, unit) authenticator" where
  "toyInitiator = fst (Bind toyCrypto idUnicode (toyAuth SchemeCPACEV2) (toyMaterial ModeConnect ''FP-A'' ''FP-B''))"

definition toyResponder :: "(bool, bool, unit) authenticator" where
  "toyResponder = fst (Bind toyCrypto idUnicode (toyAuth SchemeCPACEV2) (toyMaterial ModeExpose ''FP-B'' ''FP-A''))"

section \<open>Encodings\<close>

lemma length_writeLenPrefixed [simp]: "length (writeLenPrefixed b) = 4 + length b"
  by (simp add: writeLenPrefixed_def)

lemma writeLenPrefixed_append_inject:
  assumes "length a < 2 ^ 32" "length b < 2 ^ 32"
    and "writeLenPrefixed a @ u = writeLenPrefixed b @ v"
  shows "a = b \<and> u = v"
proof -
  have "be_bytes 4 (length a) = be_bytes 4 (length b)" "a @ u = b @ v"
    using assms by (simp_all add: writeLenPrefixed_def)
  then show ?thesis
    using be_bytes_4_inject [OF assms(1,2)] by simp
qed

lemma writeLenPrefixed_inject:
  "length a < 2 ^ 32 \<Longrightarrow> length b < 2 ^ 32 \<Longrightarrow> writeLenPrefixed a = writeLenPrefixed b \<longleftrightarrow> a = b"
  using writeLenPrefixed_append_inject [of a b "[]" "[]"] by auto

lemma length_macTranscript [simp]: "length (macTranscript k t) = 32"
  by (simp add: macTranscript_def)

lemma length_hkdfExpand [simp]: "length (hkdfExpand C prk info n) = n"
  by (simp add: hkdfExpand_def)

lemma verifyConfirmation_None:
  "verifyConfirmation enc tag = None \<longleftrightarrow> DecodeString (TrimSpace enc) = Some tag \<and> length tag = 32"
  by (auto simp: verifyConfirmation_def Let_def ConstantTimeCompare_def split: option.splits if_splits)

lemma consumePeerShare_None:
  "consumePeerShare a enc = (a', None) \<longleftrightarrow>
     (\<exists>raw. DecodeString (TrimSpace enc) = Some raw \<and> length raw = 32 \<and> raw \<noteq> replicate 32 0
            \<and> a' = a\<lparr>au_peerShare := raw, au_havePeerShare := True\<rparr>)"
  by (auto simp: consumePeerShare_def ConstantTimeCompare_def split: option.splits if_splits)

text \<open>The code's encodings are those of the document.\<close>

lemma word_of_length_byte:
  "(word_of_nat (n mod 2 ^ 32 div 2 ^ k mod 256) :: byte) = word_of_nat (n div 2 ^ k)" if "k \<le> 24"
proof -
  have "take_bit 8 (n mod 2 ^ 32 div 2 ^ k mod 2 ^ 8) = take_bit 8 (n div 2 ^ k)"
    unfolding drop_bit_eq_div [symmetric] take_bit_eq_mod [symmetric]
    using that by (auto simp: bit_eq_iff bit_simps)
  then show ?thesis by (simp add: word_of_nat_eq_iff)
qed

lemma lp_eq: "lp b = writeLenPrefixed b"
  using word_of_length_byte [of 24 "length b"] word_of_length_byte [of 16 "length b"]
    word_of_length_byte [of 8 "length b"] word_of_length_byte [of 0 "length b"]
  by (simp add: lp_def writeLenPrefixed_def be_bytes_def upt_rec)

lemma protocolTranscript_eq:
  "protocolTranscript scheme sid fpI fpR shI shR = buildTranscript scheme sid ModeConnect ModeExpose fpI fpR shI shR"
  by (simp add: protocolTranscript_def buildTranscript_def transcriptInput_def lp_eq ModeConnect_def ModeExpose_def)

lemma key32_eq: "key32 C prk info = hkdfExpand C prk (bytes_of info) 32"
  by (simp add: key32_def hkdfExpand_def)

lemma length_key32 [simp]: "length (key32 C prk info) = 32"
  by (simp add: key32_eq)

lemma derivePakeShared_protocol:
  "derivePakeShared C (a\<lparr>au_peerShare := sh, au_havePeerShare := h\<rparr>) = Inr p \<longleftrightarrow> protocolShared C a sh p"
  by (auto simp: derivePakeShared_def derivePakeSharedCPACE_def derivePakeSharedECDH_def protocolShared_def
      SchemeCPACEV2_def SchemeTransitionalV2_def ConstantTimeCompare_def Let_def
      split: if_splits sum.splits option.splits)

lemma computeTranscriptAndKeys_eq:
  assumes "au_havePeerShare a" and "derivePakeShared C a = Inr pake"
  shows "computeTranscriptAndKeys C a = (withKeys a (peerKeys C a (au_peerShare a) pake), None)"
  using assms
  by (simp add: computeTranscriptAndKeys_def peerKeys_def protocolKeys_def Let_def hkdfExtract_def
      macTranscript_def orderedFingerprints_def withKeys_def protocolTranscript_eq key32_eq pairingSalt_def)

lemma computeTranscriptAndKeys_None:
  "computeTranscriptAndKeys C a = (a', None) \<Longrightarrow>
     au_havePeerShare a \<and> (\<exists>pake. derivePakeShared C a = Inr pake)"
  by (auto simp: computeTranscriptAndKeys_def Let_def split: if_splits sum.splits)

lemma kb_lengths [simp]:
  "length (kb_sessionKey (peerKeys C a s p)) = 32"
  "length (kb_initiatorConfirm (peerKeys C a s p)) = 32"
  "length (kb_responderConfirm (peerKeys C a s p)) = 32"
  by (simp_all add: peerKeys_def protocolKeys_def Let_def)

section \<open>Binding\<close>

lemma schemes_distinct [simp]: "SchemeCPACEV2 \<noteq> SchemeTransitionalV2" "SchemeTransitionalV2 \<noteq> SchemeCPACEV2"
  by (simp_all add: SchemeCPACEV2_def SchemeTransitionalV2_def)

lemma cpaceGeneratorInput_upd [simp]:
  "cpaceGeneratorInput (a\<lparr>au_cpaceGenerator := g\<rparr>) = cpaceGeneratorInput a"
  "cpaceGeneratorInput (a\<lparr>au_cpaceScalar := x\<rparr>) = cpaceGeneratorInput a"
  "cpaceGeneratorInput (a\<lparr>au_rng := r\<rparr>) = cpaceGeneratorInput a"
  "cpaceGeneratorInput (a\<lparr>au_cpaceLocal := l\<rparr>) = cpaceGeneratorInput a"
  "cpaceGeneratorInput (a\<lparr>au_cpaceShare := sh\<rparr>) = cpaceGeneratorInput a"
  "cpaceGeneratorInput (a\<lparr>au_bound := b\<rparr>) = cpaceGeneratorInput a"
  by (simp_all add: cpaceGeneratorInput_def orderedFingerprints_def)

lemma bound_share_upd [simp]: "bound_share C (a\<lparr>au_bound := b\<rparr>) = bound_share C a"
  by (simp add: bound_share_def localShareBytes_def)

lemma setupCPACE_None:
  "setupCPACE C a = (a', None) \<Longrightarrow> au_scheme a = SchemeCPACEV2 \<Longrightarrow> same_identity a a' \<and> bound_share C a'"
  by (auto simp: setupCPACE_def same_identity_def bound_share_def localShareBytes_def Let_def
           split: if_splits prod.splits sum.splits)

lemma setupECDH_None:
  "setupECDH C a = (a', None) \<Longrightarrow> au_scheme a = SchemeTransitionalV2 \<Longrightarrow> same_identity a a' \<and> bound_share C a'"
  by (auto simp: setupECDH_def same_identity_def bound_share_def localShareBytes_def Let_def
           split: if_splits prod.splits sum.splits option.splits)

lemma Bind_None:
  assumes "Bind C U a m = (a', None)"
  shows "au_state a' = AuthStateInit" "au_bound a'" "au_scheme a' = au_scheme a"
    "au_pairingSecret a' = au_pairingSecret a" "au_initiator a' \<longleftrightarrow> bm_Mode m = ModeConnect"
    "au_material a' = \<lparr>bm_SessionID = TrimSpace (bm_SessionID m), bm_Mode = bm_Mode m,
        bm_LocalFingerprint = canonicalFingerprint U (bm_LocalFingerprint m),
        bm_RemoteFingerprint = canonicalFingerprint U (bm_RemoteFingerprint m)\<rparr>"
    "bound_share C a'"
proof -
  define a1 where "a1 = a\<lparr>au_material := \<lparr>bm_SessionID = TrimSpace (bm_SessionID m), bm_Mode = bm_Mode m,
      bm_LocalFingerprint = canonicalFingerprint U (bm_LocalFingerprint m),
      bm_RemoteFingerprint = canonicalFingerprint U (bm_RemoteFingerprint m)\<rparr>,
      au_initiator := (bm_Mode m = ModeConnect)\<rparr>"
  have st: "au_state a = AuthStateInit"
    using assms by (auto simp: Bind_def split: if_splits)
  have "\<exists>a2. a' = a2\<lparr>au_bound := True\<rparr> \<and> same_identity a1 a2 \<and> bound_share C a2"
    using assms setupCPACE_None [of C a1] setupECDH_None [of C a1]
    by (auto simp: Bind_def Let_def a1_def split: if_splits option.splits prod.splits)
  then show "au_state a' = AuthStateInit" "au_bound a'" "au_scheme a' = au_scheme a"
    "au_pairingSecret a' = au_pairingSecret a" "au_initiator a' \<longleftrightarrow> bm_Mode m = ModeConnect"
    "au_material a' = \<lparr>bm_SessionID = TrimSpace (bm_SessionID m), bm_Mode = bm_Mode m,
        bm_LocalFingerprint = canonicalFingerprint U (bm_LocalFingerprint m),
        bm_RemoteFingerprint = canonicalFingerprint U (bm_RemoteFingerprint m)\<rparr>"
    "bound_share C a'"
    by (auto simp: st a1_def same_identity_def)
qed

section \<open>The handshake\<close>

lemma localShareBytes_upd [simp]:
  "localShareBytes (a\<lparr>au_peerShare := s, au_havePeerShare := h\<rparr>) = localShareBytes a"
  "localShareBytes (a\<lparr>au_state := st\<rparr>) = localShareBytes a"
  by (simp_all add: localShareBytes_def)

lemma pake_agree:
  assumes "cpace_laws C" "ecdh_laws C" "bound_share C i" "bound_share C r"
    and "au_scheme i = au_scheme r" "cpaceGeneratorInput i = cpaceGeneratorInput r"
  shows "\<exists>p. derivePakeShared C (i\<lparr>au_peerShare := localShareBytes r, au_havePeerShare := True\<rparr>) = Inr p
           \<and> derivePakeShared C (r\<lparr>au_peerShare := localShareBytes i, au_havePeerShare := True\<rparr>) = Inr p"
proof (cases "au_scheme i = SchemeCPACEV2")
  case True
  define g where "g = cr_HashToElement C (cpaceGeneratorInput r) (bytes_of cpaceGeneratorDST)"
  from True assms obtain x y where i: "au_cpaceScalar i = Some x" "\<not> cr_IsIdentity C (cr_Mul C g x)"
      "cr_Marshal C (cr_Mul C g x) = Inr (localShareBytes i)"
    and r: "au_cpaceScalar r = Some y" "\<not> cr_IsIdentity C (cr_Mul C g y)"
      "cr_Marshal C (cr_Mul C g y) = Inr (localShareBytes r)"
    by (auto simp: bound_share_def g_def Let_def)
  have u: "cr_Unmarshal C (localShareBytes i) = Inr (cr_Mul C g x)"
    "cr_Unmarshal C (localShareBytes r) = Inr (cr_Mul C g y)"
    using assms(1) i(3) r(3) by (auto simp: cpace_laws_def)
  have c: "cr_Mul C (cr_Mul C g y) x = cr_Mul C (cr_Mul C g x) y"
    and n: "\<not> cr_IsIdentity C (cr_Mul C (cr_Mul C g x) y)"
    using assms(1) i(2) r(2) by (auto simp: cpace_laws_def)
  obtain p where "cr_Marshal C (cr_Mul C (cr_Mul C g x) y) = Inr p"
    using assms(1) unfolding cpace_laws_def by blast
  with True assms(5) i r u c n show ?thesis
    by (auto simp: derivePakeShared_def derivePakeSharedCPACE_def Let_def)
next
  case False
  with assms have "cr_X25519 C (au_priv i) (cr_Basepoint C) = Inr (localShareBytes i)"
    "cr_X25519 C (au_priv r) (cr_Basepoint C) = Inr (localShareBytes r)"
    "au_scheme i = SchemeTransitionalV2"
    by (auto simp: bound_share_def)
  with assms(2) obtain z where "cr_X25519 C (au_priv i) (localShareBytes r) = Inr z"
    "cr_X25519 C (au_priv r) (localShareBytes i) = Inr z" "z \<noteq> replicate 32 0"
    unfolding ecdh_laws_def by meson
  then show ?thesis
    using False assms(5) \<open>au_scheme i = SchemeTransitionalV2\<close>
    by (auto simp: derivePakeShared_def derivePakeSharedECDH_def ConstantTimeCompare_def)
qed

lemma bound_share_wire:
  assumes "cpace_laws C" "ecdh_laws C" "bound_share C a"
  shows "consumePeerShare b (EncodeToString (localShareBytes a)) =
     (b\<lparr>au_peerShare := localShareBytes a, au_havePeerShare := True\<rparr>, None)"
proof -
  have "localShareBytes a \<noteq> replicate 32 0" "length (localShareBytes a) = 32"
    using assms by (auto simp: bound_share_def cpace_laws_def ecdh_laws_def Let_def split: if_splits)
  then show ?thesis by (simp add: consumePeerShare_None)
qed

lemma withKeys_simps [simp]:
  "au_state (withKeys a kb) = au_state a" "au_scheme (withKeys a kb) = au_scheme a"
  "au_bound (withKeys a kb) = au_bound a" "au_initiator (withKeys a kb) = au_initiator a"
  "au_sessionKey (withKeys a kb) = kb_sessionKey kb"
  "au_transcript (withKeys a kb) = kb_transcript kb"
  "au_initiatorConfirm (withKeys a kb) = kb_initiatorConfirm kb"
  "au_responderConfirm (withKeys a kb) = kb_responderConfirm kb"
  "au_material (withKeys a kb) = au_material a"
  "au_pairingSecret (withKeys a kb) = au_pairingSecret a"
  "localShareBytes (withKeys a kb) = localShareBytes a"
  by (simp_all add: withKeys_def localShareBytes_def)

lemma peerKeys_upd [simp]:
  "peerKeys C (a\<lparr>au_peerShare := s, au_havePeerShare := h\<rparr>) = peerKeys C a"
  "peerKeys C (a\<lparr>au_state := st\<rparr>) = peerKeys C a"
  "peerKeys C (withKeys a kb) = peerKeys C a"
  by (simp_all add: peerKeys_def orderedFingerprints_def fun_eq_iff)

lemma derivePakeShared_upd [simp]:
  "derivePakeShared C (a\<lparr>au_state := st\<rparr>) = derivePakeShared C a"
  "derivePakeShared C (a\<lparr>au_state := st, au_peerShare := s, au_havePeerShare := h\<rparr>) =
     derivePakeShared C (a\<lparr>au_peerShare := s, au_havePeerShare := h\<rparr>)"
  by (simp_all add: derivePakeShared_def derivePakeSharedCPACE_def derivePakeSharedECDH_def
      split: sum.split option.split)

text \<open>The two accepting steps of the handshake, in closed form.\<close>

lemma stepResponder_hello:
  assumes "au_state a = AuthStateInit" "am_Kind m = MessageKindHello"
    and "am_InitiatorRole m = ModeConnect" "am_ResponderRole m = ModeExpose"
    and "consumePeerShare a (am_Share m) = (a\<lparr>au_peerShare := sh, au_havePeerShare := True\<rparr>, None)"
    and "derivePakeShared C (a\<lparr>au_peerShare := sh, au_havePeerShare := True\<rparr>) = Inr p"
  shows "stepResponder C a m =
    ((withKeys (a\<lparr>au_peerShare := sh, au_havePeerShare := True\<rparr>) (peerKeys C a sh p))
       \<lparr>au_state := AuthStateSentAccept\<rparr>,
     \<lparr>am_Scheme = au_scheme a, am_Kind = MessageKindAccept, am_InitiatorRole = [], am_ResponderRole = [],
      am_Share = EncodeToString (localShareBytes a),
      am_Confirmation = EncodeToString (kb_responderConfirm (peerKeys C a sh p))\<rparr>, True, False, None)"
  using assms by (simp add: stepResponder_def computeTranscriptAndKeys_eq)

lemma stepInitiator_accept:
  assumes "au_state a = AuthStateSentHello" "am_Kind m = MessageKindAccept"
    and "consumePeerShare a (am_Share m) = (a\<lparr>au_peerShare := sh, au_havePeerShare := True\<rparr>, None)"
    and "derivePakeShared C (a\<lparr>au_peerShare := sh, au_havePeerShare := True\<rparr>) = Inr p"
    and "DecodeString (TrimSpace (am_Confirmation m)) = Some (kb_responderConfirm (peerKeys C a sh p))"
  shows "stepInitiator C a m =
    ((withKeys (a\<lparr>au_peerShare := sh, au_havePeerShare := True\<rparr>) (peerKeys C a sh p))
       \<lparr>au_state := AuthStateSucceeded\<rparr>,
     \<lparr>am_Scheme = au_scheme a, am_Kind = MessageKindConfirm, am_InitiatorRole = [], am_ResponderRole = [],
      am_Share = [],
      am_Confirmation = EncodeToString (kb_initiatorConfirm (peerKeys C a sh p))\<rparr>, True, True, None)"
proof -
  have "verifyConfirmation (am_Confirmation m) (kb_responderConfirm (peerKeys C a sh p)) = None"
    using assms(5) by (simp add: verifyConfirmation_None)
  then show ?thesis
    using assms(1-4)
    by (simp add: stepInitiator_def computeTranscriptAndKeys_eq verifyResponderConfirm_def)
qed

section \<open>Analysis of a step\<close>

lemmas step_defs = stepFailed_def auth_fail_def emptyMessage_def

lemma stepInitiator_done_iff:
  "(\<exists>a' out h. stepInitiator C a m = (a', out, h, True, None)) \<longleftrightarrow>
     au_state a = AuthStateSentHello \<and> am_Kind m = MessageKindAccept
   \<and> (\<exists>sh p. DecodeString (TrimSpace (am_Share m)) = Some sh \<and> length sh = 32 \<and> sh \<noteq> replicate 32 0
        \<and> derivePakeShared C (a\<lparr>au_peerShare := sh, au_havePeerShare := True\<rparr>) = Inr p
        \<and> DecodeString (TrimSpace (am_Confirmation m)) = Some (kb_responderConfirm (peerKeys C a sh p)))"
  (is "?L \<longleftrightarrow> ?R")
proof
  assume ?L
  then obtain a1 a2 where st: "au_state a = AuthStateSentHello" "am_Kind m = MessageKindAccept"
    and c: "consumePeerShare a (am_Share m) = (a1, None)" "computeTranscriptAndKeys C a1 = (a2, None)"
    and v: "verifyResponderConfirm a2 (am_Confirmation m) = None"
    by (auto simp: stepInitiator_def step_defs split: if_splits prod.splits option.splits)
  from c(1) obtain sh where sh: "DecodeString (TrimSpace (am_Share m)) = Some sh" "length sh = 32"
      "sh \<noteq> replicate 32 0" "a1 = a\<lparr>au_peerShare := sh, au_havePeerShare := True\<rparr>"
    unfolding consumePeerShare_None by auto
  from computeTranscriptAndKeys_None [OF c(2)] sh(4) obtain p where
    p: "derivePakeShared C (a\<lparr>au_peerShare := sh, au_havePeerShare := True\<rparr>) = Inr p" by auto
  with c(2) sh(4) have "a2 = withKeys a1 (peerKeys C a sh p)"
    by (simp add: computeTranscriptAndKeys_eq)
  with v have "DecodeString (TrimSpace (am_Confirmation m)) = Some (kb_responderConfirm (peerKeys C a sh p))"
    by (simp add: verifyResponderConfirm_def verifyConfirmation_None)
  with st sh p show ?R by blast
next
  assume ?R
  then obtain sh p where st: "au_state a = AuthStateSentHello" "am_Kind m = MessageKindAccept"
    and sh: "DecodeString (TrimSpace (am_Share m)) = Some sh" "length sh = 32" "sh \<noteq> replicate 32 0"
    and p: "derivePakeShared C (a\<lparr>au_peerShare := sh, au_havePeerShare := True\<rparr>) = Inr p"
      "DecodeString (TrimSpace (am_Confirmation m)) = Some (kb_responderConfirm (peerKeys C a sh p))"
    by blast
  from sh have "consumePeerShare a (am_Share m) = (a\<lparr>au_peerShare := sh, au_havePeerShare := True\<rparr>, None)"
    unfolding consumePeerShare_None by blast
  from stepInitiator_accept [OF st this p] show ?L by blast
qed

lemma stepResponder_done_iff:
  "(\<exists>a' out h. stepResponder C a m = (a', out, h, True, None)) \<longleftrightarrow>
     au_state a = AuthStateSentAccept \<and> am_Kind m = MessageKindConfirm
   \<and> DecodeString (TrimSpace (am_Confirmation m)) = Some (au_initiatorConfirm a)
   \<and> length (au_initiatorConfirm a) = 32"
  using verifyConfirmation_None [of "am_Confirmation m" "au_initiatorConfirm a"]
  by (auto simp: stepResponder_def step_defs verifyInitiatorConfirm_def
      split: AuthState.splits if_splits prod.splits option.splits)

lemma consumePeerShare_frame:
  "consumePeerShare a e = (a', r) \<Longrightarrow> au_state a' = au_state a \<and> au_bound a' = au_bound a
     \<and> au_scheme a' = au_scheme a \<and> au_initiator a' = au_initiator a"
  by (auto simp: consumePeerShare_def split: option.splits if_splits)

lemma computeTranscriptAndKeys_frame:
  "computeTranscriptAndKeys C a = (a', r) \<Longrightarrow> au_state a' = au_state a \<and> au_bound a' = au_bound a
     \<and> au_scheme a' = au_scheme a \<and> au_initiator a' = au_initiator a"
  by (auto simp: computeTranscriptAndKeys_def Let_def split: sum.splits if_splits)

lemma stepInitiator_shape:
  assumes "stepInitiator C a m = (a', out, h, d, e)"
  shows "au_bound a' = au_bound a \<and> au_scheme a' = au_scheme a \<and> au_initiator a' = au_initiator a"
    and "if e = None then au_state a = AuthStateSentHello \<and> au_state a' = AuthStateSucceeded \<and> h \<and> d
           \<and> am_Scheme out = au_scheme a \<and> am_Kind out = MessageKindConfirm \<and> am_Kind m = MessageKindAccept
         else au_state a' = AuthStateFailed \<and> \<not> h \<and> \<not> d \<and> out = emptyMessage"
  using assms
  by (auto simp: stepInitiator_def stepFailed_def auth_fail_def
      dest!: consumePeerShare_frame computeTranscriptAndKeys_frame dest: sym [of "Some _"]
      split: if_splits prod.splits option.splits)

lemma stepResponder_shape:
  assumes "stepResponder C a m = (a', out, h, d, e)"
  shows "au_bound a' = au_bound a \<and> au_scheme a' = au_scheme a \<and> au_initiator a' = au_initiator a"
    and "if e = None then
           (au_state a = AuthStateInit \<and> au_state a' = AuthStateSentAccept \<and> h \<and> \<not> d
              \<and> am_Scheme out = au_scheme a \<and> am_Kind out = MessageKindAccept \<and> am_Kind m = MessageKindHello)
           \<or> (au_state a = AuthStateSentAccept \<and> au_state a' = AuthStateSucceeded \<and> \<not> h \<and> d \<and> am_Kind m = MessageKindConfirm)
         else au_state a' = AuthStateFailed \<and> \<not> h \<and> \<not> d \<and> out = emptyMessage"
  using assms
  by (auto simp: stepResponder_def stepFailed_def auth_fail_def
      dest!: consumePeerShare_frame computeTranscriptAndKeys_frame dest: sym [of "Some _"]
      split: AuthState.splits if_splits prod.splits option.splits)

lemma Step_frame:
  "Step C a m = (a', out, h, d, e) \<Longrightarrow>
     au_bound a' = au_bound a \<and> au_scheme a' = au_scheme a \<and> au_initiator a' = au_initiator a"
  by (auto simp: Step_def stepFailed_def auth_fail_def
      dest: stepInitiator_shape(1) stepResponder_shape(1) split: if_splits)

lemma Step_done:
  "Step C a m = (a', out, h, d, e) \<Longrightarrow> d \<longleftrightarrow> au_state a' = AuthStateSucceeded \<and> au_state a \<noteq> AuthStateSucceeded"
  by (auto simp: Step_def stepFailed_def auth_fail_def
      dest: stepInitiator_shape(2) stepResponder_shape(2) split: if_splits)

lemma Step_transition:
  "Step C a m = (a', out, h, d, e) \<Longrightarrow> au_bound a \<Longrightarrow>
     (if e = None then
        (if au_initiator a
         then auth_transition True (OnStep (am_Kind m)) (au_state a) AuthStateSentConfirm
              \<and> auth_transition True AfterSend AuthStateSentConfirm (au_state a')
         else auth_transition False (OnStep (am_Kind m)) (au_state a) (au_state a'))
      else if au_state a = AuthStateSucceeded \<or> au_state a = AuthStateFailed then a' = a
      else auth_transition (au_initiator a) OnError (au_state a) (au_state a'))"
  by (auto simp: Step_def stepFailed_def auth_fail_def auth_transition_simps
      dest: stepInitiator_shape(2) stepResponder_shape(2) split: if_splits)

lemma Step_err:
  "Step C a m = (a', out, h, d, e) \<Longrightarrow> au_bound a \<Longrightarrow>
     e \<noteq> None \<longleftrightarrow> au_state a' = AuthStateFailed \<or> au_state a = AuthStateSucceeded"
  by (auto simp: Step_def stepFailed_def auth_fail_def
      dest: stepInitiator_shape(2) stepResponder_shape(2) split: if_splits)

lemma Step_out:
  "Step C a m = (a', out, h, d, e) \<Longrightarrow>
     if h then e = None \<and> am_Scheme out = au_scheme a
               \<and> am_Kind out = (if au_initiator a then MessageKindConfirm else MessageKindAccept)
     else e = None \<longrightarrow> au_state a' = AuthStateSucceeded"
  by (auto simp: Step_def stepFailed_def auth_fail_def
      dest: stepInitiator_shape(2) stepResponder_shape(2) split: if_splits)

lemma Step_terminal:
  "au_bound a \<Longrightarrow> au_state a = AuthStateSucceeded \<or> au_state a = AuthStateFailed \<Longrightarrow>
     Step C a m = (a, emptyMessage, False, False, Some ErrAuthStateOutOfOrder)"
  by (simp add: Step_def)

section \<open>The honest handshake\<close>

lemma newInteractiveAuthenticator_Inr:
  "newInteractiveAuthenticator C ps scheme rng = Inr a \<Longrightarrow>
     au_pairingSecret a = bytes_of (TrimSpace ps) \<and> au_scheme a = scheme"
  by (auto simp: newInteractiveAuthenticator_def Let_def split: if_splits)

text \<open>Two bound authenticators that mirror each other.\<close>

lemma handshake_core:
  assumes laws: "cpace_laws C" "ecdh_laws C" and b: "bound_share C i" "bound_share C r"
    and st: "au_state i = AuthStateInit" "au_state r = AuthStateInit" "au_bound i" "au_bound r"
    and role: "au_initiator i" "\<not> au_initiator r"
    and same: "au_scheme r = au_scheme i" "au_pairingSecret r = au_pairingSecret i"
      "bm_SessionID (au_material r) = bm_SessionID (au_material i)"
      "orderedFingerprints r = orderedFingerprints i"
  shows "\<exists>i1 hello r1 accept i2 confirm r2 k.
     Start i = (i1, Inr hello) \<and> Step C r hello = (r1, accept, True, False, None)
   \<and> Step C i1 accept = (i2, confirm, True, True, None)
   \<and> Step C r1 confirm = (r2, emptyMessage, False, True, None)
   \<and> SessionKey i2 = Inr k \<and> SessionKey r2 = Inr k \<and> length k = 32"
proof -
  define si sr where "si = localShareBytes i" and "sr = localShareBytes r"
  have gen: "cpaceGeneratorInput i = cpaceGeneratorInput r"
    using same by (simp add: cpaceGeneratorInput_def)
  obtain p where pi: "derivePakeShared C (i\<lparr>au_peerShare := sr, au_havePeerShare := True\<rparr>) = Inr p"
    and pr: "derivePakeShared C (r\<lparr>au_peerShare := si, au_havePeerShare := True\<rparr>) = Inr p"
    using pake_agree [OF laws b same(1) [symmetric] gen] by (auto simp: si_def sr_def)
  have keys: "peerKeys C i sr p = peerKeys C r si p"
    using role same by (simp add: peerKeys_def si_def sr_def)
  define kb where "kb = peerKeys C r si p"
  define i1 where "i1 = i\<lparr>au_state := AuthStateSentHello\<rparr>"
  define r1 where "r1 = (withKeys (r\<lparr>au_peerShare := si, au_havePeerShare := True\<rparr>) kb)
                          \<lparr>au_state := AuthStateSentAccept\<rparr>"
  have kl: "length (kb_responderConfirm kb) = 32" "length (kb_initiatorConfirm kb) = 32"
      "length (kb_sessionKey kb) = 32" by (simp_all add: kb_def)
  obtain hello where hello: "Start i = (i1, Inr hello)" "am_Scheme hello = au_scheme i"
      "am_Kind hello = MessageKindHello" "am_InitiatorRole hello = ModeConnect"
      "am_ResponderRole hello = ModeExpose" "am_Share hello = EncodeToString si"
    using st role by (simp add: Start_def i1_def si_def)
  have cr: "consumePeerShare r (am_Share hello) = (r\<lparr>au_peerShare := si, au_havePeerShare := True\<rparr>, None)"
    using bound_share_wire [OF laws b(1)] by (simp add: hello si_def)
  obtain accept where acc: "Step C r hello = (r1, accept, True, False, None)"
      "am_Scheme accept = au_scheme i" "am_Kind accept = MessageKindAccept"
      "am_Share accept = EncodeToString sr" "am_Confirmation accept = EncodeToString (kb_responderConfirm kb)"
    using stepResponder_hello [OF st(2) hello(3-5) cr pr] st role same hello(2)
    by (simp add: Step_def kb_def r1_def sr_def)
  have ci: "consumePeerShare i1 (am_Share accept) = (i1\<lparr>au_peerShare := sr, au_havePeerShare := True\<rparr>, None)"
    using bound_share_wire [OF laws b(2)] by (simp add: acc sr_def)
  have pi1: "derivePakeShared C (i1\<lparr>au_peerShare := sr, au_havePeerShare := True\<rparr>) = Inr p"
    using pi by (simp add: i1_def)
  have k1: "peerKeys C i1 sr p = kb" by (simp add: i1_def keys kb_def)
  have d1: "DecodeString (TrimSpace (am_Confirmation accept)) = Some (kb_responderConfirm (peerKeys C i1 sr p))"
    by (simp add: acc k1)
  have s1: "au_state i1 = AuthStateSentHello" by (simp add: i1_def)
  obtain i2 confirm where conf: "Step C i1 accept = (i2, confirm, True, True, None)"
      "SessionKey i2 = Inr (kb_sessionKey kb)" "am_Scheme confirm = au_scheme i"
      "am_Kind confirm = MessageKindConfirm" "am_Confirmation confirm = EncodeToString (kb_initiatorConfirm kb)"
    using stepInitiator_accept [OF s1 acc(3) ci pi1 d1] st role acc(2)
    by (simp add: Step_def i1_def SessionKey_def keys kb_def)
  have "verifyInitiatorConfirm r1 (am_Confirmation confirm) = None"
    using kl by (simp add: verifyInitiatorConfirm_def verifyConfirmation_None r1_def conf)
  then have fin: "Step C r1 confirm = (r1\<lparr>au_state := AuthStateSucceeded\<rparr>, emptyMessage, False, True, None)"
    "SessionKey (r1\<lparr>au_state := AuthStateSucceeded\<rparr>) = Inr (kb_sessionKey kb)"
    using st role same conf by (simp_all add: Step_def stepResponder_def r1_def SessionKey_def)
  from hello(1) acc(1) conf(1,2) fin kl(3) show ?thesis by blast
qed

text \<open>
  (C14) An honest handshake completes: two authenticators made from the same pairing secret and
  scheme and bound to one session with mirrored fingerprints exchange hello, accept and confirm;
  every call succeeds, both sides report \<open>done\<close>, and both hold the same 32-byte session key.
\<close>

theorem honest_handshake_agrees:
  assumes "cpace_laws C" "ecdh_laws C"
    and new: "newInteractiveAuthenticator C ps scheme ri = Inr i0"
      "newInteractiveAuthenticator C pr scheme rr = Inr r0" "TrimSpace ps = TrimSpace pr"
    and bind: "Bind C U i0 mi = (i, None)" "Bind C U r0 mr = (r, None)"
    and modes: "bm_Mode mi = ModeConnect" "bm_Mode mr = ModeExpose"
    and session: "TrimSpace (bm_SessionID mi) = TrimSpace (bm_SessionID mr)"
      "canonicalFingerprint U (bm_LocalFingerprint mi) = canonicalFingerprint U (bm_RemoteFingerprint mr)"
      "canonicalFingerprint U (bm_RemoteFingerprint mi) = canonicalFingerprint U (bm_LocalFingerprint mr)"
  shows "\<exists>i1 hello r1 accept i2 confirm r2 k.
     Start i = (i1, Inr hello) \<and> Step C r hello = (r1, accept, True, False, None)
   \<and> Step C i1 accept = (i2, confirm, True, True, None)
   \<and> Step C r1 confirm = (r2, emptyMessage, False, True, None)
   \<and> SessionKey i2 = Inr k \<and> SessionKey r2 = Inr k \<and> length k = 32"
proof (rule handshake_core)
  note bi = Bind_None [OF bind(1)] and br = Bind_None [OF bind(2)]
  have "ModeExpose \<noteq> ModeConnect" by (simp add: ModeExpose_def ModeConnect_def)
  with modes bi(5) br(5) show "au_initiator i" "\<not> au_initiator r" by simp_all
  with bi(6) br(6) modes session show "orderedFingerprints r = orderedFingerprints i"
    by (simp add: orderedFingerprints_def)
  show "au_scheme r = au_scheme i" "au_pairingSecret r = au_pairingSecret i"
    "bm_SessionID (au_material r) = bm_SessionID (au_material i)"
    using newInteractiveAuthenticator_Inr [OF new(1)] newInteractiveAuthenticator_Inr [OF new(2)]
      new(3) bi(3,4,6) br(3,4,6) session by simp_all
qed (use assms(1,2) Bind_None [OF bind(1)] Bind_None [OF bind(2)] in simp_all)

text \<open>
  A group of order two with its scalar action, and a degenerate Diffie-Hellman function: they
  satisfy the laws, so the theorem above is not vacuous.
\<close>

lemma toyCrypto_laws [simp]: "cpace_laws toyCrypto" "ecdh_laws toyCrypto"
  by (auto simp: cpace_laws_def ecdh_laws_def toyCrypto_def)

lemma toy_trim [simp]:
  "TrimSpace ''secret'' = ''secret''" "TrimSpace ''s1'' = ''s1''"
  "TrimSpace ''FP-A'' = ''FP-A''" "TrimSpace ''FP-B'' = ''FP-B''"
  by code_simp+

lemma toy_new: "newInteractiveAuthenticator toyCrypto ''secret'' SchemeCPACEV2 (Some ()) = Inr (toyAuth SchemeCPACEV2)"
  by (simp add: toyAuth_def newInteractiveAuthenticator_def)

lemma toy_init: "au_state (toyAuth SchemeCPACEV2) = AuthStateInit" "au_scheme (toyAuth SchemeCPACEV2) = SchemeCPACEV2"
  by (simp_all add: toyAuth_def newInteractiveAuthenticator_def)

lemma toy_bind:
  "snd (Bind toyCrypto idUnicode (toyAuth SchemeCPACEV2) (toyMaterial ModeConnect ''FP-A'' ''FP-B'')) = None"
  "snd (Bind toyCrypto idUnicode (toyAuth SchemeCPACEV2) (toyMaterial ModeExpose ''FP-B'' ''FP-A'')) = None"
  by (simp_all add: Bind_def toy_init validateMaterial_def toyMaterial_def setupCPACE_def toyCrypto_def Let_def)

theorem honest_handshake_agrees_witness:
  "\<exists>i1 hello r1 accept i2 confirm r2 k.
     Start (fst (Bind toyCrypto idUnicode (toyAuth SchemeCPACEV2) (toyMaterial ModeConnect ''FP-A'' ''FP-B'')))
       = (i1, Inr hello)
   \<and> Step toyCrypto
       (fst (Bind toyCrypto idUnicode (toyAuth SchemeCPACEV2) (toyMaterial ModeExpose ''FP-B'' ''FP-A''))) hello
       = (r1, accept, True, False, None)
   \<and> Step toyCrypto i1 accept = (i2, confirm, True, True, None)
   \<and> Step toyCrypto r1 confirm = (r2, emptyMessage, False, True, None)
   \<and> SessionKey i2 = Inr k \<and> SessionKey r2 = Inr k \<and> length k = 32"
  by (rule honest_handshake_agrees [OF toyCrypto_laws toy_new toy_new refl, where U = idUnicode
        and mi = "toyMaterial ModeConnect ''FP-A'' ''FP-B''" and mr = "toyMaterial ModeExpose ''FP-B'' ''FP-A''"])
     (use toy_bind in \<open>auto simp: prod_eq_iff toyMaterial_def\<close>)

section \<open>What success proves\<close>

text \<open>
  (C16) When a peer accepts.  A step of a bound authenticator reports \<open>done\<close> exactly when: the
  message carries the pinned scheme; and, for the initiator, it is an accept received after its
  own hello, with a non-zero 32-byte share, whose confirmation is the responder tag that the
  protocol's key schedule gives for this session, these fingerprints and this share; for the
  responder, it is a confirm received after its own accept whose confirmation is the initiator
  tag it computed.
\<close>

theorem Step_done_iff:
  "(\<exists>a' out h. Step C a m = (a', out, h, True, None)) \<longleftrightarrow>
     au_bound a \<and> am_Scheme m = au_scheme a \<and>
     (if au_initiator a then
        au_state a = AuthStateSentHello \<and> am_Kind m = MessageKindAccept
        \<and> (\<exists>sh p. DecodeString (TrimSpace (am_Share m)) = Some sh \<and> length sh = 32 \<and> sh \<noteq> replicate 32 0
             \<and> derivePakeShared C (a\<lparr>au_peerShare := sh, au_havePeerShare := True\<rparr>) = Inr p
             \<and> DecodeString (TrimSpace (am_Confirmation m)) = Some (kb_responderConfirm (peerKeys C a sh p)))
      else
        au_state a = AuthStateSentAccept \<and> am_Kind m = MessageKindConfirm
        \<and> DecodeString (TrimSpace (am_Confirmation m)) = Some (au_initiatorConfirm a)
        \<and> length (au_initiatorConfirm a) = 32)"
  using stepInitiator_done_iff [of C a m] stepResponder_done_iff [of C a m]
  by (auto simp: Step_def stepFailed_def)

text \<open>
  (C24) The keys are those of the protocol document: when a bound responder answers a hello, the
  shared secret it derived is the one the document gives for its scheme, its transcript, session
  key and both confirmation tags are the document's transcript and key schedule, written out from
  \<^verbatim>\<open>PROTOCOL.md\<close> field by field, on its secret, scheme, session id, the fingerprints in role
  order and the two shares in role order, and the accept it sends carries its share and the
  responder tag.
\<close>

theorem responder_answers_with_protocol_keys:
  assumes "Step C a m = (a', out, True, False, None)"
  shows "\<exists>sh p. DecodeString (TrimSpace (am_Share m)) = Some sh \<and> protocolShared C a sh p
       \<and> (let kb = protocolKeys C (au_pairingSecret a) (au_scheme a) (bm_SessionID (au_material a))
                     (bm_RemoteFingerprint (au_material a)) (bm_LocalFingerprint (au_material a))
                     sh (localShareBytes a) p in
          au_transcript a' = kb_transcript kb \<and> au_sessionKey a' = kb_sessionKey kb
        \<and> au_initiatorConfirm a' = kb_initiatorConfirm kb
        \<and> am_Share out = EncodeToString (localShareBytes a)
        \<and> am_Confirmation out = EncodeToString (kb_responderConfirm kb))"
proof -
  have st: "au_state a = AuthStateInit" "\<not> au_initiator a" "stepResponder C a m = (a', out, True, False, None)"
    using assms stepInitiator_shape(2) [of C a m] stepResponder_shape(2) [of C a m]
    by (auto simp: Step_def stepFailed_def split: if_splits)
  then obtain a1 a2 where c: "consumePeerShare a (am_Share m) = (a1, None)"
      "computeTranscriptAndKeys C a1 = (a2, None)"
    and k: "am_Kind m = MessageKindHello" "am_InitiatorRole m = ModeConnect" "am_ResponderRole m = ModeExpose"
    by (auto simp: stepResponder_def stepFailed_def split: if_splits prod.splits option.splits)
  then obtain sh where sh: "DecodeString (TrimSpace (am_Share m)) = Some sh"
      "a1 = a\<lparr>au_peerShare := sh, au_havePeerShare := True\<rparr>"
    unfolding consumePeerShare_None by auto
  from computeTranscriptAndKeys_None [OF c(2)] sh(2) obtain p where
    p: "derivePakeShared C (a\<lparr>au_peerShare := sh, au_havePeerShare := True\<rparr>) = Inr p" by auto
  from stepResponder_hello [OF st(1) k c(1) [unfolded sh(2)] p] st(2,3) sh(1) p [unfolded derivePakeShared_protocol] show ?thesis
    by (auto simp: peerKeys_def orderedFingerprints_def Let_def)
qed

lemma toy_Bind:
  "Bind toyCrypto idUnicode (toyAuth SchemeCPACEV2) (toyMaterial ModeConnect ''FP-A'' ''FP-B'') = (toyInitiator, None)"
  "Bind toyCrypto idUnicode (toyAuth SchemeCPACEV2) (toyMaterial ModeExpose ''FP-B'' ''FP-A'') = (toyResponder, None)"
  using toy_bind by (simp_all add: prod_eq_iff toyInitiator_def toyResponder_def)

lemmas toy_bound = Bind_None [OF toy_Bind(1)] Bind_None [OF toy_Bind(2)]

lemma toy_run:
  "\<exists>i1 hello r1 accept i2 confirm r2 k.
     Start toyInitiator = (i1, Inr hello)
   \<and> Step toyCrypto toyResponder hello = (r1, accept, True, False, None)
   \<and> Step toyCrypto i1 accept = (i2, confirm, True, True, None)
   \<and> Step toyCrypto r1 confirm = (r2, emptyMessage, False, True, None)
   \<and> SessionKey i2 = Inr k \<and> SessionKey r2 = Inr k \<and> length k = 32"
  by (rule handshake_core) (use toy_bound in \<open>simp_all add: orderedFingerprints_def toyMaterial_def\<close>)

theorem responder_answers_with_protocol_keys_witness:
  "\<exists>m a' out sh p. Step toyCrypto toyResponder m = (a', out, True, False, None)
     \<and> DecodeString (TrimSpace (am_Share m)) = Some sh
     \<and> protocolShared toyCrypto toyResponder sh p"
proof -
  obtain m a' out where "Step toyCrypto toyResponder m = (a', out, True, False, None)"
    using toy_run by blast
  from this responder_answers_with_protocol_keys [OF this] show ?thesis by blast
qed

section \<open>Binding of the transcript\<close>

text \<open>
  (C26) The transcript hash input is injective: two transcripts with fields shorter than 4 GiB have
  the same hash input only when scheme, session id, roles, fingerprints and shares are all equal,
  so no field can be shifted into a neighbour.
\<close>

theorem transcriptInput_inject:
  assumes eq: "transcriptInput scheme sid iRole rRole iFP rFP iShare rShare =
               transcriptInput scheme' sid' iRole' rRole' iFP' rFP' iShare' rShare'"
    and short: "list_all (\<lambda>s. length s < 2 ^ 32)
                  [scheme, sid, iRole, rRole, iFP, rFP, scheme', sid', iRole', rRole', iFP', rFP']"
               "list_all (\<lambda>b. length b < 2 ^ 32) [iShare, rShare, iShare', rShare']"
  shows "[scheme, sid, iRole, rRole, iFP, rFP] = [scheme', sid', iRole', rRole', iFP', rFP']
       \<and> iShare = iShare' \<and> rShare = rShare'"
  using eq short unfolding transcriptInput_def append_assoc
  by (auto simp: writeLenPrefixed_inject dest!: writeLenPrefixed_append_inject [rotated 2])

theorem transcriptInput_inject_witness:
  "[''a'', ''s'', ''connect'', ''expose'', ''F'', ''G''] = [''a'', ''s'', ''connect'', ''expose'', ''F'', ''G'']
     \<and> [1::byte] = [1] \<and> [2::byte] = [2]"
  by (rule transcriptInput_inject [OF refl]) simp_all

text \<open>
  The CPace generator is bound to the pairing: two authenticators derive the generator from
  the same input only when they have the same pairing secret, session id and the same DTLS
  fingerprints in initiator/responder order.  A broker that substitutes a fingerprint or a
  session id on one side changes that side's generator input.
\<close>

theorem cpaceGeneratorInput_inject:
  assumes eq: "cpaceGeneratorInput a = cpaceGeneratorInput b"
    and short: "list_all (\<lambda>x. length (au_pairingSecret x) < 2 ^ 32
                  \<and> length (bm_SessionID (au_material x)) < 2 ^ 32
                  \<and> length (bm_LocalFingerprint (au_material x)) < 2 ^ 32
                  \<and> length (bm_RemoteFingerprint (au_material x)) < 2 ^ 32) [a, b]"
  shows "au_pairingSecret a = au_pairingSecret b
       \<and> bm_SessionID (au_material a) = bm_SessionID (au_material b)
       \<and> orderedFingerprints a = orderedFingerprints b"
proof -
  have ord: "length (fst (orderedFingerprints x)) < 2 ^ 32 \<and> length (snd (orderedFingerprints x)) < 2 ^ 32"
    if "x = a \<or> x = b" for x
    using that short by (auto simp: orderedFingerprints_def)
  from eq short ord [of a] ord [of b] show ?thesis
    unfolding cpaceGeneratorInput_def
    by (auto simp: prod_eq_iff writeLenPrefixed_inject split: prod.splits
        dest!: writeLenPrefixed_append_inject [rotated 2])
qed

theorem cpaceGeneratorInput_inject_witness:
  "cpaceGeneratorInput toyInitiator = cpaceGeneratorInput toyResponder
     \<and> orderedFingerprints toyInitiator = orderedFingerprints toyResponder"
proof -
  have "cpaceGeneratorInput toyInitiator = cpaceGeneratorInput toyResponder"
    by (simp add: cpaceGeneratorInput_def orderedFingerprints_def toy_bound toyMaterial_def)
  moreover from this have "orderedFingerprints toyInitiator = orderedFingerprints toyResponder"
    using cpaceGeneratorInput_inject [of toyInitiator toyResponder]
    by (simp add: toy_bound toyMaterial_def toyAuth_def newInteractiveAuthenticator_def
        canonicalFingerprint_def ToUpper_def isASCII_def)
  ultimately show ?thesis ..
qed

section \<open>The state machine\<close>

text \<open>
  (C18) The authenticator follows the state diagram of the protocol document.  A successful \<open>Start\<close>
  is its first edge and a refused one changes nothing.  A call of \<open>Step\<close> without error takes, for
  the responder, the edge labelled with the kind of the message, and for the initiator the two
  edges through \<open>SENT_CONFIRM\<close>: the code passes that state within one call, before the confirm is
  sent, and never rests in it.  A call with an error takes the edge to \<open>FAILED\<close>, or leaves a terminal
  state alone, and yields no outbound message and no \<open>done\<close>.  \<open>done\<close> is the first arrival in
  \<open>SUCCEEDED\<close>, an outbound message carries the pinned scheme and the kind of its role, and role,
  scheme and binding never change.
\<close>

theorem Step_follows_diagram:
  assumes "au_bound a" and "Step C a m = (a', out, h, d, e)"
  shows "(case Start a of
            (b, Inr hello) \<Rightarrow> auth_transition (au_initiator a) OnStart (au_state a) (au_state b)
          | (b, Inl err) \<Rightarrow> b = a)
       \<and> (if e = None then
            (if au_initiator a
             then auth_transition True (OnStep (am_Kind m)) (au_state a) AuthStateSentConfirm
                  \<and> auth_transition True AfterSend AuthStateSentConfirm (au_state a')
             else auth_transition False (OnStep (am_Kind m)) (au_state a) (au_state a'))
          else if au_state a = AuthStateSucceeded \<or> au_state a = AuthStateFailed then a' = a
          else auth_transition (au_initiator a) OnError (au_state a) (au_state a'))
       \<and> (e \<noteq> None \<longleftrightarrow> au_state a' = AuthStateFailed \<or> au_state a = AuthStateSucceeded)
       \<and> (e \<noteq> None \<longrightarrow> \<not> h \<and> \<not> d)
       \<and> (d \<longleftrightarrow> au_state a' = AuthStateSucceeded \<and> au_state a \<noteq> AuthStateSucceeded)
       \<and> (h \<longrightarrow> am_Scheme out = au_scheme a
            \<and> am_Kind out = (if au_initiator a then MessageKindConfirm else MessageKindAccept))
       \<and> au_bound a' \<and> au_initiator a' = au_initiator a \<and> au_scheme a' = au_scheme a"
proof -
  have "case Start a of
          (b, Inr hello) \<Rightarrow> auth_transition (au_initiator a) OnStart (au_state a) (au_state b)
        | (b, Inl err) \<Rightarrow> b = a"
    by (simp add: Start_def auth_transition_simps)
  then show ?thesis
    using Step_frame [OF assms(2)] Step_done [OF assms(2)] Step_transition [OF assms(2,1)]
      Step_err [OF assms(2,1)] Step_out [OF assms(2)] assms(1)
    by (auto split: if_splits)
qed

theorem Step_follows_diagram_witness:
  "\<exists>i1 hello a' out e. Start toyInitiator = (i1, Inr hello)
     \<and> auth_transition True OnStart (au_state toyInitiator) (au_state i1)
     \<and> Step toyCrypto toyInitiator emptyMessage = (a', out, False, False, Some e)
     \<and> auth_transition True OnError AuthStateInit (au_state a')"
proof -
  have b: "au_bound toyInitiator" "au_state toyInitiator = AuthStateInit" "au_initiator toyInitiator"
      "au_scheme toyInitiator = SchemeCPACEV2"
    by (simp_all add: toy_bound toyMaterial_def toy_init)
  obtain i1 hello where st: "Start toyInitiator = (i1, Inr hello)" using toy_run by blast
  obtain e where s: "Step toyCrypto toyInitiator emptyMessage = (auth_fail toyInitiator, emptyMessage, False, False, Some e)"
    using b by (simp add: Step_def stepFailed_def emptyMessage_def SchemeCPACEV2_def)
  from Step_follows_diagram [OF b(1) s] b(2,3) have "auth_transition True OnError AuthStateInit (au_state (auth_fail toyInitiator))"
      "auth_transition True OnStart (au_state toyInitiator) (au_state i1)" by (auto simp: st)
  with s st show ?thesis by blast
qed

lemma runSteps_terminal:
  "au_bound a \<Longrightarrow> au_state a = AuthStateSucceeded \<or> au_state a = AuthStateFailed \<Longrightarrow>
     runSteps C a ms = (a, replicate (length ms) (False, Some ErrAuthStateOutOfOrder))"
  by (induction ms) (simp_all add: Step_terminal)

lemma count_list_replicate_False [simp]: "count_list (replicate n False) True = 0"
  by (induction n) simp_all

lemma runSteps_unbound:
  "\<not> au_bound a \<Longrightarrow> runSteps C a ms = (a, replicate (length ms) (False, Some ErrAuthUnbound))"
  by (induction ms) (simp_all add: Step_def)

text \<open>
  An authenticator is single-use: over any sequence of inbound messages \<open>done\<close> is reported
  at most once, exactly when the run takes it from a non-succeeded state to the succeeded state,
  and a step after success or failure changes nothing.
\<close>

theorem runSteps_single_use:
  "count_list (map fst (snd (runSteps C a ms))) True
     = (if au_state a \<noteq> AuthStateSucceeded \<and> au_state (fst (runSteps C a ms)) = AuthStateSucceeded
        then 1 else 0)"
proof (induction ms arbitrary: a)
  case (Cons m ms)
  obtain a' out h d e where s: "Step C a m = (a', out, h, d, e)" by (cases "Step C a m")
  show ?case
  proof (cases "au_bound a \<and> au_state a' = AuthStateSucceeded")
    case True
    then have "runSteps C a' ms = (a', replicate (length ms) (False, Some ErrAuthStateOutOfOrder))"
      using Step_frame [OF s] by (simp add: runSteps_terminal)
    with True s Step_done [OF s] show ?thesis by simp
  next
    case False
    show ?thesis
    proof (cases "au_bound a")
      case True
      with False have "au_state a' \<noteq> AuthStateSucceeded" by simp
      moreover from this True s Step_terminal [of a C m] have "au_state a \<noteq> AuthStateSucceeded" by auto
      ultimately show ?thesis using s Step_done [OF s] Cons.IH [of a'] by (auto split: prod.splits)
    qed (simp add: runSteps_unbound del: runSteps.simps)
  qed
qed simp

text \<open>
  (C29) Reflection does not authenticate: a message produced by an authenticator of one role is
  never accepted by an authenticator of the same role, whatever the group and the secrets.
\<close>

theorem reflected_message_rejected:
  assumes "Step C a m = (a', out, True, d, None) \<or> Start a = (a', Inr out)"
    and "au_initiator b = au_initiator a" and "au_bound b"
  shows "\<exists>b' e. Step C' b out = (b', emptyMessage, False, False, Some e) \<and> (au_state b' = AuthStateFailed \<or> b' = b)"
proof -
  have k: "am_Kind out = MessageKindConfirm \<or> am_Kind out = MessageKindHello" if "au_initiator a"
    using assms(1) that Step_out [of C a m a' out True d None] by (auto simp: Start_def split: if_splits)
  have k': "am_Kind out = MessageKindAccept" if "\<not> au_initiator a"
    using assms(1) that Step_out [of C a m a' out True d None] by (auto simp: Start_def split: if_splits)
  show ?thesis
  proof (cases "au_initiator a")
    case True
    then show ?thesis using k assms(2,3)
      by (auto simp: Step_def stepInitiator_def stepFailed_def auth_fail_def)
  next
    case False
    then show ?thesis using k' assms(2,3)
      by (auto simp: Step_def stepResponder_def stepFailed_def auth_fail_def split: AuthState.splits)
  qed
qed

theorem reflected_message_rejected_witness:
  "\<exists>a' out b' e. Step toyCrypto toyResponder out = (b', emptyMessage, False, False, Some e)
     \<and> (\<exists>m. Step toyCrypto toyResponder m = (a', out, True, False, None))"
proof -
  obtain m a' out where m: "Step toyCrypto toyResponder m = (a', out, True, False, None)"
    using toy_run by blast
  then have "au_bound toyResponder" by (auto simp: Step_def split: if_splits)
  with m reflected_message_rejected [of toyCrypto toyResponder m a' out False toyResponder toyCrypto]
  show ?thesis by blast
qed

end
