(* ===== verification/SignalTypes.thy ===== *)
theory SignalTypes
  imports Prelude
begin

text \<open>
  The broker protocol messages of \<^verbatim>\<open>internal/signaling/types.go\<close>.  A pointer field with
  \<open>omitempty\<close> is an option: \<open>None\<close> is a nil pointer, an absent JSON member.
\<close>

record Register =
  rg_RendezvousToken :: string
  rg_Mode :: string
  rg_Version :: string

record Registered =
  rd_PeerID :: string

record Paired =
  pd_SessionID :: string
  pd_Initiator :: bool
  pd_PeerMode :: string

record SDPPayload =
  sdp_Type :: string
  sdp_SDP :: string

record ICECandidatePayload =
  ic_Candidate :: string
  ic_SDPMid :: "string option"
  ic_SDPMLineIndex :: "16 word option"
  ic_UsernameFragment :: "string option"

record Signal =
  sg_Kind :: string
  sg_SDP :: "SDPPayload option"
  sg_Candidate :: "ICECandidatePayload option"

record ErrorPayload =
  er_Code :: string
  er_Message :: string

record PeerLeft =
  pl_Reason :: string

record Ping =
  pi_Token :: string

record Pong =
  po_Token :: string

record message =
  ms_Type :: string
  ms_Register :: "Register option"
  ms_Paired :: "Paired option"
  ms_Signal :: "Signal option"
  ms_Error :: "ErrorPayload option"
  ms_PeerLeft :: "PeerLeft option"
  ms_Registered :: "Registered option"
  ms_Ping :: "Ping option"
  ms_Pong :: "Pong option"

text \<open>A composite literal \<open>Message{Type: t}\<close>: every field not named is nil.\<close>

definition Message :: "string \<Rightarrow> message" where
  "Message t = \<lparr>ms_Type = t, ms_Register = None, ms_Paired = None, ms_Signal = None, ms_Error = None,
                ms_PeerLeft = None, ms_Registered = None, ms_Ping = None, ms_Pong = None\<rparr>"

definition MessageTypeRegister :: string where [simp]: "MessageTypeRegister = ''register''"
definition MessageTypeRegistered :: string where [simp]: "MessageTypeRegistered = ''registered''"
definition MessageTypePaired :: string where [simp]: "MessageTypePaired = ''paired''"
definition MessageTypeSignal :: string where [simp]: "MessageTypeSignal = ''signal''"
definition MessageTypeError :: string where [simp]: "MessageTypeError = ''error''"
definition MessageTypePeerLeft :: string where [simp]: "MessageTypePeerLeft = ''peer-left''"
definition MessageTypePing :: string where [simp]: "MessageTypePing = ''ping''"
definition MessageTypePong :: string where [simp]: "MessageTypePong = ''pong''"
definition SignalKindOffer :: string where [simp]: "SignalKindOffer = ''offer''"
definition SignalKindAnswer :: string where [simp]: "SignalKindAnswer = ''answer''"
definition SignalKindICE :: string where [simp]: "SignalKindICE = ''ice-candidate''"

end
