(* ===== verification/Limiter.thy ===== *)
theory Limiter
  imports Prelude
begin

text \<open>
  The per-key rate limiter of \<^verbatim>\<open>internal/rendezvous/ratelimit.go\<close>.  The token bucket itself is
  third-party (\<^verbatim>\<open>golang.org/x/time/rate\<close>): a record of its constructor, of its \<open>AllowN\<close>, which
  returns the updated bucket, and of the conversion \<open>Every\<close> from an interval to a rate.  The mutex makes each method atomic.
\<close>

section \<open>Definitions\<close>

record ('r, 'l) rate_lib =
  rt_Every :: "int \<Rightarrow> 'r"
  rt_NewLimiter :: "'r \<Rightarrow> int \<Rightarrow> 'l"
  rt_AllowN :: "'l \<Rightarrow> time \<Rightarrow> int \<Rightarrow> 'l \<times> bool"

record 'l keyedLimiterEntry =
  kle_limiter :: 'l
  kle_lastSeen :: time

record ('r, 'l) keyedLimiter =
  kl_rateLimit :: 'r
  kl_burst :: int
  kl_keys :: "string \<rightharpoonup> 'l keyedLimiterEntry"

definition newKeyedLimiter :: "'r \<Rightarrow> int \<Rightarrow> ('r, 'l) keyedLimiter" where
  "newKeyedLimiter r burst = \<lparr>kl_rateLimit = r, kl_burst = burst, kl_keys = Map.empty\<rparr>"

definition Allow ::
  "('r, 'l) rate_lib \<Rightarrow> ('r, 'l) keyedLimiter \<Rightarrow> string \<Rightarrow> time \<Rightarrow> ('r, 'l) keyedLimiter \<times> bool" where
  "Allow R l key now =
     (let limiter = (case kl_keys l key of
                       None \<Rightarrow> rt_NewLimiter R (kl_rateLimit l) (kl_burst l)
                     | Some entry \<Rightarrow> kle_limiter entry) in
      case rt_AllowN R limiter now 1 of
        (limiter', ok) \<Rightarrow>
          (l\<lparr>kl_keys := (kl_keys l)(key \<mapsto> \<lparr>kle_limiter = limiter', kle_lastSeen = now\<rparr>)\<rparr>, ok))"

text \<open>
  The sweep ranges over the keys in the order \<open>ks\<close> the runtime picks, deleting as it goes and
  counting the deletions.
\<close>

fun cleanupKeys ::
  "string list \<Rightarrow> time \<Rightarrow> (string \<rightharpoonup> 'l keyedLimiterEntry) \<Rightarrow> nat \<Rightarrow> (string \<rightharpoonup> 'l keyedLimiterEntry) \<times> nat" where
  "cleanupKeys [] cutoff keys evicted = (keys, evicted)"
| "cleanupKeys (k # ks) cutoff keys evicted =
     (case keys k of
        None \<Rightarrow> cleanupKeys ks cutoff keys evicted
      | Some entry \<Rightarrow>
          if kle_lastSeen entry < cutoff then cleanupKeys ks cutoff (keys(k := None)) (evicted + 1)
          else cleanupKeys ks cutoff keys evicted)"

definition Cleanup ::
  "string list \<Rightarrow> ('r, 'l) keyedLimiter \<Rightarrow> time \<Rightarrow> ('r, 'l) keyedLimiter \<times> nat" where
  "Cleanup ks l cutoff =
     (case cleanupKeys ks cutoff (kl_keys l) 0 of (keys, evicted) \<Rightarrow> (l\<lparr>kl_keys := keys\<rparr>, evicted))"

definition Len :: "string list \<Rightarrow> ('r, 'l) keyedLimiter \<Rightarrow> nat" where
  "Len ks l = length ks"

section \<open>Specifications\<close>

text \<open>A run of requests, each a key and a time, and its decisions.\<close>

fun admitRun :: "('s \<Rightarrow> 'k \<Rightarrow> time \<Rightarrow> 's \<times> bool) \<Rightarrow> 's \<Rightarrow> ('k \<times> time) list \<Rightarrow> bool list" where
  "admitRun allow s [] = []"
| "admitRun allow s ((k, t) # rs) = snd (allow s k t) # admitRun allow (fst (allow s k t)) rs"

text \<open>One bucket serving a list of times: what a single source sees on its own.\<close>

fun soloRun :: "('v \<Rightarrow> time \<Rightarrow> 'v \<times> bool) \<Rightarrow> 'v \<Rightarrow> time list \<Rightarrow> bool list" where
  "soloRun decide v [] = []"
| "soloRun decide v (t # ts) = snd (decide v t) # soloRun decide (fst (decide v t)) ts"

text \<open>The bucket of a key: a fresh one when the key is not tracked.\<close>

definition bucketOf :: "('r, 'l) rate_lib \<Rightarrow> ('r, 'l) keyedLimiter \<Rightarrow> string \<Rightarrow> 'l" where
  "bucketOf R l k = (case kl_keys l k of None \<Rightarrow> rt_NewLimiter R (kl_rateLimit l) (kl_burst l)
                                       | Some e \<Rightarrow> kle_limiter e)"

text \<open>A counting bucket without refill, for the examples.\<close>

definition countLib :: "(unit, int) rate_lib" where
  "countLib = \<lparr>rt_Every = (\<lambda>_. ()), rt_NewLimiter = (\<lambda>_ burst. burst),
               rt_AllowN = (\<lambda>b _ n. if n \<le> b then (b - n, True) else (b, False))\<rparr>"

text \<open>
  The interface of a keyed admission control: a state seen through a per-key view, where a request
  looks only at, and changes only, the view of its own key.
\<close>

locale keyed_admission =
  fixes allow :: "'s \<Rightarrow> 'k \<Rightarrow> time \<Rightarrow> 's \<times> bool"
    and view :: "'s \<Rightarrow> 'k \<Rightarrow> 'v"
    and decide :: "'v \<Rightarrow> time \<Rightarrow> 'v \<times> bool"
  assumes own_key: "view (fst (allow s k t)) k = fst (decide (view s k) t)"
    and decision: "snd (allow s k t) = snd (decide (view s k) t)"
    and other_key: "k' \<noteq> k \<Longrightarrow> view (fst (allow s k t)) k' = view s k'"
begin

lemma run_isolated:
  "map snd (filter (\<lambda>(r, ok). fst r = k) (zip rs (admitRun allow s rs)))
     = soloRun decide (view s k) (map snd (filter (\<lambda>r. fst r = k) rs))"
proof (induction rs arbitrary: s)
  case (Cons r rs)
  obtain k' t where r: "r = (k', t)" by (cases r)
  show ?case using Cons.IH by (cases "k' = k") (simp_all add: r own_key decision other_key)
qed simp

end

section \<open>Lemmas\<close>

lemma Allow_view:
  "bucketOf R (fst (Allow R l k t)) k' =
     (if k' = k then fst (rt_AllowN R (bucketOf R l k) t 1) else bucketOf R l k')"
  by (cases "rt_AllowN R (bucketOf R l k) t 1") (auto simp: Allow_def bucketOf_def Let_def split: option.splits)

lemma Allow_decision: "snd (Allow R l k t) = snd (rt_AllowN R (bucketOf R l k) t 1)"
  by (simp add: Allow_def bucketOf_def Let_def split: prod.splits)

interpretation kl: keyed_admission "Allow R" "bucketOf R" "\<lambda>b t. rt_AllowN R b t 1"
  for R :: "('r, 'l) rate_lib"
  by unfold_locales (simp_all add: Allow_view Allow_decision)

text \<open>
  (C34) Sources are isolated: in any interleaving of requests from any sources, the decisions for
  one key are those of a single token bucket serving that key's requests alone, starting from the
  key's current bucket (a fresh one for an unseen key).  No source can spend another's tokens.
\<close>

theorem Allow_isolated:
  "map snd (filter (\<lambda>(r, ok). fst r = k) (zip rs (admitRun (Allow R) l rs)))
     = soloRun (\<lambda>b t. rt_AllowN R b t 1) (bucketOf R l k) (map snd (filter (\<lambda>r. fst r = k) rs))"
  by (rule kl.run_isolated)

lemma cleanupKeys_keys:
  "fst (cleanupKeys ks cutoff m n) k =
     (if k \<in> set ks \<and> (\<exists>e. m k = Some e \<and> kle_lastSeen e < cutoff) then None else m k)"
  by (induction ks arbitrary: m n) (auto split: option.splits)

lemma cleanupKeys_count:
  "distinct ks \<Longrightarrow> snd (cleanupKeys ks cutoff m n) =
     n + length (filter (\<lambda>k. \<exists>e. m k = Some e \<and> kle_lastSeen e < cutoff) ks)"
proof (induction ks arbitrary: m n)
  case (Cons k ks)
  have "length (filter (\<lambda>k'. \<exists>e. (m(k := None)) k' = Some e \<and> kle_lastSeen e < cutoff) ks)
      = length (filter (\<lambda>k'. \<exists>e. m k' = Some e \<and> kle_lastSeen e < cutoff) ks)"
    using Cons.prems by (intro arg_cong [of _ _ length] filter_cong) auto
  with Cons show ?case by (simp split: option.splits)
qed simp

text \<open>
  The sweep, whatever order the map is ranged in: it forgets exactly the keys last seen
  before the cutoff, keeps every other key with its bucket untouched, and returns how many it
  forgot.
\<close>

theorem Cleanup_spec:
  assumes "enumerates ks (kl_keys l)"
  shows "kl_keys (fst (Cleanup ks l cutoff)) k =
           (case kl_keys l k of None \<Rightarrow> None
            | Some e \<Rightarrow> if kle_lastSeen e < cutoff then None else Some e)
       \<and> snd (Cleanup ks l cutoff) = card {k. \<exists>e. kl_keys l k = Some e \<and> kle_lastSeen e < cutoff}"
proof
  show "kl_keys (fst (Cleanup ks l cutoff)) k =
           (case kl_keys l k of None \<Rightarrow> None
            | Some e \<Rightarrow> if kle_lastSeen e < cutoff then None else Some e)"
    using enumerates_mem [OF assms] cleanupKeys_keys [of ks cutoff "kl_keys l" 0 k]
    by (auto simp: Cleanup_def split: prod.splits option.splits)
  have "card {k. \<exists>e. kl_keys l k = Some e \<and> kle_lastSeen e < cutoff}
      = card (set (filter (\<lambda>k. \<exists>e. kl_keys l k = Some e \<and> kle_lastSeen e < cutoff) ks))"
    using enumerates_mem [OF assms] by (intro arg_cong [of _ _ card]) auto
  also have "\<dots> = length (filter (\<lambda>k. \<exists>e. kl_keys l k = Some e \<and> kle_lastSeen e < cutoff) ks)"
    using assms by (intro distinct_card) (simp add: enumerates_def)
  finally show "snd (Cleanup ks l cutoff) = card {k. \<exists>e. kl_keys l k = Some e \<and> kle_lastSeen e < cutoff}"
    using assms cleanupKeys_count [of ks cutoff "kl_keys l" 0]
    by (auto simp: Cleanup_def enumerates_def split: prod.splits)
qed

theorem Cleanup_spec_witness:
  "kl_keys (fst (Cleanup [''a''] (fst (Allow countLib (newKeyedLimiter () 2) ''a'' 5)) 6)) ''a'' = None"
proof -
  have "enumerates [''a''] (kl_keys (fst (Allow countLib (newKeyedLimiter () 2) ''a'' 5)))"
    by (simp add: enumerates_def Allow_def newKeyedLimiter_def countLib_def)
  from Cleanup_spec [OF this, of 6 "''a''"] show ?thesis
    by (simp add: Allow_def newKeyedLimiter_def countLib_def)
qed

end
