(* ===== verification/Proxy.thy ===== *)
theory Proxy
  imports GoNet
begin

text \<open>
  Which client address the broker rate-limits by: \<^verbatim>\<open>internal/rendezvous/proxy.go\<close>, \<open>remoteIP\<close> of
  \<^verbatim>\<open>broker.go\<close>, and \<open>ValidateToken\<close> of \<^verbatim>\<open>token.go\<close>.  Of an HTTP request the code uses the
  remote address, the host and the header map, whose keys are in canonical MIME form.
\<close>

section \<open>Definitions\<close>

record http_request =
  rq_RemoteAddr :: string
  rq_Host :: string
  rq_Header :: "string \<Rightarrow> string list"

subsection \<open>Header access (\<open>net/textproto\<close>)\<close>

definition validHeaderFieldByte :: "char \<Rightarrow> bool" where
  "validHeaderFieldByte c \<longleftrightarrow>
     isDigit c \<or> (97 \<le> ord c \<and> ord c \<le> 122) \<or> (65 \<le> ord c \<and> ord c \<le> 90)
     \<or> c \<in> set ''!#$%&*+-.^_`|~'' \<or> ord c = 39"

fun canonicalKeyLoop :: "bool \<Rightarrow> string \<Rightarrow> string" where
  "canonicalKeyLoop upper [] = []"
| "canonicalKeyLoop upper (c # cs) =
     (if upper then upperChar c else lowerChar c) # canonicalKeyLoop (c = CHR ''-'') cs"

definition CanonicalMIMEHeaderKey :: "string \<Rightarrow> string" where
  "CanonicalMIMEHeaderKey s = (if list_all validHeaderFieldByte s then canonicalKeyLoop True s else s)"

definition HeaderValues :: "http_request \<Rightarrow> string \<Rightarrow> string list" where
  "HeaderValues r key = rq_Header r (CanonicalMIMEHeaderKey key)"

definition HeaderGet :: "http_request \<Rightarrow> string \<Rightarrow> string" where
  "HeaderGet r key = (case HeaderValues r key of [] \<Rightarrow> [] | v # _ \<Rightarrow> v)"

subsection \<open>Trusted proxies\<close>

record trustedNet =
  tn_ipNet :: "ipnet option"

definition trustedNet_contains :: "trustedNet \<Rightarrow> ip option \<Rightarrow> bool" where
  "trustedNet_contains t ip =
     (case (ip, tn_ipNet t) of (Some i, Some n) \<Rightarrow> IPNetContains n i | _ \<Rightarrow> False)"

definition isProxySep :: "char \<Rightarrow> bool" where
  "isProxySep c \<longleftrightarrow> c = CHR '','' \<or> c = CHR '' '' \<or> ord c = 9 \<or> ord c = 10"

definition cidrErr :: "string \<Rightarrow> gerror" where
  "cidrErr s = Errorf ''invalid CIDR address: %s'' [s] []"

fun parseProxyFields :: "string list \<Rightarrow> trustedNet list res" where
  "parseProxyFields [] = Inr []"
| "parseProxyFields (raw # flds) =
     (let entry = TrimSpace raw in
      if entry = [] then parseProxyFields flds
      else if Contains entry ''/'' then
        (case ParseCIDR entry of
           None \<Rightarrow> Inl (Errorf ''trusted proxy %q: %w'' [entry] [cidrErr entry])
         | Some (_, ipNet) \<Rightarrow> map_sum id (\<lambda>rest. \<lparr>tn_ipNet = Some ipNet\<rparr> # rest) (parseProxyFields flds))
      else
        (case ParseIP entry of
           None \<Rightarrow> Inl (Errorf ''trusted proxy %q: not a valid IP or CIDR'' [entry] [])
         | Some ip \<Rightarrow>
             (let mask = (case To4 ip of None \<Rightarrow> 128 | Some _ \<Rightarrow> 32);
                  cidr = IPString ip @ ''/'' @ FormatNat mask in
              case ParseCIDR cidr of
                None \<Rightarrow> Inl (Errorf ''trusted proxy %q: %w'' [entry] [cidrErr cidr])
              | Some (_, ipNet) \<Rightarrow> map_sum id (\<lambda>rest. \<lparr>tn_ipNet = Some ipNet\<rparr> # rest) (parseProxyFields flds))))"

definition ParseTrustedProxies :: "string \<Rightarrow> trustedNet list res" where
  "ParseTrustedProxies spec0 =
     (let spec = TrimSpace spec0 in
      if spec = [] then Inr [] else parseProxyFields (FieldsFunc isProxySep spec))"

fun isTrusted :: "ip \<Rightarrow> trustedNet list \<Rightarrow> bool" where
  "isTrusted ip [] = False"
| "isTrusted ip (t # ts) = (if trustedNet_contains t (Some ip) then True else isTrusted ip ts)"

definition remoteIP :: "http_request \<Rightarrow> string" where
  "remoteIP r =
     (case SplitHostPort (TrimSpace (rq_RemoteAddr r)) of
        Inl err \<Rightarrow> TrimSpace (rq_RemoteAddr r)
      | Inr (host, _) \<Rightarrow> if host = [] then TrimSpace (rq_RemoteAddr r) else host)"

text \<open>The loop over \<open>parts\<close> from the last index down; the list is passed reversed.\<close>

fun forwardedLoop :: "trustedNet list \<Rightarrow> string list \<Rightarrow> string option" where
  "forwardedLoop trusted [] = None"
| "forwardedLoop trusted (part # parts) =
     (let candidate = TrimSpace part in
      if candidate = [] then forwardedLoop trusted parts
      else (case ParseIP candidate of
              None \<Rightarrow> forwardedLoop trusted parts
            | Some ip \<Rightarrow> if \<not> isTrusted ip trusted then Some (IPString ip) else forwardedLoop trusted parts))"

definition clientIP :: "unicode \<Rightarrow> http_request \<Rightarrow> trustedNet list \<Rightarrow> string \<Rightarrow> string" where
  "clientIP U r trusted header =
     (let direct = remoteIP r in
      if length trusted = 0 \<or> header = [] then direct
      else (case ParseIP direct of
        None \<Rightarrow> direct
      | Some directIP \<Rightarrow>
          if \<not> isTrusted directIP trusted then direct
          else if EqualFold U header ''X-Forwarded-For'' then
            (let values = HeaderValues r header in
             if values = [] then direct
             else (case forwardedLoop trusted (rev (SplitByte (JoinWith values '','') (CHR '',''))) of
                     None \<Rightarrow> direct | Some s \<Rightarrow> s))
          else
            (let value = TrimSpace (HeaderGet r header) in
             if value = [] then direct
             else (case ParseIP value of None \<Rightarrow> direct | Some ip \<Rightarrow> IPString ip))))"

subsection \<open>Rendezvous tokens\<close>

definition maxTokenLength :: nat where [simp]: "maxTokenLength = 128"

text \<open>
  The source ranges over runes; a byte outside ASCII decodes to a rune above \<open>0x7e\<close> (or to the
  replacement rune), so the check per byte rejects the same tokens.
\<close>

definition ValidateToken :: "string \<Rightarrow> string res" where
  "ValidateToken token0 =
     (let token = TrimSpace token0 in
      if token = [] then Inl (errors_New ''rendezvous token is required'')
      else if length token > maxTokenLength then
        Inl (Errorf ''rendezvous token exceeds %d bytes'' [FormatNat maxTokenLength] [])
      else if list_ex (\<lambda>c. ord c < 33 \<or> ord c > 126) token then
        Inl (errors_New ''rendezvous token must use visible ASCII characters only'')
      else Inr token)"

text \<open>A forwarded entry the loop passes over: blank, not an address, or a trusted hop.\<close>

definition skippedHop :: "trustedNet list \<Rightarrow> string \<Rightarrow> bool" where
  "skippedHop tr part \<longleftrightarrow>
     TrimSpace part = [] \<or> (case ParseIP (TrimSpace part) of None \<Rightarrow> True | Some ip \<Rightarrow> isTrusted ip tr)"

text \<open>
  How a proxy adds the address it sees to \<open>X-Forwarded-For\<close>: as a header line of its own, at the end
  of the last line, or with all lines merged into one, as nginx does with
  \<^verbatim>\<open>$proxy_add_x_forwarded_for\<close> (\<^verbatim>\<open>docs/reverse-proxy.md\<close>).
\<close>

datatype forwarding = OwnLine | LastLine | MergedLine

fun addHop :: "string list \<Rightarrow> forwarding \<times> string \<Rightarrow> string list" where
  "addHop vs (OwnLine, hop) = vs @ [hop]"
| "addHop vs (LastLine, hop) = (if vs = [] then [hop] else butlast vs @ [last vs @ '', '' @ hop])"
| "addHop vs (MergedLine, hop) = [JoinWith (vs @ [hop]) '', '']"

text \<open>The entries of a list of header values, as the resolution sees them.\<close>

definition forwardedEntries :: "string list \<Rightarrow> string list" where
  "forwardedEntries vs = (if vs = [] then [] else map TrimSpace (SplitByte (JoinWith vs '','') (CHR '','')))"

section \<open>Lemmas\<close>

lemma SplitFunc_not_Nil [simp]: "SplitFunc f s \<noteq> []"
  by (induction s) (auto split: list.splits)

lemma SplitFunc_sep:
  "f c \<Longrightarrow> SplitFunc f (s @ c # t) = SplitFunc f s @ SplitFunc f t"
  by (induction s) (auto split: list.splits)

lemma SplitFunc_none: "list_all (\<lambda>c. \<not> f c) s \<Longrightarrow> SplitFunc f s = [s]"
  by (induction s) (auto split: list.splits)

lemma JoinWith_snoc: "vs \<noteq> [] \<Longrightarrow> JoinWith (vs @ [v]) sep = JoinWith vs sep @ sep @ v"
  by (induction vs sep rule: JoinWith.induct) auto

lemma SplitByte_Join_snoc:
  "SplitByte (JoinWith (vs @ [v]) [c]) c =
     (if vs = [] then [] else SplitByte (JoinWith vs [c]) c) @ SplitByte v c"
  by (cases "vs = []") (simp_all add: JoinWith_snoc SplitByte_def SplitFunc_sep)

lemma forwardedLoop_append:
  "forwardedLoop tr (xs @ ys) =
     (case forwardedLoop tr xs of None \<Rightarrow> forwardedLoop tr ys | Some s \<Rightarrow> Some s)"
  by (induction xs) (auto simp: Let_def split: option.splits)

lemma forwardedLoop_skipped: "list_all (skippedHop tr) xs \<Longrightarrow> forwardedLoop tr xs = None"
  by (induction xs) (auto simp: skippedHop_def Let_def split: option.splits)

lemma forwardedLoop_Some:
  "forwardedLoop tr ps = Some s \<longleftrightarrow>
     (\<exists>xs p ys ip. ps = xs @ p # ys \<and> list_all (skippedHop tr) xs \<and> TrimSpace p \<noteq> []
        \<and> ParseIP (TrimSpace p) = Some ip \<and> \<not> isTrusted ip tr \<and> s = IPString ip)" (is "?L \<longleftrightarrow> ?R")
proof
  show "?L \<Longrightarrow> ?R"
  proof (induction ps)
    case (Cons p ps)
    show ?case
    proof (cases "skippedHop tr p")
      case True
      with Cons.prems have "forwardedLoop tr ps = Some s"
        by (auto simp: skippedHop_def Let_def split: option.splits if_splits)
      then obtain xs q ys ip where *: "ps = xs @ q # ys" "list_all (skippedHop tr) xs" "TrimSpace q \<noteq> []"
        "ParseIP (TrimSpace q) = Some ip" "\<not> isTrusted ip tr" "s = IPString ip"
        using Cons.IH by blast
      with True have "p # ps = (p # xs) @ q # ys" "list_all (skippedHop tr) (p # xs)" by simp_all
      with * show ?thesis by blast
    next
      case False
      with Cons.prems obtain ip where "TrimSpace p \<noteq> []" "ParseIP (TrimSpace p) = Some ip"
        "\<not> isTrusted ip tr" "s = IPString ip"
        by (auto simp: skippedHop_def Let_def split: option.splits if_splits)
      then show ?thesis by (intro exI [of _ "[]"] exI [of _ p] exI [of _ ps] exI [of _ ip]) simp
    qed
  qed simp
  show "?R \<Longrightarrow> ?L" by (auto simp: forwardedLoop_append forwardedLoop_skipped Let_def)
qed

lemma TrimSpace_blank [simp]: "TrimSpace (CHR 0x20 # s) = TrimSpace s"
  by (simp add: TrimSpace_def TrimLeftSpace_def spaceSeqs_def startsWith_def)

lemma SplitByte_sep: "SplitByte (s @ c # t) c = SplitByte s c @ SplitByte t c"
  by (simp add: SplitByte_def SplitFunc_sep)

lemma trimmed_blank: "map TrimSpace (SplitByte (CHR 0x20 # t) (CHR '','')) = map TrimSpace (SplitByte t (CHR '',''))"
  by (simp add: SplitByte_def split: list.splits)

lemma trimmed_sep:
  "map TrimSpace (SplitByte (s @ '','' @ t) (CHR '','')) = map TrimSpace (SplitByte s (CHR '','')) @ map TrimSpace (SplitByte t (CHR '',''))"
  "map TrimSpace (SplitByte (s @ '', '' @ t) (CHR '','')) = map TrimSpace (SplitByte s (CHR '','')) @ map TrimSpace (SplitByte t (CHR '',''))"
  by (simp_all add: SplitByte_sep trimmed_blank)

lemma trimmed_Join:
  assumes "sep = '','' \<or> sep = '', ''"
  shows "map TrimSpace (SplitByte (JoinWith vs sep) (CHR '','')) = (if vs = [] then [[]] else forwardedEntries vs)"
  using assms
  by (induction vs sep rule: JoinWith.induct)
     (auto simp: forwardedEntries_def trimmed_sep [simplified] trimmed_blank SplitByte_def [of "[]"])

lemma forwardedEntries_append: "forwardedEntries (vs @ ws) = forwardedEntries vs @ forwardedEntries ws"
proof (induction vs "'',''" rule: JoinWith.induct)
  case (2 v)
  then show ?case by (cases ws) (simp_all add: forwardedEntries_def trimmed_sep [simplified] trimmed_blank)
qed (simp_all add: forwardedEntries_def trimmed_sep [simplified] trimmed_blank)

lemma no_comma: "\<not> Contains v '','' \<Longrightarrow> SplitByte v (CHR '','') = [v]"
proof -
  assume "\<not> Contains v '',''"
  then have "list_all (\<lambda>c. \<not> c = CHR '','') v" by (induction v) (auto simp: startsWith_def)
  then show ?thesis by (simp add: SplitByte_def SplitFunc_none)
qed

lemma forwardedEntries_single: "forwardedEntries [v] = map TrimSpace (SplitByte v (CHR '',''))"
  by (simp add: forwardedEntries_def)

lemma forwardedEntries_addHop:
  assumes "\<not> Contains hop '',''"
  shows "forwardedEntries (addHop vs (w, hop)) = forwardedEntries vs @ [TrimSpace hop]"
proof (cases w)
  case OwnLine
  then show ?thesis by (simp add: forwardedEntries_append forwardedEntries_single no_comma [OF assms])
next
  case LastLine
  show ?thesis
  proof (cases "vs = []")
    case False
    have "forwardedEntries vs = forwardedEntries (butlast vs) @ forwardedEntries [last vs]"
      using forwardedEntries_append [of "butlast vs" "[last vs]"] False by simp
    with False LastLine show ?thesis
      by (simp add: forwardedEntries_append forwardedEntries_single trimmed_sep [simplified] trimmed_blank no_comma [OF assms])
  qed (simp add: LastLine forwardedEntries_single forwardedEntries_def [of "[]"] no_comma [OF assms])
next
  case MergedLine
  then have "forwardedEntries (addHop vs (w, hop)) = forwardedEntries (vs @ [hop])"
    by (simp add: forwardedEntries_single trimmed_Join)
  then show ?thesis by (simp add: forwardedEntries_append forwardedEntries_single no_comma [OF assms])
qed

lemma forwardedEntries_hops:
  assumes "list_all (\<lambda>h. \<not> Contains (snd h) '','') hs"
  shows "forwardedEntries (foldl addHop vs hs) = forwardedEntries vs @ map (TrimSpace \<circ> snd) hs"
  using assms by (induction hs arbitrary: vs) (auto simp: forwardedEntries_addHop)

lemma forwardedLoop_trimmed: "forwardedLoop tr (map TrimSpace ps) = forwardedLoop tr ps"
  by (induction ps) (auto simp: Let_def split: option.splits)

lemma skippedHop_trimmed: "skippedHop tr (TrimSpace p) = skippedHop tr p"
  by (simp add: skippedHop_def)

lemma clientIP_forwarded:
  assumes "ParseIP (remoteIP r) = Some pip" "isTrusted pip trusted" "header \<noteq> []"
    and "EqualFold U header ''X-Forwarded-For''"
  shows "clientIP U r trusted header = (case forwardedLoop trusted (rev (forwardedEntries (HeaderValues r header))) of
           None \<Rightarrow> remoteIP r | Some s \<Rightarrow> s)"
proof -
  have "trusted \<noteq> []" using assms(2) by auto
  then show ?thesis using assms
    by (simp add: clientIP_def Let_def forwardedEntries_def rev_map forwardedLoop_trimmed)
qed

text \<open>
  (C35) A client cannot choose its rate-limit key.  When it connects directly (its address is not
  a trusted proxy, or no proxy is configured) the request's headers are ignored.  When it comes
  through trusted proxies that add the address they see to \<open>X-Forwarded-For\<close>, on a line of their own
  or after a comma on the line the client sent, with further trusted hops after it, the result is
  that address whatever header values the client sent in front.  When the configured header is
  another one, such as \<open>X-Real-IP\<close>, which the trusted proxy sets and does not pass on, the result is
  the address the proxy put there.
\<close>

theorem clientIP_not_spoofable:
  "(ParseIP (remoteIP r) = None \<or> trusted = [] \<or> \<not> isTrusted (the (ParseIP (remoteIP r))) trusted
      \<longrightarrow> clientIP U r trusted header = remoteIP r)
   \<and> (ParseIP (remoteIP r) = Some pip \<and> isTrusted pip trusted \<and> header \<noteq> []
      \<and> TrimSpace real \<noteq> [] \<and> ParseIP (TrimSpace real) = Some ip
      \<and> (EqualFold U header ''X-Forwarded-For''
           \<and> HeaderValues r header = foldl addHop sent ((way, real) # hops)
           \<and> list_all (\<lambda>h. \<not> Contains (snd h) '','') ((way, real) # hops)
           \<and> list_all (\<lambda>h. skippedHop trusted (snd h)) hops \<and> \<not> isTrusted ip trusted
         \<or> \<not> EqualFold U header ''X-Forwarded-For'' \<and> HeaderValues r header = [real])
      \<longrightarrow> clientIP U r trusted header = IPString ip)"
proof (intro conjI impI)
  assume "ParseIP (remoteIP r) = None \<or> trusted = [] \<or> \<not> isTrusted (the (ParseIP (remoteIP r))) trusted"
  then show "clientIP U r trusted header = remoteIP r"
    by (auto simp: clientIP_def Let_def split: option.splits)
next
  assume a: "ParseIP (remoteIP r) = Some pip \<and> isTrusted pip trusted \<and> header \<noteq> []
      \<and> TrimSpace real \<noteq> [] \<and> ParseIP (TrimSpace real) = Some ip
      \<and> (EqualFold U header ''X-Forwarded-For''
           \<and> HeaderValues r header = foldl addHop sent ((way, real) # hops)
           \<and> list_all (\<lambda>h. \<not> Contains (snd h) '','') ((way, real) # hops)
           \<and> list_all (\<lambda>h. skippedHop trusted (snd h)) hops \<and> \<not> isTrusted ip trusted
         \<or> \<not> EqualFold U header ''X-Forwarded-For'' \<and> HeaderValues r header = [real])"
  have t: "trusted \<noteq> []" using a by auto
  show "clientIP U r trusted header = IPString ip"
  proof (cases "EqualFold U header ''X-Forwarded-For''")
    case True
    then have v: "HeaderValues r header = foldl addHop sent ((way, real) # hops)"
        "list_all (\<lambda>h. \<not> Contains (snd h) '','') ((way, real) # hops)" using a by simp_all
    have "list_all (skippedHop trusted) (rev (map (TrimSpace \<circ> snd) hops))"
      using True a by (auto simp: list_all_iff skippedHop_trimmed)
    then have "forwardedLoop trusted (rev (forwardedEntries (HeaderValues r header))) = Some (IPString ip)"
      unfolding v(1) forwardedEntries_hops [OF v(2)]
      using True a by (simp add: forwardedLoop_append forwardedLoop_skipped)
    with True a show ?thesis by (simp add: clientIP_forwarded)
  qed (use a t in \<open>simp add: clientIP_def Let_def HeaderGet_def\<close>)
qed

text \<open>A forged address in front, the client's own added by nginx after a comma, and a trusted hop.\<close>

theorem clientIP_not_spoofable_witness:
  "clientIP idUnicode
     \<lparr>rq_RemoteAddr = ''10.0.0.1:4000'', rq_Host = ''h'',
      rq_Header = (\<lambda>k. if k = ''X-Forwarded-For'' then [''1.2.3.4, 9.9.9.9, 203.0.113.7, 10.0.0.1''] else [])\<rparr>
     (projr (ParseTrustedProxies ''10.0.0.1'')) ''x-forwarded-for'' = ''203.0.113.7''"
proof -
  let ?r = "\<lparr>rq_RemoteAddr = ''10.0.0.1:4000'', rq_Host = ''h'',
      rq_Header = (\<lambda>k. if k = ''X-Forwarded-For'' then [''1.2.3.4, 9.9.9.9, 203.0.113.7, 10.0.0.1''] else [])\<rparr>"
  let ?t = "projr (ParseTrustedProxies ''10.0.0.1'')"
  have t: "?t = [\<lparr>tn_ipNet = Some \<lparr>net_ip = [10, 0, 0, 1], net_mask = [255, 255, 255, 255]\<rparr>\<rparr>]"
    by code_simp
  let ?pip = "v4InV6Prefix @ [10, 0, 0, 1]" and ?ip = "v4InV6Prefix @ [203, 0, 113, 7]"
  have f: "ParseIP (remoteIP ?r) = Some ?pip" "EqualFold idUnicode ''x-forwarded-for'' ''X-Forwarded-For''"
    "HeaderValues ?r ''x-forwarded-for''
       = foldl addHop [''1.2.3.4, 9.9.9.9''] ((MergedLine, ''203.0.113.7'') # [(LastLine, ''10.0.0.1'')])"
    "\<not> Contains ''203.0.113.7'' '',''" "\<not> Contains ''10.0.0.1'' '',''"
    "TrimSpace ''203.0.113.7'' = ''203.0.113.7''" "TrimSpace ''10.0.0.1'' = ''10.0.0.1''"
    "ParseIP ''203.0.113.7'' = Some ?ip" "ParseIP ''10.0.0.1'' = Some ?pip" "IPString ?ip = ''203.0.113.7''"
    by code_simp+
  have trusted: "isTrusted ?pip ?t" "\<not> isTrusted ?ip ?t"
    unfolding t by (simp_all add: trustedNet_contains_def IPNetContains_def networkNumberAndMask_def
        maskBytes_def To4_def v4InV6Prefix_def)
  then have "skippedHop ?t ''10.0.0.1''" unfolding skippedHop_def f(7,9) by simp
  with f trusted clientIP_not_spoofable [of ?r ?t idUnicode "''x-forwarded-for''" ?pip "''203.0.113.7''" ?ip
      "[''1.2.3.4, 9.9.9.9'']" MergedLine "[(LastLine, ''10.0.0.1'')]"]
  show ?thesis by simp
qed

lemma ValidateToken_Inr:
  "ValidateToken t = Inr u \<longleftrightarrow>
     u = TrimSpace t \<and> 1 \<le> length u \<and> length u \<le> 128 \<and> list_all (\<lambda>c. 33 \<le> ord c \<and> ord c \<le> 126) u"
  by (auto simp: ValidateToken_def Let_def Suc_le_eq list_ex_iff list_all_iff not_less) force+

text \<open>
  Token validation accepts exactly the tokens that, trimmed, have 1 to 128 visible ASCII
  characters, returns the trimmed token, and is idempotent.
\<close>

theorem ValidateToken_iff:
  "ValidateToken t = Inr u \<longleftrightarrow>
     u = TrimSpace t \<and> 1 \<le> length u \<and> length u \<le> 128 \<and> list_all (\<lambda>c. 33 \<le> ord c \<and> ord c \<le> 126) u
     \<and> ValidateToken u = Inr u"
  unfolding ValidateToken_Inr by auto

end
