(* ===== verification/Broker.thy ===== *)
theory Broker
  imports Config GoBase64 SignalTypes Limiter Proxy
begin

text \<open>
  The rendezvous broker of \<^verbatim>\<open>internal/rendezvous/broker.go\<close>: pairing, relaying, unregistering and
  evicting peers.  The critical sections of the code are functions from the broker to the broker
  and a list of effects in program order: writes issued on a peer's WebSocket, closed
  connections, log lines, and goroutines started.  What the environment decides is an argument:
  the clock, the randomness of \<open>randomID\<close>, whether a write fails, and the order in which a map is
  ranged over.  WebSocket connections are numbers; a peer's fields are never changed after
  registration, so a \<open>*peer\<close> is the record itself.
\<close>

section \<open>Definitions\<close>

subsection \<open>Constants\<close>

definition second :: time where "second = 1000000000"
definition minute :: time where "minute = 60 * second"

definition initialReadTimeout :: time where "initialReadTimeout = 15 * second"
definition writeTimeout :: time where "writeTimeout = 10 * second"
definition maxReadBytes :: nat where "maxReadBytes = 2 ^ 20"
definition DefaultWaiterTTL :: time where "DefaultWaiterTTL = 5 * minute"
definition DefaultSessionTTL :: time where "DefaultSessionTTL = 60 * minute"
definition DefaultJanitorInterval :: time where "DefaultJanitorInterval = 30 * second"
definition DefaultUpgradeRatePerMinute :: int where "DefaultUpgradeRatePerMinute = 30"
definition DefaultUpgradeBurst :: int where "DefaultUpgradeBurst = 10"
definition DefaultLimiterIdleTTL :: time where "DefaultLimiterIdleTTL = 60 * minute"

subsection \<open>State\<close>

record peer =
  p_id :: string
  p_mode :: PeerMode
  p_rendezvousKey :: string
  p_version :: string
  p_conn :: nat
  p_createdAt :: time

record session =
  s_id :: string
  s_rendezvousKey :: string
  s_first :: peer
  s_second :: peer
  s_createdAt :: time

record ('r, 'l) broker =
  b_waiterTTL :: time
  b_sessionTTL :: time
  b_janitorInterval :: time
  b_limiterIdleTTL :: time
  b_trustedProxies :: "trustedNet list"
  b_trustedProxyHeader :: string
  b_ipLimiter :: "('r, 'l) keyedLimiter"
  b_waiting :: "string \<rightharpoonup> peer"
  b_activeKey :: "string \<rightharpoonup> string"
  b_sessions :: "string \<rightharpoonup> session"
  b_stopped :: bool

record broker_options =
  bo_TrustedProxies :: "string list"
  bo_TrustedProxyHeader :: string
  bo_RatePerMinute :: int
  bo_RateBurst :: int

datatype logval = LStr string | LErr gerror

datatype effect =
    Send peer message
  | SendConn nat message
  | HttpError nat string
  | CloseConn nat
  | Log string "(string \<times> logval) list"
  | GoDeliver string peer message

subsection \<open>Construction\<close>

definition NewBrokerWithOptions ::
  "('r, 'l) rate_lib \<Rightarrow> broker_options \<Rightarrow> ('r, 'l) broker res" where
  "NewBrokerWithOptions R opts =
     (case ParseTrustedProxies (JoinWith (bo_TrustedProxies opts) '','') of
        Inl err \<Rightarrow> Inl err
      | Inr trusted \<Rightarrow>
          (let header0 = TrimSpace (bo_TrustedProxyHeader opts);
               header = (if header0 = [] \<and> length trusted > 0 then ''X-Forwarded-For'' else header0);
               ratePerMinute = (if bo_RatePerMinute opts \<le> 0 then DefaultUpgradeRatePerMinute
                                else bo_RatePerMinute opts);
               burst = (if bo_RateBurst opts \<le> 0 then DefaultUpgradeBurst else bo_RateBurst opts) in
           Inr \<lparr>b_waiterTTL = DefaultWaiterTTL, b_sessionTTL = DefaultSessionTTL,
                b_janitorInterval = DefaultJanitorInterval, b_limiterIdleTTL = DefaultLimiterIdleTTL,
                b_trustedProxies = trusted, b_trustedProxyHeader = header,
                b_ipLimiter = newKeyedLimiter (rt_Every R (minute div ratePerMinute)) burst,
                b_waiting = Map.empty, b_activeKey = Map.empty, b_sessions = Map.empty,
                b_stopped = False\<rparr>))"

definition NewBroker :: "('r, 'l) rate_lib \<Rightarrow> ('r, 'l) broker res" where
  "NewBroker R = NewBrokerWithOptions R \<lparr>bo_TrustedProxies = [], bo_TrustedProxyHeader = [],
                                          bo_RatePerMinute = 0, bo_RateBurst = 0\<rparr>"

definition SetTimeouts :: "('r, 'l) broker \<Rightarrow> time \<Rightarrow> time \<Rightarrow> time \<Rightarrow> ('r, 'l) broker" where
  "SetTimeouts b waiter session interval =
     b\<lparr>b_waiterTTL := (if waiter > 0 then waiter else b_waiterTTL b),
       b_sessionTTL := (if session > 0 then session else b_sessionTTL b),
       b_janitorInterval := (if interval > 0 then interval else b_janitorInterval b)\<rparr>"

subsection \<open>Messages\<close>

definition brokerError :: "string \<Rightarrow> string \<Rightarrow> message" where
  "brokerError code msg = (Message MessageTypeError)\<lparr>ms_Error := Some \<lparr>er_Code = code, er_Message = msg\<rparr>\<rparr>"

definition genericBrokerMessage :: "string \<Rightarrow> string" where
  "genericBrokerMessage code =
     (if code = ''register-failed'' then ''registration rejected''
      else if code = ''pairing-failed'' then ''pairing rejected''
      else if code = ''relay-failed'' then ''signaling relay failed''
      else if code = ''invalid-signal'' then ''signal payload is required''
      else if code = ''unexpected-message'' then ''only signal messages are allowed after registration''
      else if code = ''waiter-expired'' then ''rendezvous waiter expired''
      else if code = ''session-expired'' then ''session expired''
      else ''broker error'')"

definition randomID :: "bytes res \<Rightarrow> string res" where
  "randomID rnd = (case rnd of Inl err \<Rightarrow> Inl err | Inr buf \<Rightarrow> Inr (EncodeToString (take 18 buf)))"

subsection \<open>Registration and pairing\<close>

definition registerPeer ::
  "unicode \<Rightarrow> nat \<Rightarrow> gerror option \<Rightarrow> message res \<Rightarrow> gerror option \<Rightarrow> bytes res \<Rightarrow> time \<Rightarrow> peer res" where
  "registerPeer U conn setDeadline readJSON clearDeadline rnd now =
     (case setDeadline of Some err \<Rightarrow> Inl err | None \<Rightarrow>
      (case readJSON of
         Inl err \<Rightarrow> Inl (Errorf ''read registration: %w'' [] [err])
       | Inr message \<Rightarrow>
      (case clearDeadline of Some err \<Rightarrow> Inl err | None \<Rightarrow>
      (case (ms_Type message = MessageTypeRegister, ms_Register message) of
         (True, Some reg) \<Rightarrow>
      (case ParsePeerMode U (rg_Mode reg) of
         Inl err \<Rightarrow> Inl err
       | Inr mode \<Rightarrow>
           (let key = TrimSpace (rg_RendezvousToken reg) in
            if key = [] then Inl (errors_New ''rendezvous token is required'')
            else
      (case randomID rnd of
         Inl err \<Rightarrow> Inl err
       | Inr pid \<Rightarrow> Inr \<lparr>p_id = pid, p_mode = mode, p_rendezvousKey = key,
                       p_version = TrimSpace (rg_Version reg), p_conn = conn, p_createdAt = now\<rparr>)))
       | _ \<Rightarrow> Inl (errors_New ''first message must be a register request'')))))"

definition pairedMessage :: "string \<Rightarrow> bool \<Rightarrow> PeerMode \<Rightarrow> message" where
  "pairedMessage sessionID initiator peerMode =
     (Message MessageTypePaired)
       \<lparr>ms_Paired := Some \<lparr>pd_SessionID = sessionID, pd_Initiator = initiator, pd_PeerMode = peerMode\<rparr>\<rparr>"

definition tryPair ::
  "('r, 'l) broker \<Rightarrow> peer \<Rightarrow> bytes res \<Rightarrow> time \<Rightarrow> ('r, 'l) broker \<times> effect list \<times> gerror option" where
  "tryPair b p rnd now =
     (if b_activeKey b (p_rendezvousKey p) \<noteq> None then
        (b, [], Some (errors_New ''a session is already active for this rendezvous key''))
      else (case b_waiting b (p_rendezvousKey p) of
        None \<Rightarrow> (b\<lparr>b_waiting := (b_waiting b)(p_rendezvousKey p \<mapsto> p)\<rparr>, [], None)
      | Some waiting \<Rightarrow>
          if p_id waiting = p_id p then (b, [], Some (errors_New ''peer is already waiting''))
          else if p_mode waiting = p_mode p then
            (b, [], Some (errors_New ''need exactly one expose peer and one connect peer per rendezvous key''))
          else (case randomID rnd of
             Inl err \<Rightarrow> (b, [], Some err)
           | Inr sessionID \<Rightarrow>
               (let s = \<lparr>s_id = sessionID, s_rendezvousKey = p_rendezvousKey p, s_first = waiting,
                         s_second = p, s_createdAt = now\<rparr>;
                    waitingMessage = pairedMessage sessionID (p_mode waiting = ModeConnect) (p_mode p);
                    peerMessage = pairedMessage sessionID (p_mode p = ModeConnect) (p_mode waiting) in
                (b\<lparr>b_waiting := (b_waiting b)(p_rendezvousKey p := None),
                   b_activeKey := (b_activeKey b)(p_rendezvousKey p \<mapsto> sessionID),
                   b_sessions := (b_sessions b)(sessionID \<mapsto> s)\<rparr>,
                 [GoDeliver sessionID waiting waitingMessage, GoDeliver sessionID p peerMessage,
                  Log ''paired'' [(''session_id'', LStr sessionID), (''rendezvous_token'', LStr (p_rendezvousKey p)),
                     (''peer_a'', LStr (p_id waiting)), (''peer_a_mode'', LStr (p_mode waiting)),
                     (''peer_b'', LStr (p_id p)), (''peer_b_mode'', LStr (p_mode p))]],
                 None)))))"

subsection \<open>Sessions\<close>

fun findSessionLoop :: "string list \<Rightarrow> (string \<rightharpoonup> session) \<Rightarrow> peer \<Rightarrow> peer option \<times> string" where
  "findSessionLoop [] sessions from = (None, [])"
| "findSessionLoop (sid # ids) sessions from =
     (case sessions sid of
        None \<Rightarrow> findSessionLoop ids sessions from
      | Some s \<Rightarrow>
          if p_id from = p_id (s_first s) then (Some (s_second s), sid)
          else if p_id from = p_id (s_second s) then (Some (s_first s), sid)
          else findSessionLoop ids sessions from)"

definition findSessionPeerLocked :: "string list \<Rightarrow> ('r, 'l) broker \<Rightarrow> peer \<Rightarrow> peer option \<times> string" where
  "findSessionPeerLocked ks b from = findSessionLoop ks (b_sessions b) from"

definition sessionPeers ::
  "string list \<Rightarrow> ('r, 'l) broker \<Rightarrow> peer \<Rightarrow> (peer option \<times> string) res" where
  "sessionPeers ks b from =
     (case findSessionPeerLocked ks b from of (target, sessionID) \<Rightarrow>
        if sessionID = [] then Inl (errors_New ''peer is not paired'') else Inr (target, sessionID))"

text \<open>\<open>sendErr\<close> is what \<open>send\<close> returns; a nil target would panic, a paired peer has one.\<close>

definition relaySignal ::
  "string list \<Rightarrow> ('r, 'l) broker \<Rightarrow> peer \<Rightarrow> Signal \<Rightarrow> gerror option \<Rightarrow> effect list \<times> gerror option" where
  "relaySignal ks b from signal sendErr =
     (case sessionPeers ks b from of
        Inl err \<Rightarrow> ([], Some err)
      | Inr (None, _) \<Rightarrow> ([], Some (errors_New ''panic: nil peer''))
      | Inr (Some target, _) \<Rightarrow>
          ([Send target ((Message MessageTypeSignal)\<lparr>ms_Signal := Some signal\<rparr>)], sendErr))"

definition peerLeftMessage :: "string \<Rightarrow> message" where
  "peerLeftMessage reason = (Message MessageTypePeerLeft)\<lparr>ms_PeerLeft := Some \<lparr>pl_Reason = reason\<rparr>\<rparr>"

definition unregisterPeer ::
  "string list \<Rightarrow> ('r, 'l) broker \<Rightarrow> peer option \<Rightarrow> string \<Rightarrow> ('r, 'l) broker \<times> effect list" where
  "unregisterPeer ks b mp reason =
     (case mp of None \<Rightarrow> (b, []) | Some p \<Rightarrow>
      if (case b_waiting b (p_rendezvousKey p) of None \<Rightarrow> False | Some waiting \<Rightarrow> p_id waiting = p_id p) then
        (b\<lparr>b_waiting := (b_waiting b)(p_rendezvousKey p := None)\<rparr>, [])
      else (case findSessionPeerLocked ks b p of (target, sessionID) \<Rightarrow>
        if sessionID = [] then (b, [])
        else (case b_sessions b sessionID of
           None \<Rightarrow> (b, [])
         | Some s \<Rightarrow>
             (b\<lparr>b_sessions := (b_sessions b)(sessionID := None),
                b_activeKey := (b_activeKey b)(s_rendezvousKey s := None)\<rparr>,
              (case target of None \<Rightarrow> [] | Some t \<Rightarrow> [Send t (peerLeftMessage reason)])
              @ [Log ''session_closed'' [(''session_id'', LStr sessionID), (''peer_id'', LStr (p_id p)),
                                         (''reason'', LStr reason)]]))))"

text \<open>The goroutine that delivers a paired message, given what its \<open>send\<close> returns.\<close>

definition deliverPaired ::
  "string list \<Rightarrow> ('r, 'l) broker \<Rightarrow> string \<Rightarrow> peer \<Rightarrow> message \<Rightarrow> gerror option \<Rightarrow> ('r, 'l) broker \<times> effect list" where
  "deliverPaired ks b sessionID p message sendErr =
     (case sendErr of
        None \<Rightarrow> (b, [Send p message])
      | Some err \<Rightarrow>
          (case unregisterPeer ks b (Some p) ''pair delivery failed'' of (b', es) \<Rightarrow>
             (b', Send p message # Log ''pair_delivery_failed'' [(''session_id'', LStr sessionID),
                     (''peer_id'', LStr (p_id p)), (''err'', LErr err)] # es)))"

subsection \<open>The janitor\<close>

record evictedSession =
  es_id :: string
  es_first :: peer
  es_second :: peer

fun collectWaiters ::
  "string list \<Rightarrow> time \<Rightarrow> (string \<rightharpoonup> peer) \<Rightarrow> (string \<rightharpoonup> peer) \<times> peer list" where
  "collectWaiters [] cutoff waiting = (waiting, [])"
| "collectWaiters (key # keys) cutoff waiting =
     (case waiting key of
        None \<Rightarrow> collectWaiters keys cutoff waiting
      | Some p \<Rightarrow>
          if p_createdAt p < cutoff then
            (case collectWaiters keys cutoff (waiting(key := None)) of (w, ps) \<Rightarrow> (w, p # ps))
          else collectWaiters keys cutoff waiting)"

fun collectSessions ::
  "string list \<Rightarrow> time \<Rightarrow> (string \<rightharpoonup> session) \<Rightarrow> (string \<rightharpoonup> string)
    \<Rightarrow> (string \<rightharpoonup> session) \<times> (string \<rightharpoonup> string) \<times> evictedSession list" where
  "collectSessions [] cutoff sessions activeKey = (sessions, activeKey, [])"
| "collectSessions (sid # ids) cutoff sessions activeKey =
     (case sessions sid of
        None \<Rightarrow> collectSessions ids cutoff sessions activeKey
      | Some s \<Rightarrow>
          if s_createdAt s < cutoff then
            (case collectSessions ids cutoff (sessions(sid := None)) (activeKey(s_rendezvousKey s := None)) of
               (ss, ak, es) \<Rightarrow> (ss, ak, \<lparr>es_id = sid, es_first = s_first s, es_second = s_second s\<rparr> # es))
          else collectSessions ids cutoff sessions activeKey)"

definition collectStale ::
  "string list \<Rightarrow> string list \<Rightarrow> time \<Rightarrow> ('r, 'l) broker \<Rightarrow> ('r, 'l) broker \<times> peer list \<times> evictedSession list" where
  "collectStale keys ids now b =
     (case collectWaiters keys (now - b_waiterTTL b) (b_waiting b) of (w, waiters) \<Rightarrow>
      (case collectSessions ids (now - b_sessionTTL b) (b_sessions b) (b_activeKey b) of (ss, ak, sessions) \<Rightarrow>
        (b\<lparr>b_waiting := w, b_sessions := ss, b_activeKey := ak\<rparr>, waiters, sessions)))"

definition evictWaiter :: "peer \<Rightarrow> effect list" where
  "evictWaiter p =
     [Log ''waiter_evicted'' [(''peer_id'', LStr (p_id p)), (''mode'', LStr (p_mode p))],
      Send p (brokerError ''waiter-expired'' (genericBrokerMessage ''waiter-expired'')), CloseConn (p_conn p)]"

definition evictSession :: "evictedSession \<Rightarrow> effect list" where
  "evictSession es =
     [Log ''session_evicted'' [(''session_id'', LStr (es_id es))],
      Send (es_first es) (brokerError ''session-expired'' (genericBrokerMessage ''session-expired'')),
      CloseConn (p_conn (es_first es)),
      Send (es_second es) (brokerError ''session-expired'' (genericBrokerMessage ''session-expired'')),
      CloseConn (p_conn (es_second es))]"

definition evictStale ::
  "string list \<Rightarrow> string list \<Rightarrow> string list \<Rightarrow> time \<Rightarrow> time \<Rightarrow> ('r, 'l) broker \<Rightarrow> ('r, 'l) broker \<times> effect list" where
  "evictStale keys ids lkeys now now' b =
     (case collectStale keys ids now b of (b', waiters, sessions) \<Rightarrow>
        (b'\<lparr>b_ipLimiter := fst (Cleanup lkeys (b_ipLimiter b') (now' - b_limiterIdleTTL b'))\<rparr>,
         concat (map evictWaiter waiters) @ concat (map evictSession sessions)))"

subsection \<open>Shutdown\<close>

definition Shutdown_stop :: "('r, 'l) broker \<Rightarrow> ('r, 'l) broker" where
  "Shutdown_stop b = b\<lparr>b_stopped := True\<rparr>"

definition Shutdown_drain :: "string list \<Rightarrow> string list \<Rightarrow> ('r, 'l) broker \<Rightarrow> effect list" where
  "Shutdown_drain ids keys b =
     concat (map (\<lambda>sid. case b_sessions b sid of None \<Rightarrow> []
                        | Some s \<Rightarrow> [CloseConn (p_conn (s_first s)), CloseConn (p_conn (s_second s))]) ids)
     @ concat (map (\<lambda>k. case b_waiting b k of None \<Rightarrow> [] | Some p \<Rightarrow> [CloseConn (p_conn p)]) keys)"

subsection \<open>The WebSocket handler\<close>

definition writeAndClose :: "nat \<Rightarrow> message \<Rightarrow> gerror option \<Rightarrow> effect list" where
  "writeAndClose conn message sendErr =
     (case sendErr of Some _ \<Rightarrow> [] | None \<Rightarrow> [SendConn conn message, CloseConn conn])"

definition handleUpgrade ::
  "('r, 'l) rate_lib \<Rightarrow> unicode \<Rightarrow> ('r, 'l) broker \<Rightarrow> http_request \<Rightarrow> time \<Rightarrow> gerror option
    \<Rightarrow> ('r, 'l) broker \<times> effect list \<times> bool" where
  "handleUpgrade R U b r now upgradeErr =
     (let sourceIP = clientIP U r (b_trustedProxies b) (b_trustedProxyHeader b) in
      case Allow R (b_ipLimiter b) sourceIP now of (l, ok) \<Rightarrow>
        (let b' = b\<lparr>b_ipLimiter := l\<rparr> in
         if \<not> ok then
           (b', [Log ''rate_limited'' [(''source_ip'', LStr sourceIP)], HttpError 429 ''rate limit exceeded''], False)
         else (case upgradeErr of
            Some err \<Rightarrow> (b', [Log ''upgrade_failed'' [(''source_ip'', LStr sourceIP), (''err'', LErr err)]], False)
          | None \<Rightarrow> (b', [], True))))"

definition handleRegisterFailed :: "string \<Rightarrow> nat \<Rightarrow> gerror \<Rightarrow> gerror option \<Rightarrow> effect list" where
  "handleRegisterFailed sourceIP conn err sendErr =
     Log ''register_failed'' [(''source_ip'', LStr sourceIP), (''err'', LErr err)]
     # writeAndClose conn (brokerError ''register-failed'' (genericBrokerMessage ''register-failed'')) sendErr"

definition registeredMessage :: "peer \<Rightarrow> message" where
  "registeredMessage p = (Message MessageTypeRegistered)\<lparr>ms_Registered := Some \<lparr>rd_PeerID = p_id p\<rparr>\<rparr>"

definition pongMessage :: "message \<Rightarrow> message" where
  "pongMessage message =
     (Message MessageTypePong)
       \<lparr>ms_Pong := Some \<lparr>po_Token = (case ms_Ping message of None \<Rightarrow> [] | Some ping \<Rightarrow> pi_Token ping)\<rparr>\<rparr>"

text \<open>
  One iteration of the read loop on the result of \<open>ReadJSON\<close>: the effects and whether the handler
  returns.  \<open>closeErr\<close> says whether a read error is a normal closure.
\<close>

definition handleMessage ::
  "string list \<Rightarrow> ('r, 'l) broker \<Rightarrow> peer \<Rightarrow> (gerror \<Rightarrow> bool) \<Rightarrow> message res \<Rightarrow> gerror option \<Rightarrow> effect list \<times> bool" where
  "handleMessage ks b p closeErr readJSON relayErr =
     (case readJSON of
        Inl err \<Rightarrow>
          if closeErr err then ([], True)
          else ([Log ''read_failed'' [(''peer_id'', LStr (p_id p)), (''err'', LErr err)]], True)
      | Inr message \<Rightarrow>
          if ms_Type message = MessageTypePing then ([Send p (pongMessage message)], False)
          else if ms_Type message = MessageTypePong then ([], False)
          else if ms_Type message = MessageTypeSignal then
            (case ms_Signal message of
               None \<Rightarrow> ([Send p (brokerError ''invalid-signal'' ''signal payload is required'')], False)
             | Some signal \<Rightarrow>
                 (case relaySignal ks b p signal relayErr of
                    (es, Some err) \<Rightarrow>
                      (es @ [Log ''relay_failed'' [(''peer_id'', LStr (p_id p)),
                               (''signal_kind'', LStr (sg_Kind signal)), (''err'', LErr err)],
                             Send p (brokerError ''relay-failed'' (genericBrokerMessage ''relay-failed''))], True)
                  | (es, None) \<Rightarrow> (es, False)))
          else ([Send p (brokerError ''unexpected-message''
                           ''only signal messages are allowed after registration'')], False))"

definition pairingFailedEffects :: "peer \<Rightarrow> gerror \<Rightarrow> effect list" where
  "pairingFailedEffects p err =
     [Log ''pairing_failed'' [(''peer_id'', LStr (p_id p)), (''rendezvous_token'', LStr (p_rendezvousKey p)),
        (''err'', LErr err)],
      Send p (brokerError ''pairing-failed'' (genericBrokerMessage ''pairing-failed''))]"

text \<open>The deferred cleanup of the handler.\<close>

definition handlerExit :: "string list \<Rightarrow> ('r, 'l) broker \<Rightarrow> peer \<Rightarrow> ('r, 'l) broker \<times> effect list" where
  "handlerExit ks b p =
     (case unregisterPeer ks b (Some p) ''peer disconnected'' of (b', es) \<Rightarrow> (b', es @ [CloseConn (p_conn p)]))"

end
