(* ===== verification/BrokerProofs.thy ===== *)
theory BrokerProofs
  imports Broker
begin

text \<open>
  Correctness of the broker's critical sections: the coherence invariant of its three maps and
  its preservation by every operation, and what pairing, relaying, unregistering and eviction do,
  independently of the order in which Go ranges over a map.
\<close>

section \<open>Specifications\<close>

definition owns :: "session \<Rightarrow> string \<Rightarrow> bool" where
  "owns s i \<longleftrightarrow> i = p_id (s_first s) \<or> i = p_id (s_second s)"

definition partner :: "session \<Rightarrow> string \<Rightarrow> peer" where
  "partner s i = (if i = p_id (s_first s) then s_second s else s_first s)"

definition validMode :: "PeerMode \<Rightarrow> bool" where
  "validMode m \<longleftrightarrow> m = ModeExpose \<or> m = ModeConnect"

text \<open>A session joins one expose and one connect peer that gave the same rendezvous key.\<close>

definition session_ok :: "string \<Rightarrow> session \<Rightarrow> bool" where
  "session_ok sid s \<longleftrightarrow>
     s_id s = sid \<and> sid \<noteq> [] \<and> p_id (s_first s) \<noteq> p_id (s_second s)
   \<and> validMode (p_mode (s_first s)) \<and> validMode (p_mode (s_second s)) \<and> p_mode (s_first s) \<noteq> p_mode (s_second s)
   \<and> p_rendezvousKey (s_first s) = s_rendezvousKey s \<and> p_rendezvousKey (s_second s) = s_rendezvousKey s"

definition keys_coherent :: "('r, 'l) broker \<Rightarrow> bool" where
  "keys_coherent b \<longleftrightarrow>
     (\<forall>k sid. b_activeKey b k = Some sid \<longleftrightarrow> (\<exists>s. b_sessions b sid = Some s \<and> s_rendezvousKey s = k))"

definition waiters_ok :: "('r, 'l) broker \<Rightarrow> bool" where
  "waiters_ok b \<longleftrightarrow>
     (\<forall>k p. b_waiting b k = Some p \<longrightarrow> p_rendezvousKey p = k \<and> validMode (p_mode p) \<and> b_activeKey b k = None)"

definition ids_unique :: "('r, 'l) broker \<Rightarrow> bool" where
  "ids_unique b \<longleftrightarrow>
     (\<forall>sid s sid' s' i. b_sessions b sid = Some s \<longrightarrow> b_sessions b sid' = Some s' \<longrightarrow> owns s i \<longrightarrow> owns s' i \<longrightarrow> sid = sid')
   \<and> (\<forall>k p sid s. b_waiting b k = Some p \<longrightarrow> b_sessions b sid = Some s \<longrightarrow> \<not> owns s (p_id p))
   \<and> (\<forall>k p k' p'. b_waiting b k = Some p \<longrightarrow> b_waiting b k' = Some p' \<longrightarrow> p_id p = p_id p' \<longrightarrow> k = k')"

definition broker_inv :: "('r, 'l) broker \<Rightarrow> bool" where
  "broker_inv b \<longleftrightarrow>
     keys_coherent b \<and> (\<forall>sid s. b_sessions b sid = Some s \<longrightarrow> session_ok sid s) \<and> waiters_ok b \<and> ids_unique b"

lemmas broker_inv_defs = broker_inv_def keys_coherent_def waiters_ok_def ids_unique_def

text \<open>The ids of the peers the broker knows about.\<close>

definition members :: "('r, 'l) broker \<Rightarrow> string set" where
  "members b = {i. (\<exists>k p. b_waiting b k = Some p \<and> p_id p = i) \<or> (\<exists>sid s. b_sessions b sid = Some s \<and> owns s i)}"

text \<open>What the environment guarantees of a peer about to be paired: its id is new, its mode parsed.\<close>

definition fresh_peer :: "('r, 'l) broker \<Rightarrow> peer \<Rightarrow> bool" where
  "fresh_peer b p \<longleftrightarrow> p_id p \<notin> members b \<and> validMode (p_mode p)"

definition fresh_session_id :: "('r, 'l) broker \<Rightarrow> bytes res \<Rightarrow> bool" where
  "fresh_session_id b rnd \<longleftrightarrow> (\<forall>sid. randomID rnd = Inr sid \<longrightarrow> sid \<noteq> [] \<and> b_sessions b sid = None)"

definition waitsHere :: "('r, 'l) broker \<Rightarrow> peer \<Rightarrow> bool" where
  "waitsHere b p \<longleftrightarrow> (case b_waiting b (p_rendezvousKey p) of None \<Rightarrow> False | Some w \<Rightarrow> p_id w = p_id p)"

text \<open>A small broker run, for the examples: a connect peer waits, then an expose peer joins.\<close>

definition toyConnect :: peer where
  "toyConnect = \<lparr>p_id = ''A'', p_mode = ModeConnect, p_rendezvousKey = ''k'', p_version = [], p_conn = 1, p_createdAt = 0\<rparr>"

definition toyExpose :: peer where
  "toyExpose = \<lparr>p_id = ''B'', p_mode = ModeExpose, p_rendezvousKey = ''k'', p_version = [], p_conn = 2, p_createdAt = 1\<rparr>"

definition toyRnd :: "bytes res" where
  "toyRnd = Inr (replicate 18 0)"

definition toySid :: string where
  "toySid = EncodeToString (replicate 18 0)"

definition toyBroker0 :: "(unit, int) broker" where
  "toyBroker0 = \<lparr>b_waiterTTL = DefaultWaiterTTL, b_sessionTTL = DefaultSessionTTL,
     b_janitorInterval = DefaultJanitorInterval, b_limiterIdleTTL = DefaultLimiterIdleTTL,
     b_trustedProxies = [], b_trustedProxyHeader = [], b_ipLimiter = newKeyedLimiter () 10,
     b_waiting = Map.empty, b_activeKey = Map.empty, b_sessions = Map.empty, b_stopped = False\<rparr>"

definition toyBroker1 :: "(unit, int) broker" where
  "toyBroker1 = fst (tryPair toyBroker0 toyConnect toyRnd 0)"

definition toyBroker2 :: "(unit, int) broker" where
  "toyBroker2 = fst (tryPair toyBroker1 toyExpose toyRnd 1)"

text \<open>The peers themselves.\<close>

definition holds :: "('r, 'l) broker \<Rightarrow> peer set" where
  "holds b = {p. (\<exists>k. b_waiting b k = Some p) \<or> (\<exists>sid s. b_sessions b sid = Some s \<and> (p = s_first s \<or> p = s_second s))}"

section \<open>Lookup\<close>

lemma findSessionLoop_cases:
  obtains (found) sid s where "sid \<in> set ks" "m sid = Some s" "owns s (p_id p)"
      "findSessionLoop ks m p = (Some (partner s (p_id p)), sid)"
  | (none) "\<forall>sid \<in> set ks. \<forall>s. m sid = Some s \<longrightarrow> \<not> owns s (p_id p)" "findSessionLoop ks m p = (None, [])"
proof (induction ks arbitrary: thesis)
  case (Cons k ks)
  show ?case
  proof (cases "\<exists>s. m k = Some s \<and> owns s (p_id p)")
    case True
    then obtain s where s: "m k = Some s" "owns s (p_id p)" by blast
    then have "findSessionLoop (k # ks) m p = (Some (partner s (p_id p)), k)"
      by (auto simp: owns_def partner_def)
    with s show ?thesis by (intro Cons.prems(1)) auto
  next
    case False
    then have *: "findSessionLoop (k # ks) m p = findSessionLoop ks m p"
      by (auto simp: owns_def split: option.splits)
    show ?thesis
    proof (rule Cons.IH)
      fix sid s assume "sid \<in> set ks" "m sid = Some s" "owns s (p_id p)"
        "findSessionLoop ks m p = (Some (partner s (p_id p)), sid)"
      then show ?thesis using * by (intro Cons.prems(1)) auto
    next
      assume "\<forall>sid \<in> set ks. \<forall>s. m sid = Some s \<longrightarrow> \<not> owns s (p_id p)" "findSessionLoop ks m p = (None, [])"
      then show ?thesis using * False by (intro Cons.prems(2)) auto
    qed
  qed
qed simp

lemma findSession_owned:
  assumes "broker_inv b" "enumerates ks (b_sessions b)" "b_sessions b sid = Some s" "owns s (p_id p)"
  shows "findSessionPeerLocked ks b p = (Some (partner s (p_id p)), sid)"
proof (cases rule: findSessionLoop_cases [of ks "b_sessions b" p])
  case (found sid' s')
  with assms have "sid' = sid" unfolding broker_inv_def ids_unique_def by metis
  with found assms show ?thesis by (simp add: findSessionPeerLocked_def)
next
  case none
  with assms enumerates_mem [OF assms(2)] show ?thesis by auto
qed

lemma findSession_none:
  assumes "\<And>sid s. b_sessions b sid = Some s \<Longrightarrow> \<not> owns s (p_id p)"
  shows "findSessionPeerLocked ks b p = (None, [])"
  using assms by (cases rule: findSessionLoop_cases [of ks "b_sessions b" p]) (auto simp: findSessionPeerLocked_def)

section \<open>Unregistering\<close>

lemma unregisterPeer_waiting:
  "waitsHere b p \<Longrightarrow> unregisterPeer ks b (Some p) reason =
     (b\<lparr>b_waiting := (b_waiting b)(p_rendezvousKey p := None)\<rparr>, [])"
  by (simp add: unregisterPeer_def waitsHere_def)

lemma unregisterPeer_paired:
  assumes "broker_inv b" "enumerates ks (b_sessions b)" "\<not> waitsHere b p"
    and "b_sessions b sid = Some s" "owns s (p_id p)"
  shows "unregisterPeer ks b (Some p) reason =
     (b\<lparr>b_sessions := (b_sessions b)(sid := None), b_activeKey := (b_activeKey b)(s_rendezvousKey s := None)\<rparr>,
      [Send (partner s (p_id p)) (peerLeftMessage reason),
       Log ''session_closed'' [(''session_id'', LStr sid), (''peer_id'', LStr (p_id p)), (''reason'', LStr reason)]])"
proof -
  have "sid \<noteq> []" using assms(1,4) by (auto simp: broker_inv_def session_ok_def)
  with findSession_owned [OF assms(1,2,4,5)] assms(3,4) show ?thesis
    by (simp add: unregisterPeer_def waitsHere_def)
qed

lemma unregisterPeer_unknown:
  assumes "\<not> waitsHere b p" "\<And>sid s. b_sessions b sid = Some s \<Longrightarrow> \<not> owns s (p_id p)"
  shows "unregisterPeer ks b (Some p) reason = (b, [])"
  using assms findSession_none [of b p ks] by (simp add: unregisterPeer_def waitsHere_def)

lemma unregisterPeer_cases [consumes 2]:
  assumes "broker_inv b" "enumerates ks (b_sessions b)"
  obtains (waiting) "waitsHere b p" "unregisterPeer ks b (Some p) reason =
        (b\<lparr>b_waiting := (b_waiting b)(p_rendezvousKey p := None)\<rparr>, [])"
  | (paired) sid s where "\<not> waitsHere b p" "b_sessions b sid = Some s" "owns s (p_id p)"
      "fst (unregisterPeer ks b (Some p) reason) =
        b\<lparr>b_sessions := (b_sessions b)(sid := None), b_activeKey := (b_activeKey b)(s_rendezvousKey s := None)\<rparr>"
  | (unknown) "\<not> waitsHere b p" "\<And>sid s. b_sessions b sid = Some s \<Longrightarrow> \<not> owns s (p_id p)"
      "unregisterPeer ks b (Some p) reason = (b, [])"
  using unregisterPeer_waiting unregisterPeer_paired [OF assms] unregisterPeer_unknown fst_conv by metis

text \<open>Removing a waiter, or a session with its active key, keeps the maps coherent.\<close>

lemma ids_unique_mono:
  assumes "ids_unique b" "b_waiting b' \<subseteq>\<^sub>m b_waiting b" "b_sessions b' \<subseteq>\<^sub>m b_sessions b"
  shows "ids_unique b'"
proof -
  have w: "b_waiting b' k = Some p \<Longrightarrow> b_waiting b k = Some p" for k p
    using assms(2) by (metis domI map_le_def)
  have s: "b_sessions b' k = Some p \<Longrightarrow> b_sessions b k = Some p" for k p
    using assms(3) by (metis domI map_le_def)
  show ?thesis using assms(1) unfolding ids_unique_def by (blast dest: w s)
qed

lemma map_le_upd_None [simp]: "m(k := None) \<subseteq>\<^sub>m m"
  by (simp add: map_le_def)

lemma inv_remove_waiter [inv_intros]:
  "broker_inv b \<Longrightarrow> broker_inv (b\<lparr>b_waiting := (b_waiting b)(k := None)\<rparr>)"
  unfolding broker_inv_defs by simp

lemma inv_remove_session [inv_intros]:
  assumes inv: "broker_inv b" and s: "b_sessions b sid = Some s"
  shows "broker_inv (b\<lparr>b_sessions := (b_sessions b)(sid := None), b_activeKey := (b_activeKey b)(s_rendezvousKey s := None)\<rparr>)"
    (is "broker_inv ?b")
proof -
  have kc: "b_activeKey b k = Some i \<longleftrightarrow> (\<exists>t. b_sessions b i = Some t \<and> s_rendezvousKey t = k)" for k i
    using inv by (simp add: broker_inv_def keys_coherent_def)
  have uniq: "i = sid" if "b_sessions b i = Some t" "s_rendezvousKey t = s_rendezvousKey s" for i t
    using kc [of "s_rendezvousKey s" i] kc [of "s_rendezvousKey s" sid] that s by auto
  have "keys_coherent ?b"
    unfolding keys_coherent_def
  proof (intro allI)
    fix k i
    show "b_activeKey ?b k = Some i \<longleftrightarrow> (\<exists>t. b_sessions ?b i = Some t \<and> s_rendezvousKey t = k)"
    proof (cases "k = s_rendezvousKey s")
      case True
      then show ?thesis using uniq by auto
    next
      case False
      then have "b_activeKey ?b k = Some i \<longleftrightarrow> (\<exists>t. b_sessions b i = Some t \<and> s_rendezvousKey t = k)"
        using kc [of k i] by simp
      also have "\<dots> \<longleftrightarrow> (\<exists>t. b_sessions ?b i = Some t \<and> s_rendezvousKey t = k)"
        using False s by (cases "i = sid") simp_all
      finally show ?thesis .
    qed
  qed
  moreover have "waiters_ok ?b"
  proof -
    have "waiters_ok b" using inv by (simp add: broker_inv_def)
    then show ?thesis by (simp add: waiters_ok_def) blast
  qed
  moreover have "ids_unique ?b"
    by (rule ids_unique_mono [OF inv [unfolded broker_inv_def, THEN conjunct2, THEN conjunct2, THEN conjunct2]]) simp_all
  ultimately show ?thesis
    using inv by (simp add: broker_inv_def)
qed

lemma inv_unregisterPeer [inv_intros]:
  assumes "broker_inv b" "enumerates ks (b_sessions b)"
  shows "broker_inv (fst (unregisterPeer ks b (Some p) reason))"
  using assms
  by (cases rule: unregisterPeer_cases [where p = p and reason = reason])
     (simp_all add: inv_remove_waiter inv_remove_session assms(1))

lemma members_unregisterPeer:
  assumes "broker_inv b" "enumerates ks (b_sessions b)"
  shows "members (fst (unregisterPeer ks b (Some p) reason)) \<subseteq> members b"
  using assms
  by (cases rule: unregisterPeer_cases [where p = p and reason = reason])
     (auto simp: members_def split: if_splits)

section \<open>Pairing\<close>

lemma tryPair_cases:
  obtains (rejected) e where "tryPair b p rnd now = (b, [], Some e)"
    "b_activeKey b (p_rendezvousKey p) \<noteq> None \<or> (\<exists>w. b_waiting b (p_rendezvousKey p) = Some w
       \<and> (p_id w = p_id p \<or> p_mode w = p_mode p \<or> (\<exists>e'. rnd = Inl e')))"
  | (queued) "b_activeKey b (p_rendezvousKey p) = None" "b_waiting b (p_rendezvousKey p) = None"
    "tryPair b p rnd now = (b\<lparr>b_waiting := (b_waiting b)(p_rendezvousKey p \<mapsto> p)\<rparr>, [], None)"
  | (paired) w sid es where "b_activeKey b (p_rendezvousKey p) = None" "b_waiting b (p_rendezvousKey p) = Some w"
    "p_id w \<noteq> p_id p" "p_mode w \<noteq> p_mode p" "randomID rnd = Inr sid"
    "tryPair b p rnd now =
       (b\<lparr>b_waiting := (b_waiting b)(p_rendezvousKey p := None),
          b_activeKey := (b_activeKey b)(p_rendezvousKey p \<mapsto> sid),
          b_sessions := (b_sessions b)(sid \<mapsto> \<lparr>s_id = sid, s_rendezvousKey = p_rendezvousKey p, s_first = w,
                                               s_second = p, s_createdAt = now\<rparr>)\<rparr>, es, None)"
    "es = [GoDeliver sid w (pairedMessage sid (p_mode w = ModeConnect) (p_mode p)),
           GoDeliver sid p (pairedMessage sid (p_mode p = ModeConnect) (p_mode w)),
           Log ''paired'' [(''session_id'', LStr sid), (''rendezvous_token'', LStr (p_rendezvousKey p)),
                     (''peer_a'', LStr (p_id w)), (''peer_a_mode'', LStr (p_mode w)),
                     (''peer_b'', LStr (p_id p)), (''peer_b_mode'', LStr (p_mode p))]]"
proof (cases "b_activeKey b (p_rendezvousKey p)")
  case (Some sid)
  then show ?thesis by (intro rejected) (simp_all add: tryPair_def)
next
  case None
  note act = this
  show ?thesis
  proof (cases "b_waiting b (p_rendezvousKey p)")
    case None
    with act show ?thesis by (intro queued) (simp_all add: tryPair_def)
  next
    case (Some w)
    show ?thesis
    proof (cases "p_id w = p_id p \<or> p_mode w = p_mode p \<or> (\<exists>e'. rnd = Inl e')")
      case True
      then have "\<exists>e. tryPair b p rnd now = (b, [], Some e)"
        using act Some by (auto simp: tryPair_def randomID_def)
      with True Some show ?thesis using rejected by blast
    next
      case False
      then obtain buf where "rnd = Inr buf" by (cases rnd) auto
      then have "randomID rnd = Inr (EncodeToString (take 18 buf))" by (simp add: randomID_def)
      with False act Some show ?thesis
        by (intro paired [of w "EncodeToString (take 18 buf)"]) (simp_all add: tryPair_def Let_def)
    qed
  qed
qed

lemma members_waiting: "b_waiting b k = Some p \<Longrightarrow> p_id p \<in> members b"
  by (auto simp: members_def)

lemma members_session: "b_sessions b sid = Some s \<Longrightarrow> owns s i \<Longrightarrow> i \<in> members b"
  by (auto simp: members_def)

lemma inv_queue:
  assumes inv: "broker_inv b" and fresh: "fresh_peer b p" and act: "b_activeKey b (p_rendezvousKey p) = None"
  shows "broker_inv (b\<lparr>b_waiting := (b_waiting b)(p_rendezvousKey p \<mapsto> p)\<rparr>)" (is "broker_inv ?b")
proof -
  have new: "b_waiting b k = Some q \<Longrightarrow> p_id q \<noteq> p_id p" "b_sessions b sid = Some s \<Longrightarrow> \<not> owns s (p_id p)"
    for k q sid s
    using fresh members_waiting [of b k q] members_session [of b sid s "p_id p"]
    by (auto simp: fresh_peer_def)
  have "waiters_ok ?b"
    using inv act fresh by (auto simp: broker_inv_def waiters_ok_def fresh_peer_def)
  moreover have "ids_unique ?b"
    using inv new new(1) [THEN not_sym] by (auto simp: broker_inv_def ids_unique_def split: if_splits)
  ultimately show ?thesis
    using inv by (simp add: broker_inv_def keys_coherent_def)
qed

lemma inv_paired:
  assumes inv: "broker_inv b" and fresh: "fresh_peer b p" and act: "b_activeKey b k = None"
    and w: "b_waiting b k = Some w" and k: "p_rendezvousKey p = k"
    and mode: "p_mode w \<noteq> p_mode p" and sid: "sid \<noteq> []" "b_sessions b sid = None"
    and s: "s_id s = sid" "s_rendezvousKey s = k" "s_first s = w" "s_second s = p"
  shows "broker_inv (b\<lparr>b_waiting := (b_waiting b)(k := None), b_activeKey := (b_activeKey b)(k \<mapsto> sid),
                      b_sessions := (b_sessions b)(sid \<mapsto> s)\<rparr>)" (is "broker_inv ?b")
proof -
  have kc: "b_activeKey b k' = Some i \<longleftrightarrow> (\<exists>t. b_sessions b i = Some t \<and> s_rendezvousKey t = k')" for k' i
    using inv by (simp add: broker_inv_def keys_coherent_def)
  have new: "b_waiting b k' = Some q \<Longrightarrow> p_id q \<noteq> p_id p" "b_sessions b i = Some t \<Longrightarrow> \<not> owns t (p_id p)"
    for k' q i t
    using fresh members_waiting [of b k' q] members_session [of b i t "p_id p"]
    by (auto simp: fresh_peer_def)
  have nokey: "b_sessions b i = Some t \<Longrightarrow> s_rendezvousKey t \<noteq> k" for i t
    using kc [of k i] act by auto
  have ww: "p_rendezvousKey w = k" "validMode (p_mode w)"
    using inv w by (auto simp: broker_inv_def waiters_ok_def)
  have wids: "b_sessions b i = Some t \<Longrightarrow> \<not> owns t (p_id w)"
    "b_waiting b k' = Some q \<Longrightarrow> k' \<noteq> k \<Longrightarrow> p_id q \<noteq> p_id w" for i t k' q
    using inv w unfolding broker_inv_def ids_unique_def by metis+
  have "keys_coherent ?b"
    unfolding keys_coherent_def
  proof (intro allI)
    fix k' i
    show "b_activeKey ?b k' = Some i \<longleftrightarrow> (\<exists>t. b_sessions ?b i = Some t \<and> s_rendezvousKey t = k')"
      using kc [of k' i] nokey sid(2) s(2) by (cases "k' = k"; cases "i = sid") auto
  qed
  moreover have "session_ok sid s"
    using s ww sid(1) mode k new(1) [OF w] fresh by (simp add: session_ok_def fresh_peer_def)
  moreover have "waiters_ok ?b"
    using inv by (auto simp: broker_inv_def waiters_ok_def)
  moreover have "ids_unique ?b"
  proof -
    have own: "owns s i \<longleftrightarrow> i = p_id w \<or> i = p_id p" for i using s by (simp add: owns_def)
    have u: "b_sessions b j = Some t \<Longrightarrow> b_sessions b j' = Some t' \<Longrightarrow> owns t i \<Longrightarrow> owns t' i \<Longrightarrow> j = j'"
      "b_waiting b k' = Some q \<Longrightarrow> b_sessions b j = Some t \<Longrightarrow> \<not> owns t (p_id q)"
      "b_waiting b k' = Some q \<Longrightarrow> b_waiting b k'' = Some q' \<Longrightarrow> p_id q = p_id q' \<Longrightarrow> k' = k''" for j t j' t' i k' q k'' q'
      using inv unfolding broker_inv_def ids_unique_def by metis+
    show ?thesis
      unfolding ids_unique_def
    proof (intro conjI allI impI)
      show "j = j'" if "b_sessions ?b j = Some t" "b_sessions ?b j' = Some t'" "owns t i" "owns t' i" for j t j' t' i
        using that own u(1) new(2) wids(1) by (cases "j = sid"; cases "j' = sid") auto
      show "\<not> owns t (p_id q)" if "b_waiting ?b k' = Some q" "b_sessions ?b j = Some t" for k' q j t
        using that own u(2) new(1) wids(2) by (cases "j = sid"; cases "k' = k") auto
      show "k' = k''" if "b_waiting ?b k' = Some q" "b_waiting ?b k'' = Some q'" "p_id q = p_id q'" for k' q k'' q'
        using that u(3) by (cases "k' = k"; cases "k'' = k") auto
    qed
  qed
  ultimately show ?thesis
    using inv by (simp add: broker_inv_def)
qed

lemma inv_tryPair [inv_intros]:
  assumes "broker_inv b" "fresh_peer b p" "fresh_session_id b rnd"
  shows "broker_inv (fst (tryPair b p rnd now))"
  using assms
  by (cases rule: tryPair_cases [of b p rnd now])
     (simp_all add: inv_queue inv_paired fresh_session_id_def)

lemma members_tryPair: "members (fst (tryPair b p rnd now)) \<subseteq> insert (p_id p) (members b)"
  by (cases rule: tryPair_cases [of b p rnd now])
     (auto simp: members_def owns_def split: if_splits)

section \<open>Eviction\<close>

lemma collectWaiters_map:
  "fst (collectWaiters ks cutoff m) k =
     (if k \<in> set ks \<and> (\<exists>p. m k = Some p \<and> p_createdAt p < cutoff) then None else m k)"
  by (induction ks arbitrary: m) (auto simp: case_prod_beta split: option.splits)

lemma collectWaiters_list:
  "distinct ks \<Longrightarrow> snd (collectWaiters ks cutoff m) =
     map (\<lambda>k. the (m k)) (filter (\<lambda>k. \<exists>p. m k = Some p \<and> p_createdAt p < cutoff) ks)"
proof (induction ks arbitrary: m)
  case (Cons k ks)
  have "map (\<lambda>i. the ((m(k := None)) i)) (filter (\<lambda>i. \<exists>p. (m(k := None)) i = Some p \<and> p_createdAt p < cutoff) ks)
      = map (\<lambda>i. the (m i)) (filter (\<lambda>i. \<exists>p. m i = Some p \<and> p_createdAt p < cutoff) ks)"
    using Cons.prems by (intro map_cong filter_cong) auto
  with Cons show ?case by (auto simp: case_prod_beta split: option.splits)
qed simp

lemma collectSessions_map:
  "fst (collectSessions ks cutoff m ak) sid =
     (if sid \<in> set ks \<and> (\<exists>s. m sid = Some s \<and> s_createdAt s < cutoff) then None else m sid)"
  by (induction ks arbitrary: m ak) (auto simp: case_prod_beta split: option.splits)

lemma collectSessions_list:
  "distinct ks \<Longrightarrow> snd (snd (collectSessions ks cutoff m ak)) =
     map (\<lambda>i. \<lparr>es_id = i, es_first = s_first (the (m i)), es_second = s_second (the (m i))\<rparr>)
       (filter (\<lambda>i. \<exists>s. m i = Some s \<and> s_createdAt s < cutoff) ks)"
proof (induction ks arbitrary: m ak)
  case (Cons k ks)
  have "map (\<lambda>i. \<lparr>es_id = i, es_first = s_first (the ((m(k := None)) i)), es_second = s_second (the ((m(k := None)) i))\<rparr>)
         (filter (\<lambda>i. \<exists>s. (m(k := None)) i = Some s \<and> s_createdAt s < cutoff) ks)
      = map (\<lambda>i. \<lparr>es_id = i, es_first = s_first (the (m i)), es_second = s_second (the (m i))\<rparr>)
         (filter (\<lambda>i. \<exists>s. m i = Some s \<and> s_createdAt s < cutoff) ks)"
    using Cons.prems by (intro map_cong filter_cong) auto
  with Cons show ?case by (auto simp: case_prod_beta split: option.splits)
qed simp

lemma inv_collectWaiters:
  "broker_inv b \<Longrightarrow> broker_inv (b\<lparr>b_waiting := fst (collectWaiters ks cutoff (b_waiting b))\<rparr>)"
proof (induction ks arbitrary: b)
  case (Cons k ks)
  have "broker_inv (b\<lparr>b_waiting := fst (collectWaiters ks cutoff ((b_waiting b)(k := None)))\<rparr>)"
    using Cons.IH [OF inv_remove_waiter [OF Cons.prems, of k]] by (simp add: fun_upd_def)
  with Cons show ?case by (simp add: case_prod_beta split: option.splits)
qed simp

lemma inv_collectSessions:
  "broker_inv b \<Longrightarrow>
     broker_inv (b\<lparr>b_sessions := fst (collectSessions ks cutoff (b_sessions b) (b_activeKey b)),
                   b_activeKey := fst (snd (collectSessions ks cutoff (b_sessions b) (b_activeKey b)))\<rparr>)"
proof (induction ks arbitrary: b)
  case (Cons k ks)
  have "broker_inv (b\<lparr>b_sessions := fst (collectSessions ks cutoff ((b_sessions b)(k := None))
                                             ((b_activeKey b)(s_rendezvousKey s := None))),
      b_activeKey := fst (snd (collectSessions ks cutoff ((b_sessions b)(k := None))
                                             ((b_activeKey b)(s_rendezvousKey s := None))))\<rparr>)"
    if "b_sessions b k = Some s" for s
    using Cons.IH [OF inv_remove_session [OF Cons.prems that]] by (simp add: fun_upd_def)
  with Cons show ?case by (auto simp: case_prod_beta split: option.splits)
qed simp

lemma collectStale_eq:
  "fst (collectStale keys ids now b) =
     (let b' = b\<lparr>b_waiting := fst (collectWaiters keys (now - b_waiterTTL b) (b_waiting b))\<rparr>;
          r = collectSessions ids (now - b_sessionTTL b) (b_sessions b') (b_activeKey b') in
      b'\<lparr>b_sessions := fst r, b_activeKey := fst (snd r)\<rparr>)"
  by (simp add: collectStale_def Let_def case_prod_beta)

lemma inv_collectStale [inv_intros]: "broker_inv b \<Longrightarrow> broker_inv (fst (collectStale keys ids now b))"
  using inv_collectSessions [OF inv_collectWaiters] by (simp add: collectStale_eq Let_def)

lemma collectStale_waiting:
  "enumerates keys (b_waiting b) \<Longrightarrow> b_waiting (fst (collectStale keys ids now b)) k =
     (case b_waiting b k of None \<Rightarrow> None | Some p \<Rightarrow> if p_createdAt p < now - b_waiterTTL b then None else Some p)"
  using collectWaiters_map [of keys "now - b_waiterTTL b" "b_waiting b" k] enumerates_mem [of keys "b_waiting b" k]
  by (auto simp: collectStale_eq Let_def split: option.splits)

lemma collectStale_sessions:
  "enumerates ids (b_sessions b) \<Longrightarrow> b_sessions (fst (collectStale keys ids now b)) i =
     (case b_sessions b i of None \<Rightarrow> None | Some s \<Rightarrow> if s_createdAt s < now - b_sessionTTL b then None else Some s)"
  using collectSessions_map [of ids "now - b_sessionTTL b" "b_sessions b" "b_activeKey b" i]
    enumerates_mem [of ids "b_sessions b" i]
  by (auto simp: collectStale_eq Let_def split: option.splits)

lemma members_collectStale:
  "enumerates keys (b_waiting b) \<Longrightarrow> enumerates ids (b_sessions b) \<Longrightarrow>
     members (fst (collectStale keys ids now b)) \<subseteq> members b"
  unfolding members_def
  by (auto simp: collectStale_waiting collectStale_sessions split: option.splits if_splits) blast+

section \<open>An example broker\<close>

lemma empty_inv [inv_intros]:
  "b_waiting b = Map.empty \<Longrightarrow> b_activeKey b = Map.empty \<Longrightarrow> b_sessions b = Map.empty \<Longrightarrow> broker_inv b"
  by (simp add: broker_inv_defs)

lemma NewBroker_inv: "NewBrokerWithOptions R opts = Inr b \<Longrightarrow> broker_inv b"
  by (rule empty_inv) (auto simp: NewBrokerWithOptions_def Let_def split: sum.splits)

lemma NewBroker_members: "NewBrokerWithOptions R opts = Inr b \<Longrightarrow> members b = {}"
  by (auto simp: NewBrokerWithOptions_def Let_def members_def split: sum.splits)

lemma NewBroker_never_fails: "\<exists>b. NewBroker R = Inr b"
  by (simp add: NewBroker_def NewBrokerWithOptions_def ParseTrustedProxies_def Let_def TrimSpace_def
      TrimLeftSpace_def TrimRightSpace_def)

lemma toySid_eq: "randomID toyRnd = Inr toySid" "toySid \<noteq> []"
  by code_simp+

lemma toyBroker_members: "members toyBroker0 = {}"
  by (simp add: members_def toyBroker0_def)

lemma toyBroker1: "toyBroker1 = toyBroker0\<lparr>b_waiting := [''k'' \<mapsto> toyConnect]\<rparr>"
  by (simp add: toyBroker1_def tryPair_def toyBroker0_def toyConnect_def)

lemma toyBroker2:
  "b_waiting toyBroker2 = Map.empty" "b_activeKey toyBroker2 = [''k'' \<mapsto> toySid]"
  "b_sessions toyBroker2 = [toySid \<mapsto> \<lparr>s_id = toySid, s_rendezvousKey = ''k'', s_first = toyConnect,
                                      s_second = toyExpose, s_createdAt = 1\<rparr>]"
  by (simp_all add: toyBroker2_def tryPair_def toyBroker1 toyBroker0_def toyConnect_def toyExpose_def toySid_eq Let_def)

lemma toyBroker_inv: "broker_inv toyBroker0" "broker_inv toyBroker1" "broker_inv toyBroker2"
proof -
  show 0: "broker_inv toyBroker0" by (rule empty_inv) (simp_all add: toyBroker0_def)
  show 1: "broker_inv toyBroker1"
    unfolding toyBroker1_def using 0
    by (rule inv_tryPair)
       (simp add: fresh_peer_def toyBroker_members validMode_def toyConnect_def,
        simp add: fresh_session_id_def toySid_eq toyBroker0_def)
  show "broker_inv toyBroker2"
    unfolding toyBroker2_def using 1
    by (rule inv_tryPair)
       (auto simp: fresh_peer_def fresh_session_id_def validMode_def toyConnect_def toyExpose_def members_def
          toySid_eq toyBroker1 toyBroker0_def split: if_splits)
qed

section \<open>Properties\<close>

text \<open>
  (C2) Pairing joins opposite roles.  When a new peer finds another peer waiting on its key and
  pairing succeeds, exactly two deliveries are started, one per peer, carrying the same session
  id, each naming the other's mode, with exactly one initiator, the connect peer; the session is
  recorded under the key with the two peers, neither waits any more, and no other key, waiter or
  session is touched.
\<close>

theorem tryPair_pairs_opposite_roles:
  assumes "broker_inv b" "fresh_peer b p" "fresh_session_id b rnd"
    and "b_waiting b (p_rendezvousKey p) = Some w" "tryPair b p rnd now = (b', es, None)"
  shows "\<exists>sid pd pd'.
       filter (\<lambda>e. case e of GoDeliver _ _ _ \<Rightarrow> True | _ \<Rightarrow> False) es =
         [GoDeliver sid w ((Message MessageTypePaired)\<lparr>ms_Paired := Some pd\<rparr>),
          GoDeliver sid p ((Message MessageTypePaired)\<lparr>ms_Paired := Some pd'\<rparr>)]
     \<and> pd_SessionID pd = sid \<and> pd_SessionID pd' = sid
     \<and> pd_PeerMode pd = p_mode p \<and> pd_PeerMode pd' = p_mode w
     \<and> (pd_Initiator pd \<longleftrightarrow> p_mode w = ModeConnect) \<and> (pd_Initiator pd' \<longleftrightarrow> p_mode p = ModeConnect)
     \<and> (pd_Initiator pd \<longleftrightarrow> \<not> pd_Initiator pd')
     \<and> b_sessions b sid = None
     \<and> (\<exists>s. b_sessions b' = (b_sessions b)(sid \<mapsto> s) \<and> s_first s = w \<and> s_second s = p)
     \<and> b_activeKey b' = (b_activeKey b)(p_rendezvousKey p \<mapsto> sid)
     \<and> b_waiting b' = (b_waiting b)(p_rendezvousKey p := None)"
proof (cases rule: tryPair_cases [of b p rnd now])
  case (paired w' sid es')
  have w: "w' = w" using paired(2) assms(4) by simp
  have m: "validMode (p_mode w)" "validMode (p_mode p)"
    using assms(1,2,4) by (auto simp: broker_inv_def waiters_ok_def fresh_peer_def)
  have "b_sessions b sid = None" using assms(3) paired(5) by (simp add: fresh_session_id_def)
  with assms(5) paired m show ?thesis
    unfolding w
    by (intro exI [of _ sid] exI [of _ "\<lparr>pd_SessionID = sid, pd_Initiator = (p_mode w = ModeConnect), pd_PeerMode = p_mode p\<rparr>"]
        exI [of _ "\<lparr>pd_SessionID = sid, pd_Initiator = (p_mode p = ModeConnect), pd_PeerMode = p_mode w\<rparr>"])
       (auto simp: pairedMessage_def validMode_def)
qed (use assms in auto)

theorem tryPair_pairs_opposite_roles_witness:
  "\<exists>sid s. b_sessions toyBroker2 = (b_sessions toyBroker1)(sid \<mapsto> s) \<and> s_first s = toyConnect \<and> s_second s = toyExpose"
proof -
  have "tryPair toyBroker1 toyExpose toyRnd 1 = (toyBroker2, fst (snd (tryPair toyBroker1 toyExpose toyRnd 1)), None)"
    by (simp add: toyBroker2_def tryPair_def toyBroker1 toyBroker0_def toyConnect_def toyExpose_def toySid_eq Let_def)
  moreover have "fresh_peer toyBroker1 toyExpose" "fresh_session_id toyBroker1 toyRnd"
    "b_waiting toyBroker1 (p_rendezvousKey toyExpose) = Some toyConnect"
    by (auto simp: fresh_peer_def fresh_session_id_def validMode_def toyConnect_def toyExpose_def members_def
          toySid_eq toyBroker1 toyBroker0_def split: if_splits)
  ultimately show ?thesis
    using tryPair_pairs_opposite_roles [OF toyBroker_inv(2)] by blast
qed

text \<open>
  Signals go to the session partner and to nobody else, whatever order Go ranges over the
  session map: a paired peer's signal is written once, unchanged, to the other peer of its own
  session, which has the opposite mode and the same rendezvous key; a peer in no session gets an
  error and nothing is written.
\<close>

theorem relaySignal_only_to_partner:
  assumes "broker_inv b" "enumerates ks (b_sessions b)"
  shows "(\<exists>sid s. b_sessions b sid = Some s \<and> owns s (p_id p)
            \<and> relaySignal ks b p signal err =
                ([Send (partner s (p_id p)) ((Message MessageTypeSignal)\<lparr>ms_Signal := Some signal\<rparr>)], err)
            \<and> p_id (partner s (p_id p)) \<noteq> p_id p
            \<and> {p_mode (s_first s), p_mode (s_second s)} = {ModeExpose, ModeConnect}
            \<and> p_rendezvousKey (partner s (p_id p)) = s_rendezvousKey s)
       \<or> ((\<forall>sid s. b_sessions b sid = Some s \<longrightarrow> \<not> owns s (p_id p))
            \<and> relaySignal ks b p signal err = ([], Some (errors_New ''peer is not paired'')))"
proof (cases "\<exists>sid s. b_sessions b sid = Some s \<and> owns s (p_id p)")
  case True
  then obtain sid s where s: "b_sessions b sid = Some s" "owns s (p_id p)" by blast
  have ok: "session_ok sid s" using assms(1) s(1) by (simp add: broker_inv_def)
  then have "relaySignal ks b p signal err =
      ([Send (partner s (p_id p)) ((Message MessageTypeSignal)\<lparr>ms_Signal := Some signal\<rparr>)], err)"
    using findSession_owned [OF assms s] by (simp add: relaySignal_def sessionPeers_def session_ok_def)
  moreover have "p_id (partner s (p_id p)) \<noteq> p_id p" "p_rendezvousKey (partner s (p_id p)) = s_rendezvousKey s"
    "{p_mode (s_first s), p_mode (s_second s)} = {ModeExpose, ModeConnect}"
    using ok s(2) by (auto simp: session_ok_def owns_def partner_def validMode_def)
  ultimately show ?thesis using s by blast
next
  case False
  then have "relaySignal ks b p signal err = ([], Some (errors_New ''peer is not paired''))"
    using findSession_none [of b p ks] by (auto simp: relaySignal_def sessionPeers_def)
  with False show ?thesis by blast
qed

theorem relaySignal_only_to_partner_witness:
  "relaySignal [toySid] toyBroker2 toyConnect \<lparr>sg_Kind = ''offer'', sg_SDP = None, sg_Candidate = None\<rparr> None =
     ([Send toyExpose ((Message MessageTypeSignal)
        \<lparr>ms_Signal := Some \<lparr>sg_Kind = ''offer'', sg_SDP = None, sg_Candidate = None\<rparr>\<rparr>)], None)"
proof -
  have "enumerates [toySid] (b_sessions toyBroker2)" by (simp add: enumerates_def toyBroker2)
  from relaySignal_only_to_partner [OF toyBroker_inv(3) this, of toyConnect
      "\<lparr>sg_Kind = ''offer'', sg_SDP = None, sg_Candidate = None\<rparr>" None]
  show ?thesis
    by (auto simp: toyBroker2(3) owns_def partner_def toyConnect_def toyExpose_def split: if_splits)
qed

text \<open>
  (C4) A peer that leaves is forgotten and its partner told once: after unregistering, the broker
  knows no peer of that id; if it was paired, exactly one peer-left message with the given reason
  goes to the partner, the session and its key are free again; waiters and sessions it does not
  belong to are untouched.
\<close>

theorem unregisterPeer_forgets:
  assumes inv: "broker_inv b" and en: "enumerates ks (b_sessions b)"
    and known: "\<And>k q. b_waiting b k = Some q \<Longrightarrow> p_id q = p_id p \<Longrightarrow> q = p"
    and u: "unregisterPeer ks b (Some p) reason = (b', es)"
  shows "p_id p \<notin> members b' \<and> members b' \<subseteq> members b
       \<and> (\<forall>sid s. b_sessions b sid = Some s \<and> owns s (p_id p) \<longrightarrow>
            [e \<leftarrow> es. \<exists>q m. e = Send q m] = [Send (partner s (p_id p)) (peerLeftMessage reason)]
          \<and> b_sessions b' sid = None \<and> b_activeKey b' (s_rendezvousKey s) = None)
       \<and> (\<forall>k q. b_waiting b k = Some q \<and> q \<noteq> p \<longrightarrow> b_waiting b' k = Some q)
       \<and> (\<forall>sid s. b_sessions b sid = Some s \<and> \<not> owns s (p_id p) \<longrightarrow>
            b_sessions b' sid = Some s \<and> b_activeKey b' (s_rendezvousKey s) = Some sid)"
proof -
  have sub: "members b' \<subseteq> members b" using members_unregisterPeer [OF inv en, of p reason] u by simp
  have keys: "b_activeKey b (s_rendezvousKey s) = Some sid" if "b_sessions b sid = Some s" for sid s
    using inv that by (auto simp: broker_inv_def keys_coherent_def)
  have wait: "waitsHere b p" if "b_waiting b k = Some q" "p_id q = p_id p" for k q
    using inv that known [OF that] by (auto simp: waitsHere_def broker_inv_def waiters_ok_def)
  have one: "sid = sid'" if "b_sessions b sid = Some s" "owns s i" "b_sessions b sid' = Some s'" "owns s' i" for sid s sid' s' i
    using inv that unfolding broker_inv_def ids_unique_def by metis
  consider (waiting) "waitsHere b p" | (paired) sid s where "\<not> waitsHere b p" "b_sessions b sid = Some s" "owns s (p_id p)"
    | (unknown) "\<not> waitsHere b p" "\<And>sid s. b_sessions b sid = Some s \<Longrightarrow> \<not> owns s (p_id p)" by blast
  then show ?thesis
  proof cases
    case waiting
    then have b': "b' = b\<lparr>b_waiting := (b_waiting b)(p_rendezvousKey p := None)\<rparr>"
      using u unregisterPeer_waiting [of b p ks reason] by simp
    obtain w where w: "b_waiting b (p_rendezvousKey p) = Some w" "p_id w = p_id p"
      using waiting by (auto simp: waitsHere_def split: option.splits)
    have none: "\<not> owns s (p_id p)" if "b_sessions b sid = Some s" for sid s
      using inv w that unfolding broker_inv_def ids_unique_def by metis
    have uniq: "k = p_rendezvousKey p" if "b_waiting b k = Some q" "p_id q = p_id p" for k q
      using inv w that unfolding broker_inv_def ids_unique_def by metis
    have "p_id p \<notin> members b'" using uniq none by (auto simp: b' members_def)
    moreover have "w = p" using known [OF w] .
    ultimately show ?thesis using sub none keys w by (auto simp: b')
  next
    case (paired sid s)
    have r: "b' = b\<lparr>b_sessions := (b_sessions b)(sid := None), b_activeKey := (b_activeKey b)(s_rendezvousKey s := None)\<rparr>"
      "[e \<leftarrow> es. \<exists>q m. e = Send q m] = [Send (partner s (p_id p)) (peerLeftMessage reason)]"
      using u unregisterPeer_paired [OF inv en paired] by auto
    have only: "sid' = sid" if "b_sessions b sid' = Some s'" "owns s' (p_id p)" for sid' s'
      using one that paired by metis
    have other: "s_rendezvousKey s' \<noteq> s_rendezvousKey s" if "b_sessions b sid' = Some s'" "sid' \<noteq> sid" for sid' s'
      using keys [OF that(1)] keys [OF paired(2)] that(2) by auto
    have mine: "sid' = sid \<and> s' = s" if "b_sessions b sid' = Some s' \<and> owns s' (p_id p)" for sid' s'
      using only [of sid' s'] that paired(2) by auto
    have theirs: "sid' \<noteq> sid" if "b_sessions b sid' = Some s' \<and> \<not> owns s' (p_id p)" for sid' s'
      using that paired(2,3) by auto
    show ?thesis
    proof (intro conjI allI impI)
      show "p_id p \<notin> members b'" using wait only paired(1) by (auto simp: r members_def)
      show "members b' \<subseteq> members b" by (rule sub)
    next
      fix sid' s' assume a: "b_sessions b sid' = Some s' \<and> owns s' (p_id p)"
      show "[e \<leftarrow> es. \<exists>q m. e = Send q m] = [Send (partner s' (p_id p)) (peerLeftMessage reason)]"
        "b_sessions b' sid' = None" "b_activeKey b' (s_rendezvousKey s') = None"
        using mine [OF a] r(2) by (simp_all add: r(1))
    next
      fix sid' s' assume a: "b_sessions b sid' = Some s' \<and> \<not> owns s' (p_id p)"
      show "b_sessions b' sid' = Some s'" "b_activeKey b' (s_rendezvousKey s') = Some sid'"
        using a theirs [OF a] other [of sid' s'] keys [of sid' s'] by (simp_all add: r(1))
    qed (simp add: r(1))
  next
    case unknown
    then have "b' = b" using u unregisterPeer_unknown [of b p ks reason] by auto
    moreover have "p_id p \<notin> members b" using unknown wait by (auto simp: members_def)
    ultimately show ?thesis using unknown(2) keys by auto
  qed
qed

theorem unregisterPeer_forgets_witness:
  "p_id toyExpose \<notin> members (fst (unregisterPeer [toySid] toyBroker2 (Some toyExpose) ''x''))"
proof -
  have "enumerates [toySid] (b_sessions toyBroker2)" by (simp add: enumerates_def toyBroker2)
  moreover have "unregisterPeer [toySid] toyBroker2 (Some toyExpose) ''x'' =
      (fst (unregisterPeer [toySid] toyBroker2 (Some toyExpose) ''x''),
       snd (unregisterPeer [toySid] toyBroker2 (Some toyExpose) ''x''))" by simp
  ultimately show ?thesis
    using unregisterPeer_forgets [OF toyBroker_inv(3) _ _ , of "[toySid]" toyExpose "''x''"
        "fst (unregisterPeer [toySid] toyBroker2 (Some toyExpose) ''x'')"
        "snd (unregisterPeer [toySid] toyBroker2 (Some toyExpose) ''x'')"]
    by (simp add: toyBroker2(1))
qed

text \<open>
  (C5) The janitor evicts exactly the expired: in whatever order the maps are ranged over, a
  waiter stays if and only if it is younger than the waiter limit, a session if and only if it is
  younger than the session limit, the maps stay coherent, and the connections closed are exactly
  those of the evicted peers.
\<close>

theorem evictStale_exact:
  assumes "broker_inv b" "enumerates keys (b_waiting b)" "enumerates ids (b_sessions b)"
    and "evictStale keys ids lkeys now now' b = (b', es)"
  shows "broker_inv b'
     \<and> b_waiting b' k = (case b_waiting b k of None \<Rightarrow> None
                         | Some p \<Rightarrow> if p_createdAt p < now - b_waiterTTL b then None else Some p)
     \<and> b_sessions b' i = (case b_sessions b i of None \<Rightarrow> None
                         | Some s \<Rightarrow> if s_createdAt s < now - b_sessionTTL b then None else Some s)
     \<and> {c. CloseConn c \<in> set es} =
         {p_conn p | k p. b_waiting b k = Some p \<and> p_createdAt p < now - b_waiterTTL b}
       \<union> (\<Union> {{p_conn (s_first s), p_conn (s_second s)} | i s. b_sessions b i = Some s \<and> s_createdAt s < now - b_sessionTTL b})"
proof (intro conjI)
  obtain ws ss where c: "collectStale keys ids now b = (fst (collectStale keys ids now b), ws, ss)"
    by (metis prod.collapse)
  have b': "b' = (fst (collectStale keys ids now b))\<lparr>b_ipLimiter :=
      fst (Cleanup lkeys (b_ipLimiter (fst (collectStale keys ids now b)))
            (now' - b_limiterIdleTTL (fst (collectStale keys ids now b))))\<rparr>"
    and es: "es = concat (map evictWaiter ws) @ concat (map evictSession ss)"
    using assms(4) c unfolding evictStale_def by (auto split: prod.splits)
  show "broker_inv b'"
    using inv_collectStale [OF assms(1), of keys ids now] unfolding b' by (simp add: broker_inv_defs)
  show "b_waiting b' k = (case b_waiting b k of None \<Rightarrow> None
       | Some p \<Rightarrow> if p_createdAt p < now - b_waiterTTL b then None else Some p)"
    by (simp add: b' collectStale_waiting [OF assms(2)])
  show "b_sessions b' i = (case b_sessions b i of None \<Rightarrow> None
       | Some s \<Rightarrow> if s_createdAt s < now - b_sessionTTL b then None else Some s)"
    by (simp add: b' collectStale_sessions [OF assms(3)])
  have d: "distinct keys" "distinct ids" using assms(2,3) by (simp_all add: enumerates_def)
  have ws: "ws = map (\<lambda>k. the (b_waiting b k)) (filter (\<lambda>k. \<exists>p. b_waiting b k = Some p \<and> p_createdAt p < now - b_waiterTTL b) keys)"
    using c collectWaiters_list [OF d(1), of "now - b_waiterTTL b" "b_waiting b"]
    by (auto simp: collectStale_def split: prod.splits)
  have ss: "ss = map (\<lambda>i. \<lparr>es_id = i, es_first = s_first (the (b_sessions b i)), es_second = s_second (the (b_sessions b i))\<rparr>)
       (filter (\<lambda>i. \<exists>s. b_sessions b i = Some s \<and> s_createdAt s < now - b_sessionTTL b) ids)"
    using c collectSessions_list [OF d(2), of "now - b_sessionTTL b" "b_sessions b" "b_activeKey b"]
    by (auto simp: collectStale_def split: prod.splits)
  have ws_set: "set ws = {p. \<exists>k. b_waiting b k = Some p \<and> p_createdAt p < now - b_waiterTTL b}"
    unfolding ws using enumerates_mem [OF assms(2)] by force
  have ss_set: "(\<lambda>e. {p_conn (es_first e), p_conn (es_second e)}) ` set ss =
      {{p_conn (s_first s), p_conn (s_second s)} | i s. b_sessions b i = Some s \<and> s_createdAt s < now - b_sessionTTL b}"
    unfolding ss using enumerates_mem [OF assms(3)] by (force simp: image_iff)
  have "{c. CloseConn c \<in> set es} = p_conn ` set ws \<union> \<Union> ((\<lambda>e. {p_conn (es_first e), p_conn (es_second e)}) ` set ss)"
    by (auto simp: es evictWaiter_def evictSession_def)
  then show "{c. CloseConn c \<in> set es} =
         {p_conn p | k p. b_waiting b k = Some p \<and> p_createdAt p < now - b_waiterTTL b}
       \<union> (\<Union> {{p_conn (s_first s), p_conn (s_second s)} | i s. b_sessions b i = Some s \<and> s_createdAt s < now - b_sessionTTL b})"
    unfolding ss_set ws_set by blast
qed

theorem evictStale_exact_witness:
  "b_waiting (fst (evictStale [''k''] [] [] (10 * minute) 0 toyBroker1)) ''k'' = None"
proof -
  have e: "enumerates [''k''] (b_waiting toyBroker1)" "enumerates [] (b_sessions toyBroker1)"
    by (simp_all add: enumerates_def toyBroker1 toyBroker0_def)
  show ?thesis
    using evictStale_exact [OF toyBroker_inv(2) e prod.collapse [symmetric], of "[]" "10 * minute" 0 "''k''" "''x''"]
    by (simp add: toyBroker1 toyBroker0_def toyConnect_def DefaultWaiterTTL_def minute_def second_def)
qed

section \<open>The registry interface\<close>

text \<open>
  What the connection handlers rely on: a registry of peers that they join, leave and that a
  sweep may shrink.  Client traces are lists of such operations.
\<close>

lemma holds_members: "members b = p_id ` holds b"
  by (auto simp: members_def holds_def owns_def)

lemma holds_tryPair: "holds (fst (tryPair b p rnd now)) \<subseteq> insert p (holds b)"
  by (cases rule: tryPair_cases [of b p rnd now]) (auto simp: holds_def split: if_splits)

lemma holds_unregisterPeer:
  assumes inv: "broker_inv b" and en: "enumerates ks (b_sessions b)"
    and known: "\<And>q. q \<in> holds b \<Longrightarrow> p_id q = p_id p \<Longrightarrow> q = p"
  shows "holds (fst (unregisterPeer ks b (Some p) reason)) \<subseteq> holds b - {p}"
proof -
  obtain b' es where u: "unregisterPeer ks b (Some p) reason = (b', es)" by fastforce
  have "holds b' \<subseteq> holds b"
    using inv en by (cases rule: unregisterPeer_cases [where p = p and reason = reason])
      (use u in \<open>auto simp: holds_def split: if_splits\<close>)
  moreover have "p \<notin> holds b'"
    using inv en
  proof (cases rule: unregisterPeer_cases [where p = p and reason = reason])
    case waiting
    then obtain w where w: "b_waiting b (p_rendezvousKey p) = Some w" "p_id w = p_id p"
      by (auto simp: waitsHere_def split: option.splits)
    have none: "\<not> owns s (p_id p)" if "b_sessions b sid = Some s" for sid s
      using inv w that unfolding broker_inv_def ids_unique_def by metis
    have "b_waiting b k = Some p \<Longrightarrow> k = p_rendezvousKey p" for k
      using inv by (auto simp: broker_inv_def waiters_ok_def)
    with waiting u none show ?thesis by (auto simp: holds_def owns_def split: if_splits)
  next
    case (paired sid s)
    have "sid' = sid" if "b_sessions b sid' = Some s'" "p = s_first s' \<or> p = s_second s'" for sid' s'
      using inv that paired(2,3) unfolding broker_inv_def ids_unique_def by (metis owns_def)
    moreover have "b_waiting b k \<noteq> Some p" for k
      using inv paired(2,3) unfolding broker_inv_def ids_unique_def by metis
    ultimately show ?thesis using paired(4) u by (auto simp: holds_def split: if_splits)
  next
    case unknown
    have "b_waiting b k \<noteq> Some p" for k
      using inv unknown(1) by (auto simp: broker_inv_def waiters_ok_def waitsHere_def split: option.splits)
    with unknown u show ?thesis by (auto simp: holds_def owns_def)
  qed
  ultimately show ?thesis using u by auto
qed

lemma holds_evictStale:
  "enumerates keys (b_waiting b) \<Longrightarrow> enumerates ids (b_sessions b) \<Longrightarrow>
     holds (fst (evictStale keys ids lkeys now now' b)) \<subseteq> holds b"
  unfolding evictStale_def holds_def
  by (auto simp: case_prod_beta collectStale_waiting collectStale_sessions split: option.splits if_splits)

lemma inv_evictStale [inv_intros]: "broker_inv b \<Longrightarrow> broker_inv (fst (evictStale keys ids lkeys now now' b))"
  using inv_collectStale [of b keys ids now]
  unfolding evictStale_def by (simp add: case_prod_beta broker_inv_defs)

end
