(* ===== verification/BrokerSystem.thy ===== *)
theory BrokerSystem
  imports BrokerProofs
begin

text \<open>
  The broker as a concurrent system.  The handlers of the connections, the goroutines that deliver
  paired messages and the janitor interleave at the granularity of the broker's mutex: each step
  runs one critical section of one of them, with the writes that follow it.  First the contract
  the handlers rely on (a registry of peers) and what it gives for any trace of operations, then
  the system itself.
\<close>

section \<open>Definitions\<close>

subsection \<open>Traces of registry operations\<close>

datatype ('e, 'o, 'w) rop = Join peer 'e | Leave 'o peer | Sweep 'w

fun ropRun ::
  "('b \<Rightarrow> peer \<Rightarrow> 'e \<Rightarrow> 'b) \<Rightarrow> ('o \<Rightarrow> 'b \<Rightarrow> peer \<Rightarrow> 'b) \<Rightarrow> ('w \<Rightarrow> 'b \<Rightarrow> 'b) \<Rightarrow> 'b \<Rightarrow> ('e, 'o, 'w) rop list \<Rightarrow> 'b" where
  "ropRun jo le sw b [] = b"
| "ropRun jo le sw b (Join p e # ops) = ropRun jo le sw (jo b p e) ops"
| "ropRun jo le sw b (Leave x p # ops) = ropRun jo le sw (le x b p) ops"
| "ropRun jo le sw b (Sweep w # ops) = ropRun jo le sw (sw w b) ops"

text \<open>
  What the environment keeps to: a peer joins once, under an id no earlier peer had, with the
  guard of the operation satisfied; it leaves after it joined; map orders are orders of the maps.
\<close>

fun ropOK ::
  "('b \<Rightarrow> peer \<Rightarrow> 'e \<Rightarrow> 'b) \<Rightarrow> ('o \<Rightarrow> 'b \<Rightarrow> peer \<Rightarrow> 'b) \<Rightarrow> ('w \<Rightarrow> 'b \<Rightarrow> 'b)
    \<Rightarrow> ('b \<Rightarrow> peer \<Rightarrow> 'e \<Rightarrow> bool) \<Rightarrow> ('o \<Rightarrow> 'b \<Rightarrow> bool) \<Rightarrow> ('w \<Rightarrow> 'b \<Rightarrow> bool)
    \<Rightarrow> 'b \<Rightarrow> peer set \<Rightarrow> ('e, 'o, 'w) rop list \<Rightarrow> bool" where
  "ropOK jo le sw gj gl gs b seen [] = True"
| "ropOK jo le sw gj gl gs b seen (Join p e # ops) =
     (p_id p \<notin> p_id ` seen \<and> gj b p e \<and> ropOK jo le sw gj gl gs (jo b p e) (insert p seen) ops)"
| "ropOK jo le sw gj gl gs b seen (Leave x p # ops) =
     (p \<in> seen \<and> gl x b \<and> ropOK jo le sw gj gl gs (le x b p) seen ops)"
| "ropOK jo le sw gj gl gs b seen (Sweep w # ops) =
     (gs w b \<and> ropOK jo le sw gj gl gs (sw w b) seen ops)"

text \<open>The peers that joined and have not left since.\<close>

fun present :: "peer set \<Rightarrow> ('e, 'o, 'w) rop list \<Rightarrow> peer set" where
  "present s [] = s"
| "present s (Join p e # ops) = present (insert p s) ops"
| "present s (Leave x p # ops) = present (s - {p}) ops"
| "present s (Sweep w # ops) = present s ops"

locale peer_registry =
  fixes ok :: "'b \<Rightarrow> bool"
    and held :: "'b \<Rightarrow> peer set"
    and jo :: "'b \<Rightarrow> peer \<Rightarrow> 'e \<Rightarrow> 'b"
    and le :: "'o \<Rightarrow> 'b \<Rightarrow> peer \<Rightarrow> 'b"
    and sw :: "'w \<Rightarrow> 'b \<Rightarrow> 'b"
    and gj :: "'b \<Rightarrow> peer \<Rightarrow> 'e \<Rightarrow> bool"
    and gl :: "'o \<Rightarrow> 'b \<Rightarrow> bool"
    and gs :: "'w \<Rightarrow> 'b \<Rightarrow> bool"
  assumes join_law: "ok b \<Longrightarrow> gj b p e \<Longrightarrow> p_id p \<notin> p_id ` held b \<Longrightarrow>
                       ok (jo b p e) \<and> held (jo b p e) \<subseteq> insert p (held b)"
    and leave_law: "ok b \<Longrightarrow> gl x b \<Longrightarrow> (\<And>q. q \<in> held b \<Longrightarrow> p_id q = p_id p \<Longrightarrow> q = p) \<Longrightarrow>
                       ok (le x b p) \<and> held (le x b p) \<subseteq> held b - {p}"
    and sweep_law: "ok b \<Longrightarrow> gs w b \<Longrightarrow> ok (sw w b) \<and> held (sw w b) \<subseteq> held b"
begin

lemma run_held:
  assumes "ok b" "ropOK jo le sw gj gl gs b seen ops" "held b \<subseteq> here" "here \<subseteq> seen" "inj_on p_id seen"
  shows "ok (ropRun jo le sw b ops) \<and> held (ropRun jo le sw b ops) \<subseteq> present here ops"
  using assms
proof (induction ops arbitrary: b seen here)
  case (Cons a ops)
  show ?case
  proof (cases a)
    case (Join p e)
    with Cons.prems have new: "p_id p \<notin> p_id ` seen" "gj b p e" by simp_all
    then have "p_id p \<notin> p_id ` held b" using Cons.prems(3,4) by blast
    with join_law [OF Cons.prems(1) new(2)] have "ok (jo b p e)" "held (jo b p e) \<subseteq> insert p here"
      using Cons.prems(3) by auto
    moreover have "inj_on p_id (insert p seen)" using Cons.prems(5) new(1) by auto
    ultimately show ?thesis
      using Cons.IH [of "jo b p e" "insert p seen" "insert p here"] Cons.prems Join by auto
  next
    case (Leave x p)
    with Cons.prems have p: "p \<in> seen" "gl x b" by simp_all
    have "q = p" if "q \<in> held b" "p_id q = p_id p" for q
      using that p(1) Cons.prems(3-5) by (meson inj_onD subsetD)
    with leave_law [OF Cons.prems(1) p(2)] have "ok (le x b p)" "held (le x b p) \<subseteq> here - {p}"
      using Cons.prems(3) by blast+
    then show ?thesis
      using Cons.IH [of "le x b p" seen "here - {p}"] Cons.prems Leave by auto
  next
    case (Sweep w)
    with sweep_law [OF Cons.prems(1), of w] Cons.prems have "ok (sw w b)" "held (sw w b) \<subseteq> here" by auto
    then show ?thesis
      using Cons.IH [of "sw w b" seen here] Cons.prems Sweep by auto
  qed
qed simp

end

text \<open>The broker's operations in that shape.\<close>

definition brokerJoin :: "('r, 'l) broker \<Rightarrow> peer \<Rightarrow> bytes res \<times> time \<Rightarrow> ('r, 'l) broker" where
  "brokerJoin b p e = fst (tryPair b p (fst e) (snd e))"

definition brokerLeave :: "string list \<times> string \<Rightarrow> ('r, 'l) broker \<Rightarrow> peer \<Rightarrow> ('r, 'l) broker" where
  "brokerLeave x b p = fst (unregisterPeer (fst x) b (Some p) (snd x))"

definition brokerSweep ::
  "string list \<times> string list \<times> string list \<times> time \<times> time \<Rightarrow> ('r, 'l) broker \<Rightarrow> ('r, 'l) broker" where
  "brokerSweep w b = (case w of (keys, ids, lkeys, now, now') \<Rightarrow> fst (evictStale keys ids lkeys now now' b))"

definition joinGuard :: "('r, 'l) broker \<Rightarrow> peer \<Rightarrow> bytes res \<times> time \<Rightarrow> bool" where
  "joinGuard b p e \<longleftrightarrow> validMode (p_mode p) \<and> fresh_session_id b (fst e)"

definition leaveGuard :: "string list \<times> string \<Rightarrow> ('r, 'l) broker \<Rightarrow> bool" where
  "leaveGuard x b \<longleftrightarrow> enumerates (fst x) (b_sessions b)"

definition sweepGuard ::
  "string list \<times> string list \<times> string list \<times> time \<times> time \<Rightarrow> ('r, 'l) broker \<Rightarrow> bool" where
  "sweepGuard w b \<longleftrightarrow> enumerates (fst w) (b_waiting b) \<and> enumerates (fst (snd w)) (b_sessions b)"

subsection \<open>Handlers, deliveries and the janitor\<close>

text \<open>Where a connection's handler stands; \<open>HExit\<close> is the deferred cleanup.\<close>

datatype hpc = HRegister | HAck peer | HPair peer | HLoop peer | HExit peer | HDone

record ('r, 'l) sys =
  y_broker :: "('r, 'l) broker"
  y_threads :: "nat \<rightharpoonup> hpc"
  y_tasks :: "(string \<times> peer \<times> message) list"
  y_out :: "nat \<Rightarrow> message list"
  y_used :: "string set"
  y_read :: "nat \<Rightarrow> Signal list"

text \<open>The histories: \<open>y_out\<close> has the messages written to a connection, \<open>y_read\<close> the signals read from it.\<close>

definition readSignals :: "message res \<Rightarrow> Signal list" where
  "readSignals m =
     (case m of
        Inl err \<Rightarrow> []
      | Inr msg \<Rightarrow> if ms_Type msg = MessageTypeSignal then (case ms_Signal msg of None \<Rightarrow> [] | Some sg \<Rightarrow> [sg]) else [])"

fun writeEffects :: "effect list \<Rightarrow> (nat \<Rightarrow> message list) \<Rightarrow> (nat \<Rightarrow> message list)" where
  "writeEffects [] out = out"
| "writeEffects (Send p m # es) out = writeEffects es (out(p_conn p := out (p_conn p) @ [m]))"
| "writeEffects (SendConn c m # es) out = writeEffects es (out(c := out c @ [m]))"
| "writeEffects (_ # es) out = writeEffects es out"

fun spawned :: "effect list \<Rightarrow> (string \<times> peer \<times> message) list" where
  "spawned [] = []"
| "spawned (GoDeliver sid p m # es) = (sid, p, m) # spawned es"
| "spawned (_ # es) = spawned es"

definition sys_init :: "('r, 'l) broker \<Rightarrow> ('r, 'l) sys" where
  "sys_init b = \<lparr>y_broker = b, y_threads = Map.empty, y_tasks = [], y_out = (\<lambda>_. []), y_used = {}, y_read = (\<lambda>_. [])\<rparr>"

inductive sys_step :: "('r, 'l) rate_lib \<Rightarrow> unicode \<Rightarrow> ('r, 'l) sys \<Rightarrow> ('r, 'l) sys \<Rightarrow> bool"
  for R :: "('r, 'l) rate_lib" and U :: unicode where
  refuse: "handleUpgrade R U (y_broker y) r now e = (b', es, False) \<Longrightarrow>
     sys_step R U y (y\<lparr>y_broker := b'\<rparr>)"
| upgrade: "y_threads y c = None \<Longrightarrow> handleUpgrade R U (y_broker y) r now e = (b', es, True) \<Longrightarrow>
     sys_step R U y (y\<lparr>y_broker := b', y_threads := (y_threads y)(c \<mapsto> HRegister)\<rparr>)"
| register: "y_threads y c = Some HRegister \<Longrightarrow> registerPeer U c d1 m d2 rnd now = Inr p \<Longrightarrow>
     p_id p \<notin> y_used y \<Longrightarrow>
     sys_step R U y (y\<lparr>y_threads := (y_threads y)(c \<mapsto> HAck p), y_used := insert (p_id p) (y_used y)\<rparr>)"
| register_fail: "y_threads y c = Some HRegister \<Longrightarrow> registerPeer U c d1 m d2 rnd now = Inl err \<Longrightarrow>
     sys_step R U y (y\<lparr>y_threads := (y_threads y)(c \<mapsto> HDone),
                       y_out := writeEffects (handleRegisterFailed ip c err se) (y_out y)\<rparr>)"
| ack: "y_threads y c = Some (HAck p) \<Longrightarrow>
     sys_step R U y (y\<lparr>y_threads := (y_threads y)(c \<mapsto> HPair p),
                       y_out := writeEffects [Send p (registeredMessage p)] (y_out y)\<rparr>)"
| ack_fail: "y_threads y c = Some (HAck p) \<Longrightarrow>
     sys_step R U y (y\<lparr>y_threads := (y_threads y)(c \<mapsto> HExit p)\<rparr>)"
| pair: "y_threads y c = Some (HPair p) \<Longrightarrow> fresh_session_id (y_broker y) rnd \<Longrightarrow>
     tryPair (y_broker y) p rnd now = (b', es, None) \<Longrightarrow>
     sys_step R U y (y\<lparr>y_broker := b', y_threads := (y_threads y)(c \<mapsto> HLoop p), y_tasks := y_tasks y @ spawned es\<rparr>)"
| pair_fail: "y_threads y c = Some (HPair p) \<Longrightarrow> tryPair (y_broker y) p rnd now = (b', es, Some err) \<Longrightarrow>
     sys_step R U y (y\<lparr>y_broker := b', y_threads := (y_threads y)(c \<mapsto> HExit p),
                       y_out := writeEffects (pairingFailedEffects p err) (y_out y)\<rparr>)"
| loop: "y_threads y c = Some (HLoop p) \<Longrightarrow> enumerates ks (b_sessions (y_broker y)) \<Longrightarrow>
     handleMessage ks (y_broker y) p closeErr m relayErr = (es, ret) \<Longrightarrow>
     sys_step R U y (y\<lparr>y_threads := (y_threads y)(c \<mapsto> (if ret then HExit p else HLoop p)),
                       y_out := writeEffects es (y_out y), y_read := (y_read y)(c := y_read y c @ readSignals m)\<rparr>)"
| exit: "y_threads y c = Some (HExit p) \<Longrightarrow> enumerates ks (b_sessions (y_broker y)) \<Longrightarrow>
     handlerExit ks (y_broker y) p = (b', es) \<Longrightarrow>
     sys_step R U y (y\<lparr>y_broker := b', y_threads := (y_threads y)(c \<mapsto> HDone), y_out := writeEffects es (y_out y)\<rparr>)"
| deliver: "y_tasks y = ts @ (sid, p, m) # ts' \<Longrightarrow> enumerates ks (b_sessions (y_broker y)) \<Longrightarrow>
     deliverPaired ks (y_broker y) sid p m err = (b', es) \<Longrightarrow>
     sys_step R U y (y\<lparr>y_broker := b', y_tasks := ts @ ts', y_out := writeEffects es (y_out y)\<rparr>)"
| janitor: "enumerates keys (b_waiting (y_broker y)) \<Longrightarrow>
     enumerates ids (b_sessions (y_broker y)) \<Longrightarrow>
     evictStale keys ids lkeys now now' (y_broker y) = (b', es) \<Longrightarrow>
     sys_step R U y (y\<lparr>y_broker := b', y_out := writeEffects es (y_out y)\<rparr>)"
| shutdown: "sys_step R U y (y\<lparr>y_broker := Shutdown_stop (y_broker y)\<rparr>)"

inductive sys_reach :: "('r, 'l) rate_lib \<Rightarrow> unicode \<Rightarrow> ('r, 'l) broker \<Rightarrow> ('r, 'l) sys \<Rightarrow> bool"
  for R :: "('r, 'l) rate_lib" and U :: unicode and b0 :: "('r, 'l) broker" where
  start: "sys_reach R U b0 (sys_init b0)"
| step: "sys_reach R U b0 y \<Longrightarrow> sys_step R U y y' \<Longrightarrow> sys_reach R U b0 y'"

text \<open>The peer a handler works for, and the states in which that peer may be in the registry.\<close>

fun hpeer :: "hpc \<Rightarrow> peer option" where
  "hpeer (HAck p) = Some p" | "hpeer (HPair p) = Some p" | "hpeer (HLoop p) = Some p"
| "hpeer (HExit p) = Some p" | "hpeer _ = None"

definition registered :: "('r, 'l) sys \<Rightarrow> peer \<Rightarrow> bool" where
  "registered y p \<longleftrightarrow> y_threads y (p_conn p) = Some (HLoop p) \<or> y_threads y (p_conn p) = Some (HExit p)"

definition sys_inv :: "('r, 'l) sys \<Rightarrow> bool" where
  "sys_inv y \<longleftrightarrow>
     broker_inv (y_broker y)
   \<and> (\<forall>c h p. y_threads y c = Some h \<longrightarrow> hpeer h = Some p \<longrightarrow> p_conn p = c \<and> p_id p \<in> y_used y \<and> validMode (p_mode p))
   \<and> (\<forall>c h p c' h' p'. y_threads y c = Some h \<longrightarrow> hpeer h = Some p \<longrightarrow> y_threads y c' = Some h' \<longrightarrow> hpeer h' = Some p'
        \<longrightarrow> p_id p = p_id p' \<longrightarrow> p = p')
   \<and> (\<forall>p \<in> holds (y_broker y). registered y p)"

text \<open>A scenario: an expose peer waits on connection 1, a connect peer joins on connection 2.\<close>

definition openLib :: "(unit, unit) rate_lib" where
  "openLib = \<lparr>rt_Every = (\<lambda>_. ()), rt_NewLimiter = (\<lambda>_ _. ()), rt_AllowN = (\<lambda>l _ _. (l, True))\<rparr>"

definition raceU :: unicode where
  "raceU = \<lparr>uni_upper = id, uni_lower = id, uni_fold = (=)\<rparr>"

definition raceRequest :: http_request where
  "raceRequest = \<lparr>rq_RemoteAddr = ''192.0.2.1:1000'', rq_Host = ''broker'', rq_Header = (\<lambda>_. [])\<rparr>"

definition raceRegister :: "string \<Rightarrow> message" where
  "raceRegister mode = (Message MessageTypeRegister)
     \<lparr>ms_Register := Some \<lparr>rg_RendezvousToken = ''k'', rg_Mode = mode, rg_Version = []\<rparr>\<rparr>"

definition raceExpose :: peer where
  "raceExpose = \<lparr>p_id = EncodeToString (replicate 18 1), p_mode = ''expose'', p_rendezvousKey = ''k'', p_version = [],
                 p_conn = 1, p_createdAt = 0\<rparr>"

definition raceConnect :: peer where
  "raceConnect = \<lparr>p_id = EncodeToString (replicate 18 2), p_mode = ''connect'', p_rendezvousKey = ''k'', p_version = [],
                  p_conn = 2, p_createdAt = 0\<rparr>"

definition raceSignal :: message where
  "raceSignal = (Message MessageTypeSignal)
     \<lparr>ms_Signal := Some \<lparr>sg_Kind = SignalKindOffer, sg_SDP = Some \<lparr>sdp_Type = ''offer'', sdp_SDP = ''v=0''\<rparr>, sg_Candidate = None\<rparr>\<rparr>"

section \<open>The registry\<close>

interpretation br: peer_registry broker_inv holds brokerJoin brokerLeave brokerSweep joinGuard leaveGuard sweepGuard
proof
  show "broker_inv (brokerJoin b p e) \<and> holds (brokerJoin b p e) \<subseteq> insert p (holds b)"
    if "broker_inv b" "joinGuard b p e" "p_id p \<notin> p_id ` holds b" for b :: "('r, 'l) broker" and p e
    using that holds_tryPair [of b p]
    by (auto simp: brokerJoin_def joinGuard_def fresh_peer_def holds_members intro!: inv_tryPair)
  show "broker_inv (brokerLeave x b p) \<and> holds (brokerLeave x b p) \<subseteq> holds b - {p}"
    if "broker_inv b" "leaveGuard x b" "\<And>q. q \<in> holds b \<Longrightarrow> p_id q = p_id p \<Longrightarrow> q = p" for b :: "('r, 'l) broker" and p x
    using that holds_unregisterPeer [of b "fst x" p "snd x"]
    unfolding brokerLeave_def leaveGuard_def by (auto intro!: inv_unregisterPeer)
  show "broker_inv (brokerSweep w b) \<and> holds (brokerSweep w b) \<subseteq> holds b"
    if "broker_inv b" "sweepGuard w b" for b :: "('r, 'l) broker" and w
    using that holds_evictStale [of "fst w" b "fst (snd w)"]
    by (cases w) (auto simp: brokerSweep_def sweepGuard_def intro!: inv_evictStale)
qed

text \<open>
  Over any sequence of pairings, departures and janitor sweeps from a new broker, the
  broker's maps stay coherent and hold only peers that joined and have not left: no handler that
  ended leaves a ghost behind that could block a rendezvous key or be paired with.
\<close>

theorem broker_trace_coherent:
  assumes "NewBrokerWithOptions R opts = Inr b"
    and "ropOK brokerJoin brokerLeave brokerSweep joinGuard leaveGuard sweepGuard b {} ops"
  shows "broker_inv (ropRun brokerJoin brokerLeave brokerSweep b ops)
       \<and> holds (ropRun brokerJoin brokerLeave brokerSweep b ops) \<subseteq> present {} ops"
proof -
  have "holds b = {}" using NewBroker_members [OF assms(1)] by (simp add: holds_members)
  with br.run_held [OF NewBroker_inv [OF assms(1)] assms(2), of "{}"] show ?thesis by simp
qed

theorem broker_trace_coherent_witness:
  "holds (ropRun brokerJoin brokerLeave brokerSweep toyBroker0
     [Join toyConnect (toyRnd, 0), Leave ([], ''gone'') toyConnect]) \<subseteq> ({} :: peer set)"
proof -
  have new: "NewBrokerWithOptions countLib \<lparr>bo_TrustedProxies = [], bo_TrustedProxyHeader = [],
      bo_RatePerMinute = 0, bo_RateBurst = 10\<rparr> = Inr toyBroker0"
    by (simp add: NewBrokerWithOptions_def ParseTrustedProxies_def Let_def toyBroker0_def countLib_def
        TrimSpace_def TrimLeftSpace_def TrimRightSpace_def)
  have "ropOK brokerJoin brokerLeave brokerSweep joinGuard leaveGuard sweepGuard toyBroker0 {}
     [Join toyConnect (toyRnd, 0), Leave ([], ''gone'') toyConnect]"
    by (simp add: joinGuard_def leaveGuard_def brokerJoin_def validMode_def fresh_session_id_def toySid_eq
        enumerates_def tryPair_def toyConnect_def toyBroker0_def)
  from broker_trace_coherent [OF new this] show ?thesis by simp
qed

section \<open>The concurrent system\<close>

lemma registry_frame [simp]:
  "broker_inv (b\<lparr>b_ipLimiter := l\<rparr>) = broker_inv b" "holds (b\<lparr>b_ipLimiter := l\<rparr>) = holds b"
  "broker_inv (b\<lparr>b_stopped := x\<rparr>) = broker_inv b" "holds (b\<lparr>b_stopped := x\<rparr>) = holds b"
  unfolding broker_inv_defs holds_def by simp_all

lemma handleUpgrade_frame:
  assumes "handleUpgrade R U b r now e = (b', es, res)"
  shows "broker_inv b' = broker_inv b" "holds b' = holds b"
proof -
  obtain l where "b' = b\<lparr>b_ipLimiter := l\<rparr>"
    using assms by (auto simp: handleUpgrade_def Let_def split: prod.splits if_splits option.splits)
  then show "broker_inv b' = broker_inv b" "holds b' = holds b" by simp_all
qed

lemma registerPeer_Inr:
  "registerPeer U c d1 m d2 rnd now = Inr p \<Longrightarrow>
     p_conn p = c \<and> validMode (p_mode p) \<and> p_rendezvousKey p \<noteq> [] \<and> TrimSpace (p_rendezvousKey p) = p_rendezvousKey p"
  by (auto simp: registerPeer_def Let_def validMode_def dest: ParsePeerMode_Inr
      split: option.splits sum.splits if_splits bool.splits)

lemma tryPair_error: "tryPair b p rnd now = (b', es, Some e) \<Longrightarrow> b' = b"
  by (cases rule: tryPair_cases [of b p rnd now]) auto

lemma holds_unregisterPeer_sub:
  assumes "broker_inv b" "enumerates ks (b_sessions b)"
  shows "holds (fst (unregisterPeer ks b (Some p) reason)) \<subseteq> holds b"
  using assms
  by (cases rule: unregisterPeer_cases [where p = p and reason = reason]) (auto simp: holds_def split: if_splits)

lemma sys_invI:
  assumes "broker_inv (y_broker y)"
    and "\<And>c h p. y_threads y c = Some h \<Longrightarrow> hpeer h = Some p \<Longrightarrow> p_conn p = c \<and> p_id p \<in> y_used y \<and> validMode (p_mode p)"
    and "\<And>c h p c' h' p'. y_threads y c = Some h \<Longrightarrow> hpeer h = Some p \<Longrightarrow> y_threads y c' = Some h' \<Longrightarrow>
           hpeer h' = Some p' \<Longrightarrow> p_id p = p_id p' \<Longrightarrow> p = p'"
    and "\<And>p. p \<in> holds (y_broker y) \<Longrightarrow> registered y p"
  shows "sys_inv y"
  unfolding sys_inv_def using assms by simp

lemma sys_inv_broker: "sys_inv y \<Longrightarrow> broker_inv (y_broker y)"
  by (simp add: sys_inv_def)

lemma sys_inv_conn:
  "sys_inv y \<Longrightarrow> y_threads y c = Some h \<Longrightarrow> hpeer h = Some p \<Longrightarrow> p_conn p = c \<and> p_id p \<in> y_used y \<and> validMode (p_mode p)"
  by (simp add: sys_inv_def)

lemma sys_inv_unique:
  "sys_inv y \<Longrightarrow> y_threads y c = Some h \<Longrightarrow> hpeer h = Some p \<Longrightarrow> y_threads y c' = Some h' \<Longrightarrow>
     hpeer h' = Some p' \<Longrightarrow> p_id p = p_id p' \<Longrightarrow> p = p'"
  unfolding sys_inv_def by (elim conjE) (metis (no_types))

lemma sys_inv_registered: "sys_inv y \<Longrightarrow> p \<in> holds (y_broker y) \<Longrightarrow> registered y p"
  by (simp add: sys_inv_def)

text \<open>One thread moves on; everything the broker holds must still have its handler.\<close>

lemma sys_inv_move:
  assumes inv: "sys_inv y" and c: "y_threads y c = Some h"
    and peer: "\<And>p. hpeer h' = Some p \<Longrightarrow> hpeer h = Some p"
    and b': "broker_inv b'" "holds b' \<subseteq> holds (y_broker y) \<union> {p. h' = HLoop p}"
    and stay: "\<And>p. p \<in> holds b' \<Longrightarrow> h = HLoop p \<or> h = HExit p \<Longrightarrow> h' = HLoop p \<or> h' = HExit p"
    and y': "y_broker y' = b'" "y_threads y' = (y_threads y)(c \<mapsto> h')" "y_used y' = y_used y"
  shows "sys_inv y'"
proof (rule sys_invI)
  have prev: "\<exists>k0. y_threads y c' = Some k0 \<and> hpeer k0 = Some p" if "y_threads y' c' = Some k" "hpeer k = Some p" for c' k p
    using that peer c unfolding y' by (cases "c' = c") auto
  show "broker_inv (y_broker y')" using b'(1) by (simp add: y')
  show "p_conn p = c' \<and> p_id p \<in> y_used y' \<and> validMode (p_mode p)"
    if "y_threads y' c' = Some k" "hpeer k = Some p" for c' k p
    using prev [OF that] sys_inv_conn [OF inv] by (auto simp: y')
  show "p = p'" if "y_threads y' c1 = Some k" "hpeer k = Some p" "y_threads y' c2 = Some k'" "hpeer k' = Some p'"
      "p_id p = p_id p'" for c1 k p c2 k' p'
    using prev [OF that(1,2)] prev [OF that(3,4)] sys_inv_unique [OF inv] that(5) by metis
  show "registered y' p" if "p \<in> holds (y_broker y')" for p
  proof (cases "p \<in> holds (y_broker y)")
    case True
    then have r: "registered y p" by (rule sys_inv_registered [OF inv])
    show ?thesis
      using r stay [of p] that c unfolding registered_def y' by (cases "p_conn p = c") auto
  next
    case False
    then have h': "h' = HLoop p" using that b'(2) by (auto simp: y')
    with peer [of p] have "p_conn p = c" using sys_inv_conn [OF inv c] by simp
    with h' show ?thesis by (simp add: registered_def y')
  qed
qed

lemma sys_inv_same_threads:
  assumes "sys_inv y" "broker_inv (y_broker y')" "holds (y_broker y') \<subseteq> holds (y_broker y)"
    and "y_threads y' = y_threads y" "y_used y' = y_used y"
  shows "sys_inv y'"
proof (rule sys_invI)
  show "registered y' p" if "p \<in> holds (y_broker y')" for p
    using sys_inv_registered [OF assms(1), of p] that assms(3) by (auto simp: registered_def assms(4))
qed (use assms in \<open>auto dest: sys_inv_conn intro: sys_inv_unique\<close>)

lemma sys_inv_thread_peer:
  assumes "sys_inv y" "y_threads y c = Some h" "hpeer h = Some p" "q \<in> holds (y_broker y)" "p_id q = p_id p"
  shows "q = p"
proof -
  obtain h' where h': "y_threads y (p_conn q) = Some h'" "hpeer h' = Some q"
    using sys_inv_registered [OF assms(1,4)] unfolding registered_def by auto
  show ?thesis by (rule sys_inv_unique [OF assms(1) h' assms(2,3,5)])
qed

lemma sys_step_inv:
  assumes "sys_step R U y y'" "sys_inv y"
  shows "sys_inv y'"
  using assms
proof cases
  case (refuse r now e b' es)
  with sys_inv_broker [OF assms(2)] handleUpgrade_frame [OF refuse(2)] show ?thesis
    by (intro sys_inv_same_threads [OF assms(2)]) simp_all
next
  case (upgrade c r now e b' es)
  have i: "sys_inv (y\<lparr>y_broker := b'\<rparr>)"
    using handleUpgrade_frame [OF upgrade(3)] sys_inv_broker [OF assms(2)]
    by (intro sys_inv_same_threads [OF assms(2)]) simp_all
  show ?thesis
  proof (rule sys_invI)
    show "broker_inv (y_broker y')" using sys_inv_broker [OF i] by (simp add: upgrade(1))
    have prev: "y_threads y c' = Some h" if "y_threads y' c' = Some h" "hpeer h = Some p" for c' h p
      using that by (auto simp: upgrade(1) split: if_splits)
    show "p_conn p = c' \<and> p_id p \<in> y_used y' \<and> validMode (p_mode p)"
      if "y_threads y' c' = Some h" "hpeer h = Some p" for c' h p
      using sys_inv_conn [OF assms(2) prev [OF that] that(2)] by (simp add: upgrade(1))
    show "p = p'" if "y_threads y' c1 = Some k" "hpeer k = Some p" "y_threads y' c2 = Some k'" "hpeer k' = Some p'"
        "p_id p = p_id p'" for c1 k p c2 k' p'
      by (rule sys_inv_unique [OF assms(2) prev [OF that(1,2)] that(2) prev [OF that(3,4)] that(4,5)])
    show "registered y' p" if "p \<in> holds (y_broker y')" for p
      using sys_inv_registered [OF i, of p] that upgrade(2) by (auto simp: upgrade(1) registered_def)
  qed
next
  case (register c d1 m d2 rnd now p)
  note p = registerPeer_Inr [OF register(3)]
  have prev: "c' = c \<and> q = p \<or> c' \<noteq> c \<and> y_threads y c' = Some h" if "y_threads y' c' = Some h" "hpeer h = Some q" for c' h q
    using that by (auto simp: register(1) split: if_splits)
  have old: "p_id q \<in> y_used y" if "y_threads y c' = Some h" "hpeer h = Some q" for c' h q
    using sys_inv_conn [OF assms(2) that] by simp
  show ?thesis
  proof (rule sys_invI)
    show "broker_inv (y_broker y')" using sys_inv_broker [OF assms(2)] by (simp add: register(1))
    show "p_conn q = c' \<and> p_id q \<in> y_used y' \<and> validMode (p_mode q)"
      if "y_threads y' c' = Some h" "hpeer h = Some q" for c' h q
      using prev [OF that] p sys_inv_conn [OF assms(2) _ that(2), of c'] by (auto simp: register(1))
    show "q = q'" if "y_threads y' c1 = Some k" "hpeer k = Some q" "y_threads y' c2 = Some k'" "hpeer k' = Some q'"
        "p_id q = p_id q'" for c1 k q c2 k' q'
      using prev [OF that(1,2)] prev [OF that(3,4)] old [OF _ that(2), of c1] old [OF _ that(4), of c2] register(4)
        sys_inv_unique [OF assms(2) _ that(2) _ that(4,5), of c1 c2] that(5) by auto
    show "registered y' q" if "q \<in> holds (y_broker y')" for q
      using sys_inv_registered [OF assms(2), of q] that register(2) by (auto simp: register(1) registered_def)
  qed
next
  case (register_fail c d1 m d2 rnd now err ip se)
  show ?thesis
    by (rule sys_inv_move [OF assms(2) register_fail(2), of HDone "y_broker y"])
       (use sys_inv_broker [OF assms(2)] in \<open>simp_all add: register_fail(1)\<close>)
next
  case (ack c p)
  show ?thesis
    by (rule sys_inv_move [OF assms(2) ack(2), of "HPair p" "y_broker y"])
       (use sys_inv_broker [OF assms(2)] in \<open>simp_all add: ack(1)\<close>)
next
  case (ack_fail c p)
  show ?thesis
    by (rule sys_inv_move [OF assms(2) ack_fail(2), of "HExit p" "y_broker y"])
       (use sys_inv_broker [OF assms(2)] in \<open>simp_all add: ack_fail(1)\<close>)
next
  case (pair c p rnd now b' es)
  have fresh: "fresh_peer (y_broker y) p"
  proof -
    have "p_id p \<notin> members (y_broker y)"
    proof
      assume "p_id p \<in> members (y_broker y)"
      then obtain q where q: "q \<in> holds (y_broker y)" "p_id q = p_id p" by (auto simp: holds_members)
      then have "q = p" using sys_inv_thread_peer [OF assms(2) pair(2)] by simp
      with q(1) assms(2) have "registered y p" by (simp add: sys_inv_def)
      moreover have "p_conn p = c" using sys_inv_conn [OF assms(2) pair(2)] by simp
      ultimately show False using pair(2) by (simp add: registered_def)
    qed
    then show ?thesis
      using sys_inv_conn [OF assms(2) pair(2)] by (simp add: fresh_peer_def)
  qed
  have b': "b' = fst (tryPair (y_broker y) p rnd now)" using pair(4) by simp
  have "broker_inv b'" unfolding b' using sys_inv_broker [OF assms(2)] fresh pair(3) by (rule inv_tryPair)
  moreover have "holds b' \<subseteq> insert p (holds (y_broker y))" unfolding b' by (rule holds_tryPair)
  ultimately show ?thesis
    by (intro sys_inv_move [OF assms(2) pair(2), of "HLoop p" b']) (auto simp: pair(1))
next
  case (pair_fail c p rnd now b' es err)
  show ?thesis
    by (rule sys_inv_move [OF assms(2) pair_fail(2), of "HExit p" "y_broker y"])
       (use sys_inv_broker [OF assms(2)] tryPair_error [OF pair_fail(3)] in \<open>simp_all add: pair_fail(1)\<close>)
next
  case (loop c p ks closeErr m relayErr es ret)
  show ?thesis
    by (rule sys_inv_move [OF assms(2) loop(2), of "if ret then HExit p else HLoop p" "y_broker y"])
       (use sys_inv_broker [OF assms(2)] in \<open>auto simp: loop(1) split: if_splits\<close>)
next
  case (exit c p ks b' es)
  have b': "b' = fst (unregisterPeer ks (y_broker y) (Some p) ''peer disconnected'')"
    using exit(4) by (auto simp: handlerExit_def split: prod.splits)
  have known: "q = p" if "q \<in> holds (y_broker y)" "p_id q = p_id p" for q
    using sys_inv_thread_peer [OF assms(2) exit(2)] that by simp
  have "broker_inv b'" "holds b' \<subseteq> holds (y_broker y) - {p}"
    unfolding b' using sys_inv_broker [OF assms(2)] exit(3) known
    by (auto intro!: inv_unregisterPeer dest!: holds_unregisterPeer [THEN subsetD, rotated 3])
  then show ?thesis
    by (intro sys_inv_move [OF assms(2) exit(2), of HDone b']) (auto simp: exit(1))
next
  case (deliver ts sid p m ts' ks err b' es)
  have "b' = y_broker y \<or> b' = fst (unregisterPeer ks (y_broker y) (Some p) ''pair delivery failed'')"
    using deliver(4) by (auto simp: deliverPaired_def split: option.splits prod.splits)
  then have "broker_inv b'" "holds b' \<subseteq> holds (y_broker y)"
    using inv_unregisterPeer [OF sys_inv_broker [OF assms(2)] deliver(3)] sys_inv_broker [OF assms(2)]
      holds_unregisterPeer_sub [OF sys_inv_broker [OF assms(2)] deliver(3), of p "''pair delivery failed''"] by auto
  then show ?thesis
    by (intro sys_inv_same_threads [OF assms(2)]) (simp_all add: deliver(1))
next
  case (janitor keys ids lkeys now now' b' es)
  have "b' = fst (evictStale keys ids lkeys now now' (y_broker y))" using janitor(4) by simp
  then have "broker_inv b'" "holds b' \<subseteq> holds (y_broker y)"
    using holds_evictStale [OF janitor(2,3), of lkeys now now'] inv_evictStale [OF sys_inv_broker [OF assms(2)]]
    by auto
  then show ?thesis
    by (intro sys_inv_same_threads [OF assms(2)]) (simp_all add: janitor(1))
next
  case shutdown
  then show ?thesis
    using sys_inv_broker [OF assms(2)]
    by (intro sys_inv_same_threads [OF assms(2)]) (simp_all add: Shutdown_stop_def)
qed

text \<open>
  (C1) The concurrent broker stays coherent: in every state that handlers, delivery goroutines and
  janitor can reach, in any interleaving, the three maps agree (a key is active exactly for its
  one session, which has one expose and one connect peer of that key; a waiter's key is not
  active; no peer is in two places), and every peer the broker holds belongs to a handler that is
  still in its read loop or about to clean up.
\<close>

theorem concurrent_broker_coherent:
  assumes "NewBrokerWithOptions R opts = Inr b0" "sys_reach R U b0 y"
  shows "broker_inv (y_broker y) \<and> (\<forall>p \<in> holds (y_broker y). registered y p)"
proof -
  have "sys_inv y"
    using assms(2)
  proof induction
    case start
    have "holds b0 = {}" using NewBroker_members [OF assms(1)] by (simp add: holds_members)
    then show ?case
      by (intro sys_invI) (simp_all add: sys_init_def NewBroker_inv [OF assms(1)])
  qed (rule sys_step_inv)
  then show ?thesis using sys_inv_broker sys_inv_registered by blast
qed

section \<open>The delivery race\<close>

lemma race_upgrade: "\<exists>l. handleUpgrade openLib U b r 0 None = (b\<lparr>b_ipLimiter := l\<rparr>, [], True)"
  by (simp add: handleUpgrade_def openLib_def Allow_def Let_def) blast

lemma race_register:
  "registerPeer raceU 1 None (Inr (raceRegister ''expose'')) None (Inr (replicate 18 1)) 0 = Inr raceExpose"
  "registerPeer raceU 2 None (Inr (raceRegister ''connect'')) None (Inr (replicate 18 2)) 0 = Inr raceConnect"
  by code_simp+

lemma race_ids: "p_id raceExpose \<noteq> p_id raceConnect" "randomID (Inr (replicate 18 0)) = Inr toySid"
    "p_rendezvousKey raceExpose = ''k''" "p_rendezvousKey raceConnect = ''k''"
    "p_mode raceExpose = ''expose''" "p_mode raceConnect = ''connect''" "p_conn raceExpose = 1" "p_conn raceConnect = 2"
  by code_simp+

lemma race_run:
  assumes b: "b_waiting b0 = Map.empty" "b_activeKey b0 = Map.empty" "b_sessions b0 = Map.empty"
  shows "\<exists>y. sys_reach openLib raceU b0 y
     \<and> y_out y 1 = [registeredMessage raceExpose, raceSignal, pairedMessage toySid False ''connect'']
     \<and> y_out y 2 = [registeredMessage raceConnect, pairedMessage toySid True ''expose'']"
proof -
  obtain l1 where u1: "handleUpgrade openLib raceU b0 raceRequest 0 None = (b0\<lparr>b_ipLimiter := l1\<rparr>, [], True)"
    using race_upgrade by blast
  obtain l2 where u2: "handleUpgrade openLib raceU (b0\<lparr>b_ipLimiter := l1\<rparr>) raceRequest 0 None = (b0\<lparr>b_ipLimiter := l2\<rparr>, [], True)"
    using race_upgrade [of raceU "b0\<lparr>b_ipLimiter := l1\<rparr>" raceRequest] by auto
  let ?b = "b0\<lparr>b_ipLimiter := l2\<rparr>"
  let ?w = "?b\<lparr>b_waiting := [''k'' \<mapsto> raceExpose]\<rparr>"
  let ?m1 = "pairedMessage toySid False ''connect''" and ?m2 = "pairedMessage toySid True ''expose''"
  let ?s = "\<lparr>s_id = toySid, s_rendezvousKey = ''k'', s_first = raceExpose, s_second = raceConnect, s_createdAt = 0\<rparr>"
  let ?p = "?b\<lparr>b_waiting := Map.empty, b_activeKey := [''k'' \<mapsto> toySid], b_sessions := [toySid \<mapsto> ?s]\<rparr>"
  let ?z = "\<lambda>b t ts o' u rd. \<lparr>y_broker = b, y_threads = t, y_tasks = ts, y_out = o', y_used = u, y_read = rd\<rparr>"
  let ?y = "\<lambda>b t ts o' u. ?z b t ts o' u (\<lambda>_. [])"
  let ?o0 = "\<lambda>_. [] :: message list"
  let ?o1 = "?o0(1 := [registeredMessage raceExpose])"
  let ?o2 = "?o1(2 := [registeredMessage raceConnect])"
  let ?i1 = "{p_id raceExpose}" and ?i2 = "{p_id raceConnect, p_id raceExpose}"
  let ?R = "sys_reach openLib raceU b0"
  have 0: "?R (?y b0 Map.empty [] ?o0 {})"
    using sys_reach.start [of openLib raceU b0] by (simp add: sys_init_def)
  have 1: "?R (?y (b0\<lparr>b_ipLimiter := l1\<rparr>) [1 \<mapsto> HRegister] [] ?o0 {})"
    using sys_reach.step [OF 0 sys_step.upgrade [where c = 1]] u1 by fastforce
  have 2: "?R (?y ?b [1 \<mapsto> HRegister, 2 \<mapsto> HRegister] [] ?o0 {})"
    using sys_reach.step [OF 1 sys_step.upgrade [where c = 2]] u2 by fastforce
  have 3: "?R (?y ?b [1 \<mapsto> HAck raceExpose, 2 \<mapsto> HRegister] [] ?o0 ?i1)"
    using sys_reach.step [OF 2 sys_step.register [where c = 1, OF _ race_register(1)]]
    by (simp add: fun_upd_twist)
  have 4: "?R (?y ?b [1 \<mapsto> HAck raceExpose, 2 \<mapsto> HAck raceConnect] [] ?o0 ?i2)"
    using sys_reach.step [OF 3 sys_step.register [where c = 2, OF _ race_register(2)]] race_ids(1) by simp
  have 5: "?R (?y ?b [1 \<mapsto> HPair raceExpose, 2 \<mapsto> HAck raceConnect] [] ?o1 ?i2)"
    using sys_reach.step [OF 4 sys_step.ack [where c = 1 and p = raceExpose]] by (simp add: fun_upd_twist race_ids)
  have 6: "?R (?y ?b [1 \<mapsto> HPair raceExpose, 2 \<mapsto> HPair raceConnect] [] ?o2 ?i2)"
    using sys_reach.step [OF 5 sys_step.ack [where c = 2 and p = raceConnect]] by (simp add: race_ids)
  have t1: "tryPair ?b raceExpose (Inr (replicate 18 0)) 0 = (?w, [], None)"
    using b by (simp add: tryPair_def race_ids)
  have 7: "?R (?y ?w [1 \<mapsto> HLoop raceExpose, 2 \<mapsto> HPair raceConnect] [] ?o2 ?i2)"
    using sys_reach.step [OF 6 sys_step.pair [where c = 1 and p = raceExpose and rnd = "Inr (replicate 18 0)" and now = 0]] b t1
    by (simp add: fun_upd_twist fresh_session_id_def race_ids toySid_eq)
  have t2: "\<exists>lg. tryPair ?w raceConnect (Inr (replicate 18 0)) 0 =
      (?p, [GoDeliver toySid raceExpose ?m1, GoDeliver toySid raceConnect ?m2, Log ''paired'' lg], None)"
    using b race_ids by (simp add: tryPair_def Let_def)
  then obtain lg where t2: "tryPair ?w raceConnect (Inr (replicate 18 0)) 0 =
      (?p, [GoDeliver toySid raceExpose ?m1, GoDeliver toySid raceConnect ?m2, Log ''paired'' lg], None)" by blast
  have 8: "?R (?y ?p [1 \<mapsto> HLoop raceExpose, 2 \<mapsto> HLoop raceConnect]
      [(toySid, raceExpose, ?m1), (toySid, raceConnect, ?m2)] ?o2 ?i2)"
    using sys_reach.step [OF 7 sys_step.pair [where c = 2 and p = raceConnect and rnd = "Inr (replicate 18 0)" and now = 0]] b t2
    by (simp add: fresh_session_id_def race_ids toySid_eq)
  have en: "enumerates [toySid] (b_sessions ?p)" by (simp add: enumerates_def)
  have h: "handleMessage [toySid] ?p raceConnect (\<lambda>_. False) (Inr raceSignal) None = ([Send raceExpose raceSignal], False)"
    using race_ids(1) by (simp add: handleMessage_def relaySignal_def sessionPeers_def findSessionPeerLocked_def
        raceSignal_def Message_def toySid_eq)
  have d: "deliverPaired [toySid] ?p toySid q m None = (?p, [Send q m])" for q m
    by (simp add: deliverPaired_def)
  let ?o3 = "?o2(2 := [registeredMessage raceConnect, ?m2])"
  have 9: "?R (?y ?p [1 \<mapsto> HLoop raceExpose, 2 \<mapsto> HLoop raceConnect] [(toySid, raceExpose, ?m1)] ?o3 ?i2)"
    using sys_reach.step [OF 8 sys_step.deliver [where ts = "[(toySid, raceExpose, ?m1)]" and ks = "[toySid]"
        and err = None]] en d by (simp add: race_ids)
  let ?rd = "(\<lambda>_. [] :: Signal list)(2 := readSignals (Inr raceSignal))"
  have 10: "?R (?z ?p [1 \<mapsto> HLoop raceExpose, 2 \<mapsto> HLoop raceConnect]
      [(toySid, raceExpose, ?m1)] (?o3(1 := [registeredMessage raceExpose, raceSignal])) ?i2 ?rd)"
    using sys_reach.step [OF 9 sys_step.loop [where c = 2 and p = raceConnect and ks = "[toySid]" and m = "Inr raceSignal"
        and closeErr = "\<lambda>_. False" and relayErr = None and ret = False]] en h
    by (simp add: race_ids fun_upd_twist)
  have "?R (?z ?p [1 \<mapsto> HLoop raceExpose, 2 \<mapsto> HLoop raceConnect] []
      (?o3(1 := [registeredMessage raceExpose, raceSignal, ?m1])) ?i2 ?rd)"
    using sys_reach.step [OF 10 sys_step.deliver [where ts = "[]" and ks = "[toySid]" and err = None]] en d
    by (simp add: race_ids fun_upd_twist)
  then show ?thesis by (auto intro!: exI)
qed

theorem concurrent_broker_coherent_witness:
  "\<exists>b0 y. NewBroker openLib = Inr b0 \<and> sys_reach openLib raceU b0 y
     \<and> y_out y 2 = [registeredMessage raceConnect, pairedMessage toySid True ''expose''] \<and> broker_inv (y_broker y)"
proof -
  obtain b0 where new: "NewBroker openLib = Inr b0" using NewBroker_never_fails by blast
  then have "b_waiting b0 = Map.empty" "b_activeKey b0 = Map.empty" "b_sessions b0 = Map.empty"
    by (auto simp: NewBroker_def NewBrokerWithOptions_def Let_def split: sum.splits)
  from race_run [OF this] obtain y where y: "sys_reach openLib raceU b0 y"
    "y_out y 2 = [registeredMessage raceConnect, pairedMessage toySid True ''expose'']" by blast
  with concurrent_broker_coherent [OF new [unfolded NewBroker_def] y(1)] new show ?thesis by blast
qed

text \<open>
  (C7) Paired messages can be overtaken.  The two paired messages are delivered by goroutines of
  their own, so a peer that has its paired message can send a signal that the broker writes to
  the other peer before that peer's own paired message.  Some reachable state has a peer whose
  socket carries the acknowledgement, then the signal, then the paired message; the peer program
  treats a signal before pairing as fatal.
\<close>

theorem paired_message_can_be_overtaken:
  "\<exists>b0 y c p sig. NewBroker openLib = Inr b0 \<and> sys_reach openLib raceU b0 y
     \<and> ms_Type sig = MessageTypeSignal \<and> ms_Signal sig \<noteq> None
     \<and> y_out y c = [registeredMessage p, sig, pairedMessage toySid False ''connect'']"
proof -
  obtain b0 where new: "NewBroker openLib = Inr b0" using NewBroker_never_fails by blast
  then have "b_waiting b0 = Map.empty" "b_activeKey b0 = Map.empty" "b_sessions b0 = Map.empty"
    by (auto simp: NewBroker_def NewBrokerWithOptions_def Let_def split: sum.splits)
  from race_run [OF this] obtain y where "sys_reach openLib raceU b0 y"
    "y_out y 1 = [registeredMessage raceExpose, raceSignal, pairedMessage toySid False ''connect'']" by blast
  with new show ?thesis
    by (intro exI [of _ b0] exI [of _ y] exI [of _ 1] exI [of _ raceExpose] exI [of _ raceSignal])
       (simp add: raceSignal_def Message_def)
qed

end
