(* ===== verification/BrokerRelay.thy ===== *)
theory BrokerRelay
  imports BrokerSystem
begin

text \<open>
  The broker as a channel: what the signals written to a connection are, in every reachable state of the concurrent
  broker, compared with the signals read from the connection of its partner.
\<close>

section \<open>Specifications\<close>

definition messageSignals :: "message list \<Rightarrow> Signal list" where
  "messageSignals ms = concat (map (\<lambda>m. case ms_Signal m of None \<Rightarrow> [] | Some sg \<Rightarrow> [sg]) ms)"

definition signalsTo :: "('r, 'l) sys \<Rightarrow> nat \<Rightarrow> Signal list" where
  "signalsTo y c = messageSignals (y_out y c)"

text \<open>Two peers of one session, in either order.\<close>

definition sessionPair :: "('r, 'l) broker \<Rightarrow> peer \<Rightarrow> peer \<Rightarrow> bool" where
  "sessionPair b p q \<longleftrightarrow>
     (\<exists>sid s. b_sessions b sid = Some s \<and> (p = s_first s \<and> q = s_second s \<or> p = s_second s \<and> q = s_first s))"

text \<open>What has been relayed from \<open>p\<close> to \<open>q\<close> is what was read from \<open>p\<close> so far; when the handler of \<open>p\<close> is leaving its loop, the last may be missing.\<close>

definition relayedTo :: "('r, 'l) sys \<Rightarrow> peer \<Rightarrow> peer \<Rightarrow> bool" where
  "relayedTo y p q \<longleftrightarrow>
     (\<exists>rest. y_read y (p_conn p) = signalsTo y (p_conn q) @ rest)
   \<and> (y_threads y (p_conn p) = Some (HLoop p) \<longrightarrow> y_read y (p_conn p) = signalsTo y (p_conn q))"

text \<open>A connection whose peer has not been handed to \<open>tryPair\<close> yet.\<close>

definition early :: "hpc option \<Rightarrow> bool" where
  "early t \<longleftrightarrow> (case t of None \<Rightarrow> True | Some HRegister \<Rightarrow> True | Some (HAck p) \<Rightarrow> True | Some (HPair p) \<Rightarrow> True | _ \<Rightarrow> False)"

definition relay_inv :: "('r, 'l) sys \<Rightarrow> bool" where
  "relay_inv y \<longleftrightarrow>
     (\<forall>c. early (y_threads y c) \<longrightarrow> y_read y c = [] \<and> signalsTo y c = [])
   \<and> (\<forall>k p. b_waiting (y_broker y) k = Some p \<longrightarrow>
        signalsTo y (p_conn p) = [] \<and> (y_threads y (p_conn p) = Some (HLoop p) \<longrightarrow> y_read y (p_conn p) = []))
   \<and> (\<forall>p q. sessionPair (y_broker y) p q \<longrightarrow> relayedTo y p q)
   \<and> (\<forall>c'. \<exists>c rest. c \<noteq> c' \<and> y_read y c = signalsTo y c' @ rest)"

section \<open>Effects\<close>

fun effectSignals :: "nat \<Rightarrow> effect list \<Rightarrow> Signal list" where
  "effectSignals c [] = []"
| "effectSignals c (Send p m # es) = (if p_conn p = c then messageSignals [m] else []) @ effectSignals c es"
| "effectSignals c (SendConn d m # es) = (if d = c then messageSignals [m] else []) @ effectSignals c es"
| "effectSignals c (_ # es) = effectSignals c es"

lemma messageSignals_simps [simp]:
  "messageSignals [] = []" "messageSignals (ms @ ns) = messageSignals ms @ messageSignals ns"
  "messageSignals [m] = (case ms_Signal m of None \<Rightarrow> [] | Some sg \<Rightarrow> [sg])"
  by (simp_all add: messageSignals_def)

lemma effectSignals_append [simp]: "effectSignals c (es @ fs) = effectSignals c es @ effectSignals c fs"
  by (induction c es rule: effectSignals.induct) simp_all

lemma writeEffects_signals: "messageSignals (writeEffects es out c) = messageSignals (out c) @ effectSignals c es"
proof (induction es arbitrary: out)
  case (Cons e es)
  then show ?case by (cases e) simp_all
qed simp

lemma no_signal [simp]:
  "ms_Signal (brokerError code t) = None" "ms_Signal (registeredMessage p) = None" "ms_Signal (pairedMessage sid i mo) = None"
  "ms_Signal (pongMessage m) = None" "ms_Signal (peerLeftMessage r) = None"
  by (simp_all add: brokerError_def registeredMessage_def pairedMessage_def pongMessage_def peerLeftMessage_def Message_def)

lemma quiet_effects:
  "effectSignals c (snd (unregisterPeer ks b mp reason)) = []"
  "effectSignals c (handleRegisterFailed ip d err se) = []"
  "effectSignals c (pairingFailedEffects p e) = []"
  "effectSignals c (snd (handlerExit ks b p)) = []"
  "effectSignals c (snd (evictStale keys ids lkeys now now' b)) = []"
  "ms_Signal m = None \<Longrightarrow> effectSignals c (snd (deliverPaired ks b sid p m de)) = []"
proof -
  show u: "effectSignals c (snd (unregisterPeer ks b mp reason)) = []" for ks b mp reason
    by (simp add: unregisterPeer_def split: option.splits prod.splits)
  show "effectSignals c (handleRegisterFailed ip d err se) = []"
    by (simp add: handleRegisterFailed_def writeAndClose_def split: option.splits)
  show "effectSignals c (pairingFailedEffects p e) = []" by (simp add: pairingFailedEffects_def)
  show "effectSignals c (snd (handlerExit ks b p)) = []"
    using u [of ks b "Some p" "''peer disconnected''"] by (auto simp: handlerExit_def split: prod.splits)
  have "effectSignals c (concat (map evictWaiter ps)) = []" "effectSignals c (concat (map evictSession ss)) = []" for ps ss
    by (induction ps; simp add: evictWaiter_def) (induction ss; simp add: evictSession_def)
  then show "effectSignals c (snd (evictStale keys ids lkeys now now' b)) = []"
    by (simp add: evictStale_def split: prod.splits)
  show "effectSignals c (snd (deliverPaired ks b sid p m de)) = []" if "ms_Signal m = None"
    using u [of ks b "Some p" "''pair delivery failed''"] that by (auto simp: deliverPaired_def split: prod.splits option.splits)
qed

text \<open>The read loop writes a signal exactly when it reads one and the peer has a partner; otherwise a signal ends the loop.\<close>

lemma handleMessage_signals:
  assumes "broker_inv b" "enumerates ks (b_sessions b)" "handleMessage ks b p ce m re = (es, ret)"
  obtains (none) "readSignals m = []" "\<And>c. effectSignals c es = []"
  | (relayed) sg sid s where "readSignals m = [sg]" "b_sessions b sid = Some s" "owns s (p_id p)"
      "\<And>c. effectSignals c es = (if p_conn (partner s (p_id p)) = c then [sg] else [])"
  | (unpaired) sg where "readSignals m = [sg]" "\<And>sid s. b_sessions b sid = Some s \<Longrightarrow> \<not> owns s (p_id p)"
      "\<And>c. effectSignals c es = []" ret
proof (cases "\<exists>msg sg. m = Inr msg \<and> ms_Type msg = ''signal'' \<and> ms_Signal msg = Some sg")
  case False
  then have "readSignals m = []" by (auto simp: readSignals_def split: sum.splits option.splits)
  moreover have "effectSignals c es = []" for c
    using False assms(3) by (auto simp: handleMessage_def split: sum.splits option.splits if_splits)
  ultimately show ?thesis by (rule none)
next
  case True
  then obtain msg sg where m: "m = Inr msg" "ms_Type msg = ''signal''" "ms_Signal msg = Some sg" by blast
  then have r: "readSignals m = [sg]" by (simp add: readSignals_def)
  show ?thesis
  proof (cases "\<exists>sid s. b_sessions b sid = Some s \<and> owns s (p_id p)")
    case True
    then obtain sid s where s: "b_sessions b sid = Some s" "owns s (p_id p)" by blast
    have "sid \<noteq> []" using assms(1) s(1) by (auto simp: broker_inv_def session_ok_def)
    then have "relaySignal ks b p sg re = ([Send (partner s (p_id p)) ((Message ''signal'')\<lparr>ms_Signal := Some sg\<rparr>)], re)"
      by (simp add: relaySignal_def sessionPeers_def findSession_owned [OF assms(1,2) s])
    with assms(3) m have "effectSignals c es = (if p_conn (partner s (p_id p)) = c then [sg] else [])" for c
      by (auto simp: handleMessage_def split: option.splits)
    with r s show ?thesis by (intro relayed)
  next
    case False
    then have "relaySignal ks b p sg re = ([], Some (errors_New ''peer is not paired''))"
      using findSession_none [of b p ks] by (simp add: relaySignal_def sessionPeers_def)
    with assms(3) m have "ret" "\<And>c. effectSignals c es = []" by (auto simp: handleMessage_def)
    with r False show ?thesis by (intro unpaired) blast+
  qed
qed

section \<open>The invariant\<close>

lemma sessionPair_mono: "b_sessions b' \<subseteq>\<^sub>m b_sessions b \<Longrightarrow> sessionPair b' p q \<Longrightarrow> sessionPair b p q"
  unfolding sessionPair_def map_le_def dom_def by (metis (mono_tags, lifting) mem_Collect_eq option.distinct(1))

lemma relay_invI:
  assumes "\<And>c. early (y_threads y c) \<Longrightarrow> y_read y c = [] \<and> signalsTo y c = []"
    and "\<And>k p. b_waiting (y_broker y) k = Some p \<Longrightarrow> signalsTo y (p_conn p) = []"
    and "\<And>k p. b_waiting (y_broker y) k = Some p \<Longrightarrow> y_threads y (p_conn p) = Some (HLoop p) \<Longrightarrow> y_read y (p_conn p) = []"
    and "\<And>p q. sessionPair (y_broker y) p q \<Longrightarrow> relayedTo y p q"
    and "\<And>c'. \<exists>c rest. c \<noteq> c' \<and> y_read y c = signalsTo y c' @ rest"
  shows "relay_inv y"
  unfolding relay_inv_def using assms by simp

lemma relay_inv_early: "relay_inv y \<Longrightarrow> early (y_threads y c) \<Longrightarrow> y_read y c = [] \<and> signalsTo y c = []"
  by (simp add: relay_inv_def)

lemma relay_inv_waiting:
  "relay_inv y \<Longrightarrow> b_waiting (y_broker y) k = Some p \<Longrightarrow> signalsTo y (p_conn p) = []"
  "relay_inv y \<Longrightarrow> b_waiting (y_broker y) k = Some p \<Longrightarrow> y_threads y (p_conn p) = Some (HLoop p) \<Longrightarrow> y_read y (p_conn p) = []"
  unfolding relay_inv_def by blast+

lemma relay_inv_pair: "relay_inv y \<Longrightarrow> sessionPair (y_broker y) p q \<Longrightarrow> relayedTo y p q"
  by (simp add: relay_inv_def)

lemma relay_inv_source: "relay_inv y \<Longrightarrow> \<exists>c rest. c \<noteq> c' \<and> y_read y c = signalsTo y c' @ rest"
  by (simp add: relay_inv_def)

lemma relay_frame:
  assumes inv: "relay_inv y" and read: "y_read y' = y_read y" and sig: "\<And>c. signalsTo y' c = signalsTo y c"
    and b: "b_waiting (y_broker y') \<subseteq>\<^sub>m b_waiting (y_broker y)" "b_sessions (y_broker y') \<subseteq>\<^sub>m b_sessions (y_broker y)"
    and t: "\<And>c. early (y_threads y' c) \<Longrightarrow> early (y_threads y c)"
      "\<And>p. y_threads y' (p_conn p) = Some (HLoop p) \<Longrightarrow> y_threads y (p_conn p) = Some (HLoop p)"
  shows "relay_inv y'"
proof (rule relay_invI)
  have w: "b_waiting (y_broker y) k = Some p" if "b_waiting (y_broker y') k = Some p" for k p
    using b(1) that unfolding map_le_def dom_def by (metis (mono_tags, lifting) mem_Collect_eq option.distinct(1))
  show "y_read y' c = [] \<and> signalsTo y' c = []" if "early (y_threads y' c)" for c
    using relay_inv_early [OF inv t(1) [OF that]] by (simp add: read sig)
  show "signalsTo y' (p_conn p) = []" if "b_waiting (y_broker y') k = Some p" for k p
    using relay_inv_waiting(1) [OF inv w [OF that]] by (simp add: sig)
  show "y_read y' (p_conn p) = []" if "b_waiting (y_broker y') k = Some p" "y_threads y' (p_conn p) = Some (HLoop p)" for k p
    using relay_inv_waiting(2) [OF inv w [OF that(1)] t(2) [OF that(2)]] by (simp add: read)
  show "relayedTo y' p q" if "sessionPair (y_broker y') p q" for p q
    using relay_inv_pair [OF inv sessionPair_mono [OF b(2) that]] t(2) [of p] unfolding relayedTo_def by (simp add: read sig)
  show "\<exists>c rest. c \<noteq> c' \<and> y_read y' c = signalsTo y' c' @ rest" for c'
    using relay_inv_source [OF inv] by (simp add: read sig)
qed

lemma maps_unregisterPeer:
  assumes "broker_inv b" "enumerates ks (b_sessions b)"
  shows "b_waiting (fst (unregisterPeer ks b (Some p) reason)) \<subseteq>\<^sub>m b_waiting b
       \<and> b_sessions (fst (unregisterPeer ks b (Some p) reason)) \<subseteq>\<^sub>m b_sessions b"
  using assms by (cases rule: unregisterPeer_cases [where p = p and reason = reason]) simp_all

lemma maps_evictStale:
  assumes "enumerates keys (b_waiting b)" "enumerates ids (b_sessions b)"
  shows "b_waiting (fst (evictStale keys ids lkeys now now' b)) \<subseteq>\<^sub>m b_waiting b
       \<and> b_sessions (fst (evictStale keys ids lkeys now now' b)) \<subseteq>\<^sub>m b_sessions b"
  using collectStale_waiting [OF assms(1), of ids now] collectStale_sessions [OF assms(2), of keys now]
  by (auto simp: evictStale_def map_le_def case_prod_beta split: option.splits if_splits)

lemma maps_handleUpgrade:
  assumes "handleUpgrade R U b r now e = (b', es, res)"
  shows "b_waiting b' = b_waiting b \<and> b_sessions b' = b_sessions b"
  using assms by (auto simp: handleUpgrade_def Let_def split: prod.splits if_splits option.splits)

text \<open>Peers that the broker holds are told apart by their connections.\<close>

lemma registered_thread: "registered y p \<Longrightarrow> \<exists>h. y_threads y (p_conn p) = Some h \<and> hpeer h = Some p"
  unfolding registered_def by auto

lemma held_conn:
  assumes "sys_inv y" "p \<in> holds (y_broker y)" "q \<in> holds (y_broker y)" "p_conn p = p_conn q"
  shows "p = q"
  using registered_thread [OF sys_inv_registered [OF assms(1,2)]] registered_thread [OF sys_inv_registered [OF assms(1,3)]] assms(4)
  by auto

lemma sessionPair_held: "sessionPair b p q \<Longrightarrow> p \<in> holds b \<and> q \<in> holds b"
  unfolding sessionPair_def holds_def by blast

lemma sessionPair_sym: "sessionPair b p q \<Longrightarrow> sessionPair b q p"
  unfolding sessionPair_def by blast

lemma sessionPair_session:
  assumes "broker_inv b" "sessionPair b p q"
  obtains sid s where "b_sessions b sid = Some s" "owns s (p_id p)" "partner s (p_id p) = q" "p_id p \<noteq> p_id q"
proof -
  obtain sid s where s: "b_sessions b sid = Some s" "p = s_first s \<and> q = s_second s \<or> p = s_second s \<and> q = s_first s"
    using assms(2) unfolding sessionPair_def by blast
  moreover from s(1) have "p_id (s_first s) \<noteq> p_id (s_second s)" using assms(1) by (auto simp: broker_inv_def session_ok_def)
  ultimately show ?thesis by (intro that [of sid s]) (auto simp: owns_def partner_def)
qed

lemma sessionPair_unique:
  assumes "broker_inv b" "sessionPair b p q" "b_sessions b sid = Some s" "owns s (p_id p)"
  shows "partner s (p_id p) = q"
proof -
  obtain sid' s' where s': "b_sessions b sid' = Some s'" "owns s' (p_id p)" "partner s' (p_id p) = q"
    using sessionPair_session [OF assms(1,2)] by blast
  with assms have "sid' = sid" unfolding broker_inv_def ids_unique_def by blast
  with s' assms(3) show ?thesis by simp
qed

lemma held_not_early:
  assumes "sys_inv y" "p \<in> holds (y_broker y)"
  shows "\<not> early (y_threads y (p_conn p))"
  using sys_inv_registered [OF assms] unfolding registered_def early_def by auto

lemma early_simps [simp]:
  "early None" "early (Some HRegister)" "early (Some (HAck p))" "early (Some (HPair p))"
  "\<not> early (Some (HLoop p))" "\<not> early (Some (HExit p))" "\<not> early (Some HDone)"
  by (simp_all add: early_def)

lemma waiting_held: "b_waiting b k = Some p \<Longrightarrow> p \<in> holds b"
  unfolding holds_def by blast

section \<open>Reading and pairing\<close>

text \<open>The step of a handler's read loop, with the effects \<open>es\<close> and the flag \<open>ret\<close> of \<open>handleMessage\<close>.\<close>

definition read_step :: "('r, 'l) sys \<Rightarrow> nat \<Rightarrow> peer \<Rightarrow> message res \<Rightarrow> effect list \<Rightarrow> bool \<Rightarrow> ('r, 'l) sys \<Rightarrow> bool" where
  "read_step y c p m es ret y' \<longleftrightarrow>
     sys_inv y \<and> relay_inv y \<and> y_threads y c = Some (HLoop p)
   \<and> y' = y\<lparr>y_threads := (y_threads y)(c \<mapsto> (if ret then HExit p else HLoop p)), y_out := writeEffects es (y_out y),
            y_read := (y_read y)(c := y_read y c @ readSignals m)\<rparr>"

lemma read_stepD:
  assumes "read_step y c p m es ret y'"
  shows "sys_inv y" "relay_inv y" "y_threads y c = Some (HLoop p)" "p_conn p = c"
    "y_broker y' = y_broker y" "signalsTo y' d = signalsTo y d @ effectSignals d es"
    "d \<noteq> c \<Longrightarrow> y_threads y' d = y_threads y d" "d \<noteq> c \<Longrightarrow> y_read y' d = y_read y d"
    "y_read y' c = y_read y c @ readSignals m" "y_threads y' c = Some (if ret then HExit p else HLoop p)"
  using assms sys_inv_conn [of y c "HLoop p" p] by (simp_all add: read_step_def signalsTo_def writeEffects_signals)

lemma read_step_held:
  assumes "read_step y c p m es ret y'" "q \<in> holds (y_broker y)" "p_conn q = c"
  shows "q = p"
  using registered_thread [OF sys_inv_registered [OF read_stepD(1) [OF assms(1)] assms(2)]] read_stepD(3) [OF assms(1)] assms(3) by auto

lemma source_grows:
  assumes "read_step y c p m es ret y'" "signalsTo y' c' = signalsTo y c'"
  shows "\<exists>d rest. d \<noteq> c' \<and> y_read y' d = signalsTo y' c' @ rest"
proof -
  obtain d rest where d: "d \<noteq> c'" "y_read y d = signalsTo y c' @ rest"
    using relay_inv_source [OF read_stepD(2) [OF assms(1)]] by blast
  have "\<exists>more. y_read y' d = y_read y d @ more" using read_stepD(8,9) [OF assms(1)] by (cases "d = c") auto
  with d show ?thesis unfolding assms(2) by (metis append_assoc)
qed

lemma quiet_read:
  assumes st: "read_step y c p m es ret y'" and q: "readSignals m = []" "\<And>d. effectSignals d es = []"
  shows "relay_inv y'"
proof (rule relay_frame [OF read_stepD(2) [OF st]])
  note after = read_stepD(7-10) [OF st]
  show "y_read y' = y_read y" using after(2,3) q(1) by fastforce
  show "early (y_threads y d)" if "early (y_threads y' d)" for d
    using that after(1,4) by (cases "d = c") (auto split: if_splits)
  show "y_threads y (p_conn r) = Some (HLoop r)" if "y_threads y' (p_conn r) = Some (HLoop r)" for r
    using that read_stepD(3) [OF st] after(1,4) by (cases "p_conn r = c") (auto split: if_splits)
qed (use q(2) read_stepD(5,6) [OF st] in simp_all)

lemma unpaired_read:
  assumes st: "read_step y c p m es ret y'"
    and un: "\<And>sid s. b_sessions (y_broker y) sid = Some s \<Longrightarrow> \<not> owns s (p_id p)" and q: "\<And>d. effectSignals d es = []" and ret
  shows "relay_inv y'"
proof (rule relay_invI)
  note sys = read_stepD(1) [OF st] and inv = read_stepD(2) [OF st] and b' = read_stepD(5) [OF st]
  note after = read_stepD(7-10) [OF st]
  have s: "signalsTo y' d = signalsTo y d" for d using q read_stepD(6) [OF st] by simp
  show "y_read y' d = [] \<and> signalsTo y' d = []" if "early (y_threads y' d)" for d
    using relay_inv_early [OF inv, of d] that \<open>ret\<close> after unfolding s by (cases "d = c") simp_all
  show "signalsTo y' (p_conn r) = []" if "b_waiting (y_broker y') k = Some r" for k r
    using relay_inv_waiting(1) [OF inv, of k r] that by (simp add: s b')
  show "y_read y' (p_conn r) = []" if "b_waiting (y_broker y') k = Some r" "y_threads y' (p_conn r) = Some (HLoop r)" for k r
    using relay_inv_waiting(2) [OF inv, of k r] that \<open>ret\<close> after by (cases "p_conn r = c") (simp_all add: b')
  show "relayedTo y' a b" if pair: "sessionPair (y_broker y') a b" for a b
  proof -
    have pair: "sessionPair (y_broker y) a b" using pair by (simp add: b')
    have "p_conn a \<noteq> c"
    proof
      assume "p_conn a = c"
      then have "a = p" using read_step_held [OF st] sessionPair_held [OF pair] by blast
      then show False using sessionPair_session [OF sys_inv_broker [OF sys] pair] un by metis
    qed
    then show ?thesis using relay_inv_pair [OF inv pair] after by (simp add: relayedTo_def s)
  qed
  show "\<exists>d rest. d \<noteq> c' \<and> y_read y' d = signalsTo y' c' @ rest" for c' by (rule source_grows [OF st s])
qed

lemma relayed_read:
  assumes st: "read_step y c p m es ret y'" and r: "readSignals m = [sg]"
    and pt: "sessionPair (y_broker y) p t" and e: "\<And>d. effectSignals d es = (if p_conn t = d then [sg] else [])"
  shows "relay_inv y'"
proof -
  let ?b = "y_broker y"
  note sys = read_stepD(1) [OF st] and inv = read_stepD(2) [OF st] and b' = read_stepD(5) [OF st]
  note conn = read_stepD(4) [OF st] and after = read_stepD(7-10) [OF st] and here = read_step_held [OF st]
  have binv: "broker_inv ?b" by (rule sys_inv_broker [OF sys])
  have held: "p \<in> holds ?b" "t \<in> holds ?b" using sessionPair_held [OF pt] by simp_all
  have ne: "t \<noteq> p" using sessionPair_session [OF binv pt] by metis
  then have tc: "p_conn t \<noteq> c" using here [OF held(2)] by blast
  have eq: "y_read y c = signalsTo y (p_conn t)"
    using relay_inv_pair [OF inv pt] read_stepD(3) [OF st] conn by (simp add: relayedTo_def)
  have keep: "signalsTo y' d = signalsTo y d" if "d \<noteq> p_conn t" for d using that read_stepD(6) [OF st, of d] by (simp add: e)
  have grow: "signalsTo y' (p_conn t) = signalsTo y (p_conn t) @ [sg]" using read_stepD(6) [OF st] by (simp add: e)
  have other: "p_conn q \<noteq> c \<and> p_conn q \<noteq> p_conn t" if "q \<in> holds ?b" "q \<noteq> p" "q \<noteq> t" for q
    using here [OF that(1)] held_conn [OF sys that(1) held(2)] that(2,3) by blast
  have w: "q \<noteq> p \<and> q \<noteq> t" if "b_waiting ?b k = Some q" for k q
    using binv that sessionPair_session [OF binv pt] sessionPair_session [OF binv sessionPair_sym [OF pt]]
    unfolding broker_inv_def ids_unique_def by metis
  show ?thesis
  proof (rule relay_invI)
    show "y_read y' d = [] \<and> signalsTo y' d = []" if "early (y_threads y' d)" for d
    proof -
      have "d \<noteq> c" using that after(4) by (auto split: if_splits)
      moreover have "d \<noteq> p_conn t" using that held_not_early [OF sys held(2)] tc after(1) by auto
      ultimately show ?thesis using relay_inv_early [OF inv, of d] that keep after by simp
    qed
    show "signalsTo y' (p_conn q) = []" if "b_waiting (y_broker y') k = Some q" for k q
      using that w [of k q] other [OF waiting_held, of k q] relay_inv_waiting(1) [OF inv, of k q] keep by (simp add: b')
    show "y_read y' (p_conn q) = []" if "b_waiting (y_broker y') k = Some q" "y_threads y' (p_conn q) = Some (HLoop q)" for k q
      using that w [of k q] other [OF waiting_held, of k q] relay_inv_waiting(2) [OF inv, of k q] after by (simp add: b')
    show "relayedTo y' a b" if "sessionPair (y_broker y') a b" for a b
    proof (cases "a = p")
      case ab: True
      have "b = t" using that sessionPair_session [OF binv, of p b] sessionPair_unique [OF binv pt] by (metis ab b')
      with ab show ?thesis using eq conn grow after(3) by (simp add: relayedTo_def r)
    next
      case False
      have ab: "sessionPair ?b a b" using that by (simp add: b')
      have "b \<noteq> t"
        using False sessionPair_session [OF binv sessionPair_sym [OF ab]] sessionPair_unique [OF binv sessionPair_sym [OF pt]] by metis
      moreover note ah = sessionPair_held [OF ab]
      ultimately have "p_conn b \<noteq> p_conn t" "p_conn a \<noteq> c"
        using held_conn [OF sys _ held(2), of b] here [of a] False by blast+
      with relay_inv_pair [OF inv ab] keep after show ?thesis by (simp add: relayedTo_def)
    qed
    show "\<exists>d rest. d \<noteq> c' \<and> y_read y' d = signalsTo y' c' @ rest" for c'
    proof (cases "c' = p_conn t")
      case True
      then show ?thesis using tc eq grow after(3) by (intro exI [of _ c] exI [of _ "[]"]) (simp add: r)
    qed (rule source_grows [OF st], simp add: keep)
  qed
qed

lemma read_keeps:
  assumes st: "read_step y c p m es ret y'"
    and order: "enumerates ks (b_sessions (y_broker y))" and handled: "handleMessage ks (y_broker y) p ce m re = (es, ret)"
  shows "relay_inv y'"
  using sys_inv_broker [OF read_stepD(1) [OF st]] order handled
proof (cases rule: handleMessage_signals)
  case none
  then show ?thesis by (rule quiet_read [OF st])
next
  case (relayed sg sid s)
  obtain x where x: "sessionPair (y_broker y) x (partner s (p_id p))" "p_id x = p_id p"
    using relayed(2,3) unfolding sessionPair_def owns_def partner_def by metis
  then have "x = p"
    using sys_inv_thread_peer [OF read_stepD(1) [OF st] read_stepD(3) [OF st], of p x] sessionPair_held [OF x(1)] by simp
  with x relayed show ?thesis by (intro relayed_read [OF st]) simp_all
next
  case (unpaired sg)
  then show ?thesis by (intro unpaired_read [OF st])
qed

text \<open>A peer is handed to \<open>tryPair\<close>: it waits, or is paired with one that waits.\<close>

lemma pair_keeps:
  assumes sys: "sys_inv y" and inv: "relay_inv y" and thread: "y_threads y c = Some (HPair p)"
    and pair: "tryPair (y_broker y) p rnd now = (b', es, None)"
    and y': "y_broker y' = b'" "y_threads y' = (y_threads y)(c \<mapsto> HLoop p)" "y_out y' = y_out y" "y_read y' = y_read y"
  shows "relay_inv y'"
proof -
  let ?b = "y_broker y"
  have s: "signalsTo y' d = signalsTo y d" for d by (simp add: signalsTo_def y')
  have conn: "p_conn p = c" using sys_inv_conn [OF sys thread] by simp
  have fresh: "y_read y c = []" "signalsTo y c = []" using relay_inv_early [OF inv, of c] thread by simp_all
  have away: "p_conn q \<noteq> c" if "q \<in> holds ?b" for q using held_not_early [OF sys that] thread by auto
  have same: "relayedTo y' a b" if "sessionPair ?b a b" for a b
    using relay_inv_pair [OF inv that] away [of a] sessionPair_held [OF that] by (simp add: relayedTo_def s y')
  have w': "signalsTo y (p_conn q) = [] \<and> (y_threads y' (p_conn q) = Some (HLoop q) \<longrightarrow> y_read y (p_conn q) = [])"
    if "b_waiting ?b k = Some q" for k q
    using relay_inv_waiting [OF inv that] away [OF waiting_held [OF that]] by (simp add: y')
  have early: "y_read y' d = [] \<and> signalsTo y' d = []" if "early (y_threads y' d)" for d
    using relay_inv_early [OF inv, of d] that by (cases "d = c") (simp_all add: s y')
  have src: "\<exists>d rest. d \<noteq> c' \<and> y_read y' d = signalsTo y' c' @ rest" for c'
    using relay_inv_source [OF inv] by (simp add: s y')
  show ?thesis
  proof (cases rule: tryPair_cases [of ?b p rnd now])
    case (rejected err)
    with pair show ?thesis by simp
  next
    case queued
    then have b': "b' = ?b\<lparr>b_waiting := (b_waiting ?b)(p_rendezvousKey p \<mapsto> p)\<rparr>" using pair by simp
    have cases: "q = p \<or> (\<exists>k. b_waiting ?b k = Some q)" if "b_waiting b' k = Some q" for k q
      using that by (auto simp: b' split: if_splits)
    show ?thesis
    proof (rule relay_invI)
      show "signalsTo y' (p_conn q) = []" if "b_waiting (y_broker y') k = Some q" for k q
        using cases [of k q] that w' fresh conn by (auto simp: s y'(1))
      show "y_read y' (p_conn q) = []" if "b_waiting (y_broker y') k = Some q" "y_threads y' (p_conn q) = Some (HLoop q)" for k q
        using cases [of k q] that w' fresh conn by (auto simp: y'(1,4))
      show "relayedTo y' a b" if "sessionPair (y_broker y') a b" for a b
        using that by (intro same) (simp add: y'(1) b' sessionPair_def)
    qed (use early src in simp_all)
  next
    case (paired w sid es')
    let ?s = "\<lparr>s_id = sid, s_rendezvousKey = p_rendezvousKey p, s_first = w, s_second = p, s_createdAt = now\<rparr>"
    have b': "b' = ?b\<lparr>b_waiting := (b_waiting ?b)(p_rendezvousKey p := None),
          b_activeKey := (b_activeKey ?b)(p_rendezvousKey p \<mapsto> sid), b_sessions := (b_sessions ?b)(sid \<mapsto> ?s)\<rparr>"
      using paired(6) pair by simp
    have old: "b_waiting ?b k = Some q" if "b_waiting b' k = Some q" for k q
      using that by (simp add: b' split: if_splits)
    have new: "relayedTo y' p w" "relayedTo y' w p"
      using w' [OF paired(2)] fresh conn by (auto simp: relayedTo_def s y'(4))
    have cases: "sessionPair ?b a b \<or> a = w \<and> b = p \<or> a = p \<and> b = w" if "sessionPair b' a b" for a b
      using that unfolding sessionPair_def by (auto simp: b' split: if_splits)
    show ?thesis
    proof (rule relay_invI)
      show "signalsTo y' (p_conn q) = []" if "b_waiting (y_broker y') k = Some q" for k q
        using w' [OF old [of k q]] that by (simp add: s y'(1))
      show "y_read y' (p_conn q) = []" if "b_waiting (y_broker y') k = Some q" "y_threads y' (p_conn q) = Some (HLoop q)" for k q
        using w' [OF old [of k q]] that by (simp add: y'(1,4))
      show "relayedTo y' a b" if "sessionPair (y_broker y') a b" for a b
        using cases [of a b] that same new by (auto simp: y'(1))
    qed (use early src in simp_all)
  qed
qed

section \<open>Every step\<close>

definition quietTasks :: "('r, 'l) sys \<Rightarrow> bool" where
  "quietTasks y \<longleftrightarrow> (\<forall>(sid, p, m) \<in> set (y_tasks y). ms_Signal m = None)"

lemma spawned_quiet:
  assumes "tryPair b p rnd now = (b', es, e)"
  shows "\<forall>(sid, q, m) \<in> set (spawned es). ms_Signal m = None"
  using assms by (cases rule: tryPair_cases [of b p rnd now]) auto

lemma quietTasks_step: "sys_step R U y y' \<Longrightarrow> quietTasks y \<Longrightarrow> quietTasks y'"
  by (induction rule: sys_step.induct) (auto simp: quietTasks_def dest!: spawned_quiet)

lemma signalsTo_quiet:
  assumes "y_out y' = writeEffects es (y_out y)" "\<And>c. effectSignals c es = []"
  shows "signalsTo y' c = signalsTo y c"
  by (simp add: signalsTo_def assms writeEffects_signals)

text \<open>A thread that moves on without entering the loop, or a broker that forgets some peers.\<close>

lemma relay_move:
  assumes inv: "relay_inv y" and y': "y_read y' = y_read y" "\<And>c. signalsTo y' c = signalsTo y c" "y_threads y' = (y_threads y)(c := Some h)"
    and b: "b_waiting (y_broker y') \<subseteq>\<^sub>m b_waiting (y_broker y)" "b_sessions (y_broker y') \<subseteq>\<^sub>m b_sessions (y_broker y)"
    and h: "early (Some h) \<Longrightarrow> early (y_threads y c)" "\<And>p. h \<noteq> HLoop p"
  shows "relay_inv y'"
proof (rule relay_frame [OF inv y'(1,2) b])
  show "early (y_threads y d)" if "early (y_threads y' d)" for d
    using that h(1) by (cases "d = c") (simp_all add: y'(3))
  show "y_threads y (p_conn p) = Some (HLoop p)" if "y_threads y' (p_conn p) = Some (HLoop p)" for p
    using that h(2) by (cases "p_conn p = c") (simp_all add: y'(3))
qed

lemma relay_stay:
  assumes inv: "relay_inv y" and y': "y_read y' = y_read y" "\<And>c. signalsTo y' c = signalsTo y c" "y_threads y' = y_threads y"
    and b: "b_waiting (y_broker y') \<subseteq>\<^sub>m b_waiting (y_broker y)" "b_sessions (y_broker y') \<subseteq>\<^sub>m b_sessions (y_broker y)"
  shows "relay_inv y'"
  by (rule relay_frame [OF inv y'(1,2) b]) (simp_all add: y'(3))

lemma relay_step:
  assumes "sys_step R U y y'" and sys: "sys_inv y" and inv: "relay_inv y" and tasks: "quietTasks y"
  shows "relay_inv y'"
  using assms(1)
proof cases
  case (refuse r now e b' es)
  show ?thesis by (rule relay_stay [OF inv]) (simp_all add: refuse(1) signalsTo_def maps_handleUpgrade [OF refuse(2)])
next
  case (upgrade c r now e b' es)
  show ?thesis
    by (rule relay_move [OF inv, where c = c and h = HRegister])
       (simp_all add: upgrade(1,2) signalsTo_def maps_handleUpgrade [OF upgrade(3)])
next
  case (register c d1 m d2 rnd now p)
  show ?thesis by (rule relay_move [OF inv, where c = c and h = "HAck p"]) (simp_all add: register(1,2) signalsTo_def)
next
  case (register_fail c d1 m d2 rnd now err ip se)
  show ?thesis
    by (rule relay_move [OF inv, where c = c and h = HDone])
       (simp_all add: register_fail(1) signalsTo_def writeEffects_signals quiet_effects)
next
  case (ack c p)
  show ?thesis
  proof (rule relay_move [OF inv, where c = c and h = "HPair p"])
    show "signalsTo y' d = signalsTo y d" for d
      by (rule signalsTo_quiet [where es = "[Send p (registeredMessage p)]"]) (simp_all add: ack(1))
  qed (simp_all add: ack(1,2))
next
  case (ack_fail c p)
  show ?thesis by (rule relay_move [OF inv, where c = c and h = "HExit p"]) (simp_all add: ack_fail(1) signalsTo_def)
next
  case (pair c p rnd now b' es)
  show ?thesis by (rule pair_keeps [OF sys inv pair(2,4)]) (simp_all add: pair(1))
next
  case (pair_fail c p rnd now b' es err)
  show ?thesis
    by (rule relay_move [OF inv, where c = c and h = "HExit p"])
       (simp_all add: pair_fail(1) signalsTo_def writeEffects_signals quiet_effects tryPair_error [OF pair_fail(3)])
next
  case (loop c p ks closeErr m relayErr es ret)
  have "read_step y c p m es ret y'" using sys inv loop(1,2) by (simp add: read_step_def)
  then show ?thesis by (rule read_keeps [OF _ loop(3,4)])
next
  case (exit c p ks b' es)
  have "b' = fst (unregisterPeer ks (y_broker y) (Some p) ''peer disconnected'')"
    using exit(4) by (auto simp: handlerExit_def split: prod.splits)
  moreover have "effectSignals d es = []" for d using quiet_effects(4) [of d ks "y_broker y" p] exit(4) by simp
  ultimately show ?thesis
    using maps_unregisterPeer [OF sys_inv_broker [OF sys] exit(3)]
    by (intro relay_move [OF inv, where c = c and h = HDone]) (simp_all add: exit(1) signalsTo_def writeEffects_signals)
next
  case (deliver ts sid p m ts' ks err b' es)
  have "b' = y_broker y \<or> b' = fst (unregisterPeer ks (y_broker y) (Some p) ''pair delivery failed'')"
    using deliver(4) by (auto simp: deliverPaired_def split: option.splits prod.splits)
  then have "b_waiting b' \<subseteq>\<^sub>m b_waiting (y_broker y) \<and> b_sessions b' \<subseteq>\<^sub>m b_sessions (y_broker y)"
    using maps_unregisterPeer [OF sys_inv_broker [OF sys] deliver(3), of p "''pair delivery failed''"] by auto
  moreover have "effectSignals d es = []" for d
    using quiet_effects(6) [of m d ks "y_broker y" sid p err] tasks deliver(2,4) by (auto simp: quietTasks_def)
  ultimately show ?thesis by (intro relay_stay [OF inv]) (simp_all add: deliver(1) signalsTo_def writeEffects_signals)
next
  case (janitor keys ids lkeys now now' b' es)
  have "effectSignals d es = []" for d using quiet_effects(5) [of d keys ids lkeys now now' "y_broker y"] janitor(4) by simp
  with maps_evictStale [OF janitor(2,3), of lkeys now now'] janitor(4) show ?thesis
    by (intro relay_stay [OF inv]) (simp_all add: janitor(1) signalsTo_def writeEffects_signals)
next
  case shutdown
  show ?thesis by (rule relay_stay [OF inv]) (simp_all add: shutdown signalsTo_def Shutdown_stop_def)
qed

text \<open>
  (C3) The broker is a faithful channel.  In every reachable state, whatever the interleaving, the signals written to a
  connection are a prefix of the signals read from one other connection: in order, none lost in between, repeated, or mixed
  with another peer's.  For two peers of a session, while the handler of one reads on, exactly
  the signals read from it have been written to the other.
\<close>

theorem signals_relayed_faithfully:
  assumes "NewBrokerWithOptions R opts = Inr b0" "sys_reach R U b0 y"
  shows "(\<forall>c'. \<exists>c rest. c \<noteq> c' \<and> y_read y c = signalsTo y c' @ rest)
       \<and> (\<forall>p q. sessionPair (y_broker y) p q \<and> y_threads y (p_conn p) = Some (HLoop p)
              \<longrightarrow> signalsTo y (p_conn q) = y_read y (p_conn p))"
proof -
  have "sys_inv y \<and> relay_inv y \<and> quietTasks y"
    using assms(2)
  proof induction
    case start
    have "holds b0 = {}" using NewBroker_members [OF assms(1)] by (simp add: holds_members)
    then have "sys_inv (sys_init b0)" by (intro sys_invI) (simp_all add: sys_init_def NewBroker_inv [OF assms(1)])
    moreover have "\<exists>c::nat. c \<noteq> c'" for c' by (metis n_not_Suc_n)
    then have "relay_inv (sys_init b0)"
      using \<open>holds b0 = {}\<close> sessionPair_held [of b0] waiting_held [of b0]
      by (intro relay_invI) (auto simp: sys_init_def signalsTo_def)
    ultimately show ?case by (simp add: quietTasks_def sys_init_def)
  next
    case (step y y')
    then show ?case using sys_step_inv relay_step quietTasks_step by blast
  qed
  then show ?thesis by (auto simp: relay_inv_def relayedTo_def)
qed

theorem signals_relayed_faithfully_witness:
  "\<exists>b0 y c rest. NewBroker openLib = Inr b0 \<and> sys_reach openLib raceU b0 y \<and> c \<noteq> 1
     \<and> signalsTo y 1 = readSignals (Inr raceSignal) \<and> y_read y c = signalsTo y 1 @ rest"
proof -
  obtain b0 where new: "NewBroker openLib = Inr b0" using NewBroker_never_fails by blast
  then have "b_waiting b0 = Map.empty" "b_activeKey b0 = Map.empty" "b_sessions b0 = Map.empty"
    by (auto simp: NewBroker_def NewBrokerWithOptions_def Let_def split: sum.splits)
  from race_run [OF this] obtain y where y: "sys_reach openLib raceU b0 y"
    "y_out y 1 = [registeredMessage raceExpose, raceSignal, pairedMessage toySid False ''connect'']" by blast
  then have "signalsTo y 1 = readSignals (Inr raceSignal)"
    by (simp add: signalsTo_def messageSignals_def readSignals_def raceSignal_def Message_def)
  with signals_relayed_faithfully [OF new [unfolded NewBroker_def] y(1)] y(1) new show ?thesis by blast
qed

end
