(* ===== verification/Session.thy ===== *)
theory Session
  imports StateMachine Auth SignalTypes
begin

text \<open>
  The WebRTC session of \<^verbatim>\<open>internal/webrtc/session.go\<close>: how signaling, the control channel and
  the authenticator drive the session state machine, and when payload channels are allowed.

  The peer connection and its data channels are third-party (pion): channels are numbers, calls
  into pion are effects, and what they return, like the callbacks pion makes, is input.  The
  authenticator is used through its Go interface, a record of its methods.  The SDP parser
  (pion) and the JSON codec of control messages are arguments.  Each exported method and each
  callback is one function of the session; \<open>sessionStep\<close> dispatches them.
\<close>

section \<open>Definitions\<close>

definition controlChannelLabel :: string where
  "controlChannelLabel = ''rtc2tcp-auth''"

definition ErrPreAuthPayloadChannel :: gerror where
  "ErrPreAuthPayloadChannel = Sentinel ''webrtc.ErrPreAuthPayloadChannel''"
definition ErrUnexpectedAuthControlReplay :: gerror where
  "ErrUnexpectedAuthControlReplay = Sentinel ''webrtc.ErrUnexpectedAuthControlReplay''"
definition ErrUnexpectedInboundStream :: gerror where
  "ErrUnexpectedInboundStream = Sentinel ''webrtc.ErrUnexpectedInboundStream''"
definition ErrSessionClosed :: gerror where
  "ErrSessionClosed = Sentinel ''webrtc.ErrSessionClosed''"
definition ErrPeerConnectionFailed :: gerror where
  "ErrPeerConnectionFailed = Sentinel ''webrtc.ErrPeerConnectionFailed''"
definition ErrPeerConnectionClosed :: gerror where
  "ErrPeerConnectionClosed = Sentinel ''webrtc.ErrPeerConnectionClosed''"
definition ErrControlChannelClosed :: gerror where
  "ErrControlChannelClosed = Sentinel ''webrtc.ErrControlChannelClosed''"
definition errAuthMaterialNotReady :: gerror where
  "errAuthMaterialNotReady = Sentinel ''webrtc.errAuthMaterialNotReady''"

subsection \<open>Interfaces\<close>

text \<open>The Go interface \<open>auth.Authenticator\<close>: the methods the session calls.\<close>

record 'a auth_iface =
  ai_Name :: "'a \<Rightarrow> string"
  ai_Bind :: "'a \<Rightarrow> SessionBindingMaterial \<Rightarrow> 'a \<times> gerror option"
  ai_Start :: "'a \<Rightarrow> 'a \<times> auth_message res"
  ai_Step :: "'a \<Rightarrow> auth_message \<Rightarrow> 'a \<times> auth_message \<times> bool \<times> bool \<times> gerror option"

record auth_codec =
  jc_Marshal :: "auth_message \<Rightarrow> bytes res"
  jc_Decode :: "bytes \<Rightarrow> auth_message res"

text \<open>What a call into pion returns during one event.\<close>

record pion_env =
  pe_closeErr :: "gerror option"
  pe_sendTextErr :: "gerror option"
  pe_addCandidateErr :: "ICECandidatePayload \<Rightarrow> gerror option"
  pe_setLocalErr :: "gerror option"
  pe_localSDP :: "string option"
  pe_setRemoteErr :: "gerror option"
  pe_createSDP :: "string res"
  pe_createChannel :: "string \<Rightarrow> nat res"

text \<open>A parsed session description, as far as the code reads it.\<close>

record sdp_attribute =
  sa_Key :: string
  sa_Value :: string

record sdp_media =
  sm_Media :: string
  sm_Attributes :: "sdp_attribute list"

record sdp_desc =
  sd_Attributes :: "sdp_attribute list"
  sd_Media :: "sdp_media option list"

datatype seffect =
    SendText nat bytes
  | CloseChannel nat
  | ClosePC
  | AddCandidate ICECandidatePayload
  | OnSignal Signal
  | OnStream nat
  | OpenedStream nat string
  | SessionLog string "(string \<times> string) list"
  | SessionLogErr string "(string \<times> string) list" gerror

record 'a Session =
  se_mode :: PeerMode
  se_sessionID :: string
  se_authenticator :: 'a
  se_stateMachine :: stateMachine
  se_hasOnSignal :: bool
  se_hasOnStream :: bool
  se_control :: "nat option"
  se_controlOpen :: bool
  se_localFingerprint :: string
  se_remoteFingerprint :: string
  se_remoteDescription :: bool
  se_pendingCandidates :: "ICECandidatePayload list"
  se_authBound :: bool
  se_authStarted :: bool
  se_closeErr :: "gerror option"
  se_authenticated :: bool
  se_authResult :: "gerror option"
  se_authReadyClosed :: bool
  se_closeOnce :: bool

subsection \<open>Fingerprints and ICE servers\<close>

fun extractFingerprintAttribute :: "sdp_attribute list \<Rightarrow> string" where
  "extractFingerprintAttribute [] = []"
| "extractFingerprintAttribute (a # as) =
     (if sa_Key a \<noteq> ''fingerprint'' then extractFingerprintAttribute as else TrimSpace (sa_Value a))"

fun mediaFingerprintLoop :: "unicode \<Rightarrow> string \<Rightarrow> sdp_media option list \<Rightarrow> string res option" where
  "mediaFingerprintLoop U sessionFP [] = None"
| "mediaFingerprintLoop U sessionFP (None # ms) = mediaFingerprintLoop U sessionFP ms"
| "mediaFingerprintLoop U sessionFP (Some media # ms) =
     (if sm_Media media \<noteq> ''application'' then mediaFingerprintLoop U sessionFP ms
      else if extractFingerprintAttribute (sm_Attributes media) \<noteq> [] then
        Some (Inr (ToUpper U (extractFingerprintAttribute (sm_Attributes media))))
      else if sessionFP \<noteq> [] then Some (Inr (ToUpper U sessionFP))
      else Some (Inl (errors_New ''application media fingerprint not found'')))"

definition ExtractTransportFingerprint :: "unicode \<Rightarrow> (string \<Rightarrow> sdp_desc res) \<Rightarrow> string \<Rightarrow> string res" where
  "ExtractTransportFingerprint U parse rawSDP =
     (case parse rawSDP of
        Inl err \<Rightarrow> Inl (Errorf ''parse SDP: %w'' [] [err])
      | Inr desc \<Rightarrow>
          (let sessionFP = extractFingerprintAttribute (sd_Attributes desc) in
           case mediaFingerprintLoop U sessionFP (sd_Media desc) of
             Some r \<Rightarrow> r
           | None \<Rightarrow> if sessionFP \<noteq> [] then Inr (ToUpper U sessionFP)
                     else Inl (errors_New ''SDP fingerprint not found'')))"

record ice_server =
  is_URLs :: "string list"
  is_Username :: string
  is_Credential :: string

definition iceServers :: "ICEConfig \<Rightarrow> ice_server list" where
  "iceServers ice =
     (if ice_STUN ice \<noteq> [] then [\<lparr>is_URLs = [ice_STUN ice], is_Username = [], is_Credential = []\<rparr>] else [])
     @ (if ice_TURN ice \<noteq> [] then
          [\<lparr>is_URLs = [ice_TURN ice], is_Username = ice_TURNUsername ice, is_Credential = ice_TURNPassword ice\<rparr>]
        else [])"

subsection \<open>Failing and closing\<close>

definition completeAuthResult :: "'a Session \<Rightarrow> gerror option \<Rightarrow> bool \<Rightarrow> 'a Session" where
  "completeAuthResult s err authenticated =
     (if se_authReadyClosed s then s
      else s\<lparr>se_authenticated := authenticated, se_authResult := err, se_authReadyClosed := True\<rparr>)"

text \<open>The log line of a refused transition: its last field is the error's text.\<close>

definition transitionLog :: "'a Session \<Rightarrow> string \<Rightarrow> gerror \<Rightarrow> seffect" where
  "transitionLog s target err =
     SessionLogErr ''state_transition_failed'' [(''session_id'', se_sessionID s), (''target'', target)] err"

text \<open>\<open>fail\<close> replaces a nil error.\<close>

definition failError :: "gerror option \<Rightarrow> gerror" where
  "failError err = (case err of None \<Rightarrow> errors_New ''unknown session error'' | Some e \<Rightarrow> e)"

definition session_fail :: "pion_env \<Rightarrow> 'a Session \<Rightarrow> gerror option \<Rightarrow> 'a Session \<times> seffect list" where
  "session_fail E s err =
     (let s1 = completeAuthResult s (Some (failError err)) False in
      if se_closeOnce s1 then (s1, [])
      else
        (let (sm, l) =
               (if IsOneOf (se_stateMachine s1) [StateFailed, StateClosed] then (se_stateMachine s1, [])
                else (case Transition (se_stateMachine s1) StateFailed of
                        (sm', None) \<Rightarrow> (sm', [])
                      | (sm', Some e) \<Rightarrow>
                          (sm', if \<not> IsOneOf sm' [StateFailed] then [transitionLog s1 ''FAILED'' e] else [])))
         in (s1\<lparr>se_closeOnce := True, se_stateMachine := sm,
                se_closeErr := (case pe_closeErr E of None \<Rightarrow> se_closeErr s1 | Some e \<Rightarrow> Some e)\<rparr>, l @ [ClosePC])))"

definition Fail :: "pion_env \<Rightarrow> 'a Session \<Rightarrow> gerror option \<Rightarrow> 'a Session \<times> seffect list" where
  "Fail E s err = session_fail E s err"

text \<open>\<open>Close\<close> returns the \<open>closeErr\<close> of the session it leaves.\<close>

definition Close :: "pion_env \<Rightarrow> 'a Session \<Rightarrow> 'a Session \<times> seffect list" where
  "Close E s =
     (if se_closeOnce s then (s, [])
      else
        (let (sm, l) =
               (if IsOneOf (se_stateMachine s) [StateClosed, StateFailed] then (se_stateMachine s, [])
                else (case Transition (se_stateMachine s) StateClosing of
                        (sm', None) \<Rightarrow> (sm', [])
                      | (sm', Some e) \<Rightarrow>
                          (sm', if \<not> IsOneOf sm' [StateClosing] then [transitionLog s ''CLOSING'' e] else [])));
             s1 = completeAuthResult (s\<lparr>se_closeOnce := True, se_stateMachine := sm\<rparr>) (Some ErrSessionClosed) False
         in (case pe_closeErr E of
               Some e \<Rightarrow> (s1\<lparr>se_closeErr := Some e\<rparr>, l @ [ClosePC])
             | None \<Rightarrow>
                 if IsOneOf (se_stateMachine s1) [StateClosing] then
                   (case Transition (se_stateMachine s1) StateClosed of
                      (sm', None) \<Rightarrow> (s1\<lparr>se_stateMachine := sm'\<rparr>, l @ [ClosePC])
                    | (sm', Some e) \<Rightarrow> (s1\<lparr>se_stateMachine := sm'\<rparr>, l @ [ClosePC, transitionLog s1 ''CLOSED'' e]))
                 else (s1, l @ [ClosePC]))))"

definition IsAuthenticated :: "'a Session \<Rightarrow> bool" where
  "IsAuthenticated s \<longleftrightarrow> se_authReadyClosed s \<and> se_authResult s = None \<and> se_authenticated s"

text \<open>\<open>WaitAuthenticated\<close> when \<open>authReady\<close> is chosen; \<open>None\<close> while the channel is open.\<close>

definition WaitAuthenticated :: "'a Session \<Rightarrow> gerror option option" where
  "WaitAuthenticated s = (if se_authReadyClosed s then Some (se_authResult s) else None)"

subsection \<open>The authentication exchange\<close>

definition materialLocked :: "'a Session \<Rightarrow> SessionBindingMaterial res" where
  "materialLocked s =
     (if se_localFingerprint s = [] \<or> se_remoteFingerprint s = [] then Inl errAuthMaterialNotReady
      else Inr \<lparr>bm_SessionID = se_sessionID s, bm_Mode = se_mode s,
                bm_LocalFingerprint = se_localFingerprint s, bm_RemoteFingerprint = se_remoteFingerprint s\<rparr>)"

definition bindAuthenticator :: "'a auth_iface \<Rightarrow> 'a Session \<Rightarrow> 'a Session \<times> nat res" where
  "bindAuthenticator A s =
     (case se_control s of
        None \<Rightarrow> (s, Inl (errors_New ''control channel is not attached''))
      | Some control \<Rightarrow>
          if se_authBound s then (s, Inr control)
          else (case materialLocked s of
             Inl err \<Rightarrow> (s, Inl err)
           | Inr material \<Rightarrow>
               (case ai_Bind A (se_authenticator s) material of
                  (a', Some err) \<Rightarrow> (s\<lparr>se_authenticator := a'\<rparr>, Inl err)
                | (a', None) \<Rightarrow> (s\<lparr>se_authenticator := a', se_authBound := True\<rparr>, Inr control))))"

definition sendAuthMessage ::
  "pion_env \<Rightarrow> auth_codec \<Rightarrow> nat \<Rightarrow> auth_message \<Rightarrow> seffect list \<times> gerror option" where
  "sendAuthMessage E J control msg =
     (case jc_Marshal J msg of
        Inl err \<Rightarrow> ([], Some (Errorf ''encode auth message: %w'' [] [err]))
      | Inr payload \<Rightarrow>
          (case pe_sendTextErr E of
             Some err \<Rightarrow> ([], Some (Errorf ''send auth message: %w'' [] [err]))
           | None \<Rightarrow> ([SendText control payload], None)))"

definition maybeSendAuth ::
  "pion_env \<Rightarrow> auth_codec \<Rightarrow> 'a auth_iface \<Rightarrow> 'a Session \<Rightarrow> 'a Session \<times> seffect list" where
  "maybeSendAuth E J A s =
     (if \<not> IsOneOf (se_stateMachine s) [StateAuthPending] then (s, [])
      else if \<not> se_controlOpen s then (s, [])
      else (case bindAuthenticator A s of
        (s1, Inl err) \<Rightarrow> if errors_Is err errAuthMaterialNotReady then (s1, []) else session_fail E s1 (Some err)
      | (s1, Inr control) \<Rightarrow>
          if se_mode s1 \<noteq> ModeConnect \<or> se_authStarted s1 then (s1, [])
          else
            (let s2 = s1\<lparr>se_authStarted := True\<rparr> in
             case ai_Start A (se_authenticator s2) of
               (a', Inl err) \<Rightarrow> session_fail E (s2\<lparr>se_authenticator := a'\<rparr>) (Some err)
             | (a', Inr hello) \<Rightarrow>
                 (let s3 = s2\<lparr>se_authenticator := a'\<rparr> in
                  case sendAuthMessage E J control hello of
                    (es, Some err) \<Rightarrow> (case session_fail E s3 (Some err) of (s4, fs) \<Rightarrow> (s4, es @ fs))
                  | (es, None) \<Rightarrow> (s3, es)))))"

definition handleControlMessage ::
  "pion_env \<Rightarrow> auth_codec \<Rightarrow> 'a auth_iface \<Rightarrow> 'a Session \<Rightarrow> bytes \<Rightarrow> 'a Session \<times> seffect list \<times> gerror option" where
  "handleControlMessage E J A s data =
     (if \<not> IsOneOf (se_stateMachine s) [StateAuthPending] then (s, [], Some ErrUnexpectedAuthControlReplay)
      else (case jc_Decode J data of
        Inl err \<Rightarrow> (s, [], Some (Errorf ''decode auth message: %w'' [] [err]))
      | Inr inbound \<Rightarrow>
          (case bindAuthenticator A s of
             (s1, Inl err) \<Rightarrow> (s1, [], Some err)
           | (s1, Inr control) \<Rightarrow>
               (case ai_Step A (se_authenticator s1) inbound of
                  (a', outbound, hasOutbound, done, err) \<Rightarrow>
                    (let s2 = s1\<lparr>se_authenticator := a'\<rparr> in
                     if err \<noteq> None then (s2, [], err)
                     else
                       (let (es, sendErr) = (if hasOutbound then sendAuthMessage E J control outbound else ([], None)) in
                        if sendErr \<noteq> None then (s2, es, sendErr)
                        else if done then
                          (case Transition (se_stateMachine s2) StateAuthenticated of
                             (sm, Some e) \<Rightarrow> (s2\<lparr>se_stateMachine := sm\<rparr>, es, Some e)
                           | (sm, None) \<Rightarrow>
                               (completeAuthResult (s2\<lparr>se_stateMachine := sm\<rparr>) None True,
                                es @ [SessionLog ''auth_succeeded'' [(''session_id'', se_sessionID s),
                                        (''scheme'', ai_Name A a')]], None))
                        else (s2, es, None)))))))"

text \<open>The message callback of the control channel.\<close>

definition onControlMessage ::
  "pion_env \<Rightarrow> auth_codec \<Rightarrow> 'a auth_iface \<Rightarrow> 'a Session \<Rightarrow> bytes \<Rightarrow> 'a Session \<times> seffect list" where
  "onControlMessage E J A s data =
     (case handleControlMessage E J A s data of
        (s1, es, None) \<Rightarrow> (s1, es)
      | (s1, es, Some err) \<Rightarrow> (case session_fail E s1 (Some err) of (s2, fs) \<Rightarrow> (s2, es @ fs)))"

definition attachControlChannel :: "pion_env \<Rightarrow> 'a Session \<Rightarrow> nat \<Rightarrow> 'a Session \<times> seffect list" where
  "attachControlChannel E s dc =
     (if se_control s \<noteq> None \<and> se_control s \<noteq> Some dc then
        (case session_fail E s (Some ErrUnexpectedAuthControlReplay) of (s1, es) \<Rightarrow> (s1, CloseChannel dc # es))
      else (s\<lparr>se_control := Some dc\<rparr>, []))"

definition onControlOpen ::
  "pion_env \<Rightarrow> auth_codec \<Rightarrow> 'a auth_iface \<Rightarrow> 'a Session \<Rightarrow> 'a Session \<times> seffect list" where
  "onControlOpen E J A s =
     (case maybeSendAuth E J A (s\<lparr>se_controlOpen := True\<rparr>) of (s1, es) \<Rightarrow>
        (s1, SessionLog ''control_channel_open'' [(''session_id'', se_sessionID s)] # es))"

definition onControlClose :: "pion_env \<Rightarrow> 'a Session \<Rightarrow> 'a Session \<times> seffect list" where
  "onControlClose E s =
     (if IsOneOf (se_stateMachine s) [StateClosing, StateClosed, StateFailed] then (s, [])
      else session_fail E s (Some ErrControlChannelClosed))"

subsection \<open>Descriptions and candidates\<close>

definition maybeEnterAuthPending ::
  "pion_env \<Rightarrow> auth_codec \<Rightarrow> 'a auth_iface \<Rightarrow> 'a Session \<Rightarrow> 'a Session \<times> seffect list" where
  "maybeEnterAuthPending E J A s =
     (if \<not> (se_localFingerprint s \<noteq> [] \<and> se_remoteFingerprint s \<noteq> []) then (s, [])
      else if IsOneOf (se_stateMachine s) [StateSignaling] then
        (case Transition (se_stateMachine s) StateAuthPending of
           (sm, Some err) \<Rightarrow> session_fail E (s\<lparr>se_stateMachine := sm\<rparr>) (Some err)
         | (sm, None) \<Rightarrow> maybeSendAuth E J A (s\<lparr>se_stateMachine := sm\<rparr>))
      else maybeSendAuth E J A s)"

definition setLocalDescription ::
  "unicode \<Rightarrow> (string \<Rightarrow> sdp_desc res) \<Rightarrow> pion_env \<Rightarrow> auth_codec \<Rightarrow> 'a auth_iface \<Rightarrow> 'a Session
    \<Rightarrow> 'a Session \<times> seffect list \<times> gerror option" where
  "setLocalDescription U parse E J A s =
     (case pe_setLocalErr E of
        Some err \<Rightarrow> (s, [], Some (Errorf ''set local description: %w'' [] [err]))
      | None \<Rightarrow>
          (case pe_localSDP E of
             None \<Rightarrow> (s, [], Some (errors_New ''local description not available''))
           | Some sdp \<Rightarrow>
               (case ExtractTransportFingerprint U parse sdp of
                  Inl err \<Rightarrow> (s, [], Some err)
                | Inr fingerprint \<Rightarrow>
                    (case maybeEnterAuthPending E J A (s\<lparr>se_localFingerprint := fingerprint\<rparr>) of
                       (s1, es) \<Rightarrow> (s1, es, None)))))"

fun flushCandidates :: "pion_env \<Rightarrow> ICECandidatePayload list \<Rightarrow> seffect list \<times> gerror option" where
  "flushCandidates E [] = ([], None)"
| "flushCandidates E (c # cs) =
     (case pe_addCandidateErr E c of
        Some err \<Rightarrow> ([AddCandidate c], Some (Errorf ''flush remote candidate: %w'' [] [err]))
      | None \<Rightarrow> (case flushCandidates E cs of (es, r) \<Rightarrow> (AddCandidate c # es, r)))"

definition setRemoteDescription ::
  "unicode \<Rightarrow> (string \<Rightarrow> sdp_desc res) \<Rightarrow> pion_env \<Rightarrow> auth_codec \<Rightarrow> 'a auth_iface \<Rightarrow> 'a Session \<Rightarrow> string
    \<Rightarrow> 'a Session \<times> seffect list \<times> gerror option" where
  "setRemoteDescription U parse E J A s sdp =
     (case pe_setRemoteErr E of
        Some err \<Rightarrow> (s, [], Some (Errorf ''set remote description: %w'' [] [err]))
      | None \<Rightarrow>
          (case ExtractTransportFingerprint U parse sdp of
             Inl err \<Rightarrow> (s, [], Some err)
           | Inr fingerprint \<Rightarrow>
               (let s1 = s\<lparr>se_remoteFingerprint := fingerprint, se_remoteDescription := True,
                           se_pendingCandidates := []\<rparr> in
                case flushCandidates E (se_pendingCandidates s) of
                  (es, Some err) \<Rightarrow> (s1, es, Some err)
                | (es, None) \<Rightarrow>
                    (case maybeEnterAuthPending E J A s1 of (s2, fs) \<Rightarrow> (s2, es @ fs, None)))))"

definition CreateOffer ::
  "unicode \<Rightarrow> (string \<Rightarrow> sdp_desc res) \<Rightarrow> pion_env \<Rightarrow> auth_codec \<Rightarrow> 'a auth_iface \<Rightarrow> 'a Session
    \<Rightarrow> 'a Session \<times> seffect list \<times> string res" where
  "CreateOffer U parse E J A s =
     (case pe_createSDP E of
        Inl err \<Rightarrow> (s, [], Inl (Errorf ''create offer: %w'' [] [err]))
      | Inr offer \<Rightarrow>
          (case setLocalDescription U parse E J A s of
             (s1, es, Some err) \<Rightarrow> (s1, es, Inl err)
           | (s1, es, None) \<Rightarrow> (s1, es, Inr offer)))"

definition HandleOffer ::
  "unicode \<Rightarrow> (string \<Rightarrow> sdp_desc res) \<Rightarrow> pion_env \<Rightarrow> auth_codec \<Rightarrow> 'a auth_iface \<Rightarrow> 'a Session \<Rightarrow> string
    \<Rightarrow> 'a Session \<times> seffect list \<times> string res" where
  "HandleOffer U parse E J A s offer =
     (case setRemoteDescription U parse E J A s offer of
        (s1, es, Some err) \<Rightarrow> (s1, es, Inl err)
      | (s1, es, None) \<Rightarrow>
          (case pe_createSDP E of
             Inl err \<Rightarrow> (s1, es, Inl (Errorf ''create answer: %w'' [] [err]))
           | Inr answer \<Rightarrow>
               (case setLocalDescription U parse E J A s1 of
                  (s2, fs, Some err) \<Rightarrow> (s2, es @ fs, Inl err)
                | (s2, fs, None) \<Rightarrow> (s2, es @ fs, Inr answer))))"

definition HandleAnswer ::
  "unicode \<Rightarrow> (string \<Rightarrow> sdp_desc res) \<Rightarrow> pion_env \<Rightarrow> auth_codec \<Rightarrow> 'a auth_iface \<Rightarrow> 'a Session \<Rightarrow> string
    \<Rightarrow> 'a Session \<times> seffect list \<times> gerror option" where
  "HandleAnswer U parse E J A s answer = setRemoteDescription U parse E J A s answer"

definition AddRemoteCandidate ::
  "pion_env \<Rightarrow> 'a Session \<Rightarrow> ICECandidatePayload \<Rightarrow> 'a Session \<times> seffect list \<times> gerror option" where
  "AddRemoteCandidate E s candidate =
     (if \<not> se_remoteDescription s then
        (s\<lparr>se_pendingCandidates := se_pendingCandidates s @ [candidate]\<rparr>, [], None)
      else (case pe_addCandidateErr E candidate of
              Some err \<Rightarrow> (s, [AddCandidate candidate], Some (Errorf ''add remote candidate: %w'' [] [err]))
            | None \<Rightarrow> (s, [AddCandidate candidate], None)))"

subsection \<open>Payload channels\<close>

definition prepareInboundPayloadChannel :: "'a Session \<Rightarrow> 'a Session \<times> gerror option" where
  "prepareInboundPayloadChannel s =
     (if \<not> IsOneOf (se_stateMachine s) [StateAuthenticated, StateStreaming] \<or> \<not> IsAuthenticated s then
        (s, Some ErrPreAuthPayloadChannel)
      else (case Transition (se_stateMachine s) StateStreaming of
              (sm, Some err) \<Rightarrow> (s\<lparr>se_stateMachine := sm\<rparr>, Some err)
            | (sm, None) \<Rightarrow> (s\<lparr>se_stateMachine := sm\<rparr>, None)))"

definition OpenStreamChannel :: "pion_env \<Rightarrow> 'a Session \<Rightarrow> string \<Rightarrow> 'a Session \<times> seffect list \<times> nat res" where
  "OpenStreamChannel E s label =
     (if \<not> IsOneOf (se_stateMachine s) [StateAuthenticated, StateStreaming] \<or> \<not> IsAuthenticated s then
        (s, [], Inl (errors_New ''session is not authenticated yet''))
      else (case pe_createChannel E label of
        Inl err \<Rightarrow> (s, [], Inl err)
      | Inr dc \<Rightarrow>
          (case Transition (se_stateMachine s) StateStreaming of
             (sm, Some err) \<Rightarrow> (s\<lparr>se_stateMachine := sm\<rparr>, [CloseChannel dc], Inl err)
           | (sm, None) \<Rightarrow> (s\<lparr>se_stateMachine := sm\<rparr>, [OpenedStream dc label], Inr dc))))"

definition onDataChannel :: "pion_env \<Rightarrow> 'a Session \<Rightarrow> nat \<Rightarrow> string \<Rightarrow> 'a Session \<times> seffect list" where
  "onDataChannel E s dc label =
     (if label = controlChannelLabel then attachControlChannel E s dc
      else (case prepareInboundPayloadChannel s of
        (s1, Some err) \<Rightarrow> (case session_fail E s1 (Some err) of (s2, es) \<Rightarrow> (s2, CloseChannel dc # es))
      | (s1, None) \<Rightarrow>
          if \<not> se_hasOnStream s1 then
            (case session_fail E s1 (Some ErrUnexpectedInboundStream) of (s2, es) \<Rightarrow> (s2, CloseChannel dc # es))
          else (s1, [OnStream dc])))"

subsection \<open>Callbacks of the peer connection and construction\<close>

definition onICECandidate :: "'a Session \<Rightarrow> ICECandidatePayload option \<Rightarrow> seffect list" where
  "onICECandidate s candidate =
     (case candidate of
        None \<Rightarrow> []
      | Some payload \<Rightarrow>
          if \<not> se_hasOnSignal s then []
          else [OnSignal \<lparr>sg_Kind = SignalKindICE, sg_SDP = None, sg_Candidate = Some payload\<rparr>])"

datatype pc_state = PCFailed | PCClosed | PCOther string

fun pcStateName :: "pc_state \<Rightarrow> string" where
  "pcStateName PCFailed = ''failed''" | "pcStateName PCClosed = ''closed''" | "pcStateName (PCOther n) = n"

definition onConnectionStateChange :: "pion_env \<Rightarrow> 'a Session \<Rightarrow> pc_state \<Rightarrow> 'a Session \<times> seffect list" where
  "onConnectionStateChange E s state =
     (let l = SessionLog ''pc_state'' [(''session_id'', se_sessionID s), (''state'', pcStateName state)] in
      if IsOneOf (se_stateMachine s) [StateClosing, StateClosed, StateFailed] then (s, [l])
      else (case state of
              PCFailed \<Rightarrow> (case session_fail E s (Some ErrPeerConnectionFailed) of (s1, es) \<Rightarrow> (s1, l # es))
            | PCClosed \<Rightarrow> (case session_fail E s (Some ErrPeerConnectionClosed) of (s1, es) \<Rightarrow> (s1, l # es))
            | PCOther _ \<Rightarrow> (s, [l])))"

record 'a session_config =
  sc_Mode :: PeerMode
  sc_SessionID :: string
  sc_Initiator :: bool
  sc_ICE :: ICEConfig
  sc_Authenticator :: "'a option"
  sc_StateMachine :: "stateMachine option"
  sc_hasOnSignal :: bool
  sc_hasOnStream :: bool

text \<open>\<open>newPC\<close> is what \<open>NewPeerConnection\<close> returns for the ICE servers.\<close>

definition NewSession ::
  "pion_env \<Rightarrow> (ice_server list \<Rightarrow> gerror option) \<Rightarrow> 'a session_config \<Rightarrow> ('a Session \<times> seffect list) res \<times> seffect list" where
  "NewSession E newPC cfg =
     (case sc_Authenticator cfg of
        None \<Rightarrow> (Inl (errors_New ''authenticator is required''), [])
      | Some a \<Rightarrow>
      (case sc_StateMachine cfg of
        None \<Rightarrow> (Inl (errors_New ''state machine is required''), [])
      | Some sm \<Rightarrow>
          if sm_state sm \<noteq> StateSignaling then
            (Inl (Errorf ''new session requires %s state, got %s'' [stateName StateSignaling, stateName (sm_state sm)] []), [])
          else if TrimSpace (sc_SessionID cfg) = [] then (Inl (errors_New ''session ID is required''), [])
          else (case newPC (iceServers (sc_ICE cfg)) of
             Some err \<Rightarrow> (Inl (Errorf ''create peer connection: %w'' [] [err]), [])
           | None \<Rightarrow>
               (let s = \<lparr>se_mode = sc_Mode cfg, se_sessionID = sc_SessionID cfg, se_authenticator = a,
                         se_stateMachine = sm, se_hasOnSignal = sc_hasOnSignal cfg,
                         se_hasOnStream = sc_hasOnStream cfg, se_control = None, se_controlOpen = False,
                         se_localFingerprint = [], se_remoteFingerprint = [], se_remoteDescription = False,
                         se_pendingCandidates = [], se_authBound = False, se_authStarted = False,
                         se_closeErr = None, se_authenticated = False, se_authResult = None,
                         se_authReadyClosed = False, se_closeOnce = False\<rparr> in
                if sc_Initiator cfg then
                  (case pe_createChannel E controlChannelLabel of
                     Inl err \<Rightarrow> (Inl (Errorf ''create control channel: %w'' [] [err]), [ClosePC])
                   | Inr dc \<Rightarrow> (Inr (attachControlChannel E s dc), []))
                else (Inr (s, []), [])))))"

subsection \<open>Events\<close>

datatype sevent =
    CallCreateOffer
  | CallHandleOffer string
  | CallHandleAnswer string
  | CallAddCandidate ICECandidatePayload
  | CallOpenStream string
  | CallFail "gerror option"
  | CallClose
  | EvICECandidate "ICECandidatePayload option"
  | EvConnectionState pc_state
  | EvDataChannel nat string
  | EvControlOpen
  | EvControlMessage bytes
  | EvControlClose

definition dropResult :: "'s \<times> seffect list \<times> 'b \<Rightarrow> 's \<times> seffect list" where
  "dropResult r = (fst r, fst (snd r))"

fun sessionStep ::
  "unicode \<Rightarrow> (string \<Rightarrow> sdp_desc res) \<Rightarrow> auth_codec \<Rightarrow> 'a auth_iface \<Rightarrow> pion_env \<Rightarrow> 'a Session \<Rightarrow> sevent
    \<Rightarrow> 'a Session \<times> seffect list" where
  "sessionStep U parse J A E s CallCreateOffer = dropResult (CreateOffer U parse E J A s)"
| "sessionStep U parse J A E s (CallHandleOffer o') = dropResult (HandleOffer U parse E J A s o')"
| "sessionStep U parse J A E s (CallHandleAnswer a) = dropResult (HandleAnswer U parse E J A s a)"
| "sessionStep U parse J A E s (CallAddCandidate c) = dropResult (AddRemoteCandidate E s c)"
| "sessionStep U parse J A E s (CallOpenStream label) = dropResult (OpenStreamChannel E s label)"
| "sessionStep U parse J A E s (CallFail e) = Fail E s e"
| "sessionStep U parse J A E s CallClose = Close E s"
| "sessionStep U parse J A E s (EvICECandidate c) = (s, onICECandidate s c)"
| "sessionStep U parse J A E s (EvConnectionState st) = onConnectionStateChange E s st"
| "sessionStep U parse J A E s (EvDataChannel dc label) = onDataChannel E s dc label"
| "sessionStep U parse J A E s EvControlOpen = onControlOpen E J A s"
| "sessionStep U parse J A E s (EvControlMessage data) = onControlMessage E J A s data"
| "sessionStep U parse J A E s EvControlClose = onControlClose E s"

fun sessionRun ::
  "unicode \<Rightarrow> (string \<Rightarrow> sdp_desc res) \<Rightarrow> auth_codec \<Rightarrow> 'a auth_iface \<Rightarrow> 'a Session \<Rightarrow> (pion_env \<times> sevent) list
    \<Rightarrow> 'a Session \<times> seffect list" where
  "sessionRun U parse J A s [] = (s, [])"
| "sessionRun U parse J A s ((E, ev) # evs) =
     (case sessionStep U parse J A E s ev of (s1, es) \<Rightarrow>
        (case sessionRun U parse J A s1 evs of (s2, fs) \<Rightarrow> (s2, es @ fs)))"

text \<open>The interactive authenticator behind its interface.\<close>

definition interactiveIface :: "('s, 'e, 'r) crypto \<Rightarrow> unicode \<Rightarrow> ('s, 'e, 'r) authenticator auth_iface" where
  "interactiveIface C U = \<lparr>ai_Name = au_scheme, ai_Bind = Bind C U, ai_Start = Start, ai_Step = Step C\<rparr>"

end
