(* ===== verification/SessionProofs.thy ===== *)
theory SessionProofs
  imports Session AuthProofs
begin

text \<open>
  Correctness of the WebRTC session: payload channels only after the authenticator has succeeded,
  the authentication result decided once, teardown at most once and final, remote candidates
  neither lost nor reordered, and the choice of the transport fingerprint.  The lemmas about
  authentication are proved once for any authenticator that keeps the contract below; the
  interactive authenticator is an instance.
\<close>

section \<open>Specifications\<close>

text \<open>
  The contract of \<open>auth.Authenticator\<close> as the session relies on it: a predicate of success that
  \<open>Step\<close> establishes when it reports \<open>done\<close> without an error and that no call ever undoes.
\<close>

locale auth_contract =
  fixes A :: "'a auth_iface" and succeeded :: "'a \<Rightarrow> bool"
  assumes step_done: "ai_Step A a m = (a', out, h, True, None) \<Longrightarrow> succeeded a'"
    and bind_keeps: "succeeded a \<Longrightarrow> succeeded (fst (ai_Bind A a material))"
    and start_keeps: "succeeded a \<Longrightarrow> succeeded (fst (ai_Start A a))"
    and step_keeps: "succeeded a \<Longrightarrow> succeeded (fst (ai_Step A a m))"

text \<open>The fields on which authentication and teardown depend.\<close>

definition torn :: "'a Session \<Rightarrow> bool" where
  "torn s \<longleftrightarrow> sm_state (se_stateMachine s) \<in> {StateClosing, StateClosed, StateFailed}"

definition session_inv :: "('a \<Rightarrow> bool) \<Rightarrow> 'a Session \<Rightarrow> bool" where
  "session_inv succ s \<longleftrightarrow>
     (IsAuthenticated s \<longrightarrow> succ (se_authenticator s))
   \<and> (IsAuthenticated s \<longrightarrow> sm_state (se_stateMachine s) \<in> {StateAuthenticated, StateStreaming} \<or> torn s)
   \<and> (sm_state (se_stateMachine s) \<in> {StateAuthenticated, StateStreaming} \<longrightarrow> IsAuthenticated s)
   \<and> (se_authReadyClosed s \<and> \<not> IsAuthenticated s \<longrightarrow> se_closeOnce s)
   \<and> (se_authReadyClosed s \<and> se_authResult s = None \<longrightarrow> IsAuthenticated s)
   \<and> (se_closeOnce s \<longrightarrow> torn s)"

text \<open>How any event may change those fields, with the effects it has.\<close>

definition payloadEffect :: "seffect \<Rightarrow> bool" where
  "payloadEffect e \<longleftrightarrow> (\<exists>dc label. e = OnStream dc \<or> e = OpenedStream dc label)"

definition evolves :: "'a Session \<Rightarrow> seffect list \<Rightarrow> 'a Session \<Rightarrow> bool" where
  "evolves s es s' \<longleftrightarrow>
     (se_authReadyClosed s \<longrightarrow> se_authReadyClosed s' \<and> se_authResult s' = se_authResult s
        \<and> se_authenticated s' = se_authenticated s)
   \<and> (se_closeOnce s \<longrightarrow> se_closeOnce s')
   \<and> count_list es ClosePC = (if se_closeOnce s' \<and> \<not> se_closeOnce s then 1 else 0)"

definition harmless :: "seffect \<Rightarrow> bool" where
  "harmless e \<longleftrightarrow> e \<noteq> ClosePC \<and> \<not> payloadEffect e"

text \<open>A change that leaves those fields alone, and the outcome of most events: such a change, then perhaps a failure.\<close>

definition quiet :: "('a \<Rightarrow> bool) \<Rightarrow> 'a Session \<Rightarrow> 'a Session \<Rightarrow> bool" where
  "quiet succ s t \<longleftrightarrow>
     se_authReadyClosed t = se_authReadyClosed s \<and> se_authResult t = se_authResult s
   \<and> se_authenticated t = se_authenticated s \<and> se_closeOnce t = se_closeOnce s
   \<and> se_stateMachine t = se_stateMachine s \<and> (succ (se_authenticator s) \<longrightarrow> succ (se_authenticator t))"

definition outcome :: "('a \<Rightarrow> bool) \<Rightarrow> pion_env \<Rightarrow> 'a Session \<Rightarrow> 'a Session \<times> seffect list \<Rightarrow> bool" where
  "outcome succ E s r \<longleftrightarrow>
     (\<exists>t es. quiet succ s t \<and> list_all harmless es
        \<and> (r = (t, es) \<or> (\<exists>err. r = (fst (session_fail E t err), es @ snd (session_fail E t err)))))"

text \<open>What every event does: keep the invariant, evolve, and touch payload channels only when authenticated.\<close>

definition good :: "('a \<Rightarrow> bool) \<Rightarrow> 'a Session \<Rightarrow> 'a Session \<times> seffect list \<Rightarrow> bool" where
  "good succ s r \<longleftrightarrow>
     session_inv succ (fst r) \<and> evolves s (snd r) (fst r)
   \<and> (\<forall>e \<in> set (snd r). payloadEffect e \<longrightarrow> IsAuthenticated s \<and> \<not> torn s)"

definition calm :: "'a Session \<times> seffect list \<Rightarrow> bool" where
  "calm r \<longleftrightarrow> (\<forall>e \<in> set (snd r). \<not> payloadEffect e)"

text \<open>The candidates handed to the peer connection, in order.\<close>

definition addedCandidates :: "seffect list \<Rightarrow> ICECandidatePayload list" where
  "addedCandidates es = concat (map (\<lambda>e. case e of AddCandidate c \<Rightarrow> [c] | _ \<Rightarrow> []) es)"

text \<open>An event that leaves the candidates alone.\<close>

definition candFrame :: "'a Session \<Rightarrow> 'a Session \<times> seffect list \<Rightarrow> bool" where
  "candFrame s r \<longleftrightarrow> se_pendingCandidates (fst r) = se_pendingCandidates s
     \<and> se_remoteDescription (fst r) = se_remoteDescription s \<and> addedCandidates (snd r) = []"

text \<open>No candidate waits once a remote description is set; and the account of the candidates an event receives.\<close>

definition candInv :: "'a Session \<Rightarrow> bool" where
  "candInv s \<longleftrightarrow> (se_remoteDescription s \<longrightarrow> se_pendingCandidates s = [])"

definition candOk :: "'a Session \<Rightarrow> ICECandidatePayload list \<Rightarrow> 'a Session \<times> seffect list \<Rightarrow> bool" where
  "candOk s cs r \<longleftrightarrow> candInv (fst r)
     \<and> addedCandidates (snd r) @ se_pendingCandidates (fst r) = se_pendingCandidates s @ cs"

text \<open>A concrete stack, parser and codec, and an exposing session, for the examples.\<close>

definition toyEnv :: pion_env where
  "toyEnv = \<lparr>pe_closeErr = None, pe_sendTextErr = None, pe_addCandidateErr = (\<lambda>_. None), pe_setLocalErr = None,
     pe_localSDP = Some ''FP-B'', pe_setRemoteErr = None, pe_createSDP = Inr ''FP-B'', pe_createChannel = (\<lambda>_. Inr 7)\<rparr>"

definition toyParse :: "string \<Rightarrow> sdp_desc res" where
  "toyParse sdp = Inr \<lparr>sd_Attributes = [\<lparr>sa_Key = ''fingerprint'', sa_Value = sdp\<rparr>], sd_Media = []\<rparr>"

definition toyCandidate :: "string \<Rightarrow> ICECandidatePayload" where
  "toyCandidate c = \<lparr>ic_Candidate = c, ic_SDPMid = None, ic_SDPMLineIndex = None, ic_UsernameFragment = None\<rparr>"

definition toyCodec :: "auth_message \<Rightarrow> auth_message \<Rightarrow> auth_codec" where
  "toyCodec m1 m2 = \<lparr>jc_Marshal = (\<lambda>_. Inr [0]), jc_Decode = (\<lambda>b. Inr (if b = [1] then m1 else m2))\<rparr>"

definition toyConfig :: "(bool, bool, unit) authenticator session_config" where
  "toyConfig = \<lparr>sc_Mode = ModeExpose, sc_SessionID = ''s1'', sc_Initiator = False,
     sc_ICE = \<lparr>ice_STUN = [], ice_TURN = [], ice_TURNUsername = [], ice_TURNPassword = []\<rparr>,
     sc_Authenticator = Some (toyAuth SchemeCPACEV2), sc_StateMachine = Some \<lparr>sm_state = StateSignaling\<rparr>,
     sc_hasOnSignal = True, sc_hasOnStream = True\<rparr>"

definition toySession :: "(bool, bool, unit) authenticator Session" where
  "toySession = \<lparr>se_mode = ModeExpose, se_sessionID = ''s1'', se_authenticator = toyAuth SchemeCPACEV2,
     se_stateMachine = \<lparr>sm_state = StateSignaling\<rparr>, se_hasOnSignal = True, se_hasOnStream = True,
     se_control = None, se_controlOpen = False, se_localFingerprint = [], se_remoteFingerprint = [],
     se_remoteDescription = False, se_pendingCandidates = [], se_authBound = False, se_authStarted = False,
     se_closeErr = None, se_authenticated = False, se_authResult = None, se_authReadyClosed = False,
     se_closeOnce = False\<rparr>"

section \<open>Teardown\<close>

text \<open>From any state but the two final ones the transition to the failed state is allowed.\<close>

lemma Transition_Failed:
  "sm_state m \<notin> {StateFailed, StateClosed} \<Longrightarrow> Transition m StateFailed = (m\<lparr>sm_state := StateFailed\<rparr>, None)"
  by (cases "sm_state m") (simp_all add: Transition_def)

lemma completeAuthResult_simps [simp]:
  "se_closeOnce (completeAuthResult s r a) = se_closeOnce s"
  "se_stateMachine (completeAuthResult s r a) = se_stateMachine s"
  "se_authenticator (completeAuthResult s r a) = se_authenticator s"
  "se_closeErr (completeAuthResult s r a) = se_closeErr s"
  "se_authReadyClosed (completeAuthResult s r a)"
  "se_authResult (completeAuthResult s r a) = (if se_authReadyClosed s then se_authResult s else r)"
  "se_authenticated (completeAuthResult s r a) = (if se_authReadyClosed s then se_authenticated s else a)"
  by (simp_all add: completeAuthResult_def)

lemma session_fail_eq:
  "session_fail E s err =
     (if se_closeOnce s then (completeAuthResult s (Some (failError err)) False, [])
      else ((completeAuthResult s (Some (failError err)) False)
              \<lparr>se_closeOnce := True,
               se_stateMachine := (if sm_state (se_stateMachine s) \<in> {StateFailed, StateClosed} then se_stateMachine s
                                   else (se_stateMachine s)\<lparr>sm_state := StateFailed\<rparr>),
               se_closeErr := (case pe_closeErr E of None \<Rightarrow> se_closeErr s | Some e \<Rightarrow> Some e)\<rparr>, [ClosePC]))"
proof (cases "se_closeOnce s \<or> sm_state (se_stateMachine s) \<in> {StateFailed, StateClosed}")
  case True
  then show ?thesis
    by (cases "se_closeOnce s") (simp_all add: session_fail_def Let_def cong: option.case_cong)
next
  case False
  then show ?thesis by (simp add: session_fail_def Let_def Transition_Failed cong: option.case_cong)
qed

lemma session_fail_inv: "session_inv succ s \<Longrightarrow> session_inv succ (fst (session_fail E s err))"
  unfolding session_inv_def session_fail_eq torn_def
  by (cases "se_closeOnce s"; cases "se_authReadyClosed s") (auto simp: IsAuthenticated_def)

lemma session_fail_evolves: "evolves s (snd (session_fail E s err)) (fst (session_fail E s err))"
  by (simp add: session_fail_eq evolves_def)

lemma session_fail_no_payload: "payloadEffect e \<Longrightarrow> e \<notin> set (snd (session_fail E s err))"
  by (auto simp: session_fail_eq payloadEffect_def)

lemma session_fail_torn: "session_inv succ s \<Longrightarrow> torn (fst (session_fail E s err))"
  unfolding session_fail_eq session_inv_def by (auto simp: torn_def)

section \<open>Outcomes\<close>

lemma evolves_refl [simp]: "evolves s [] s"
  by (simp add: evolves_def)

lemma evolves_trans: "evolves s es t \<Longrightarrow> evolves t fs u \<Longrightarrow> evolves s (es @ fs) u"
  unfolding evolves_def
  by (cases "se_closeOnce s"; cases "se_closeOnce t"; cases "se_authReadyClosed s") simp_all

lemma harmless_noclose: "list_all harmless es \<Longrightarrow> count_list es ClosePC = 0"
  by (induction es) (auto simp: harmless_def)

lemma harmless_nopayload: "list_all harmless es \<Longrightarrow> payloadEffect e \<Longrightarrow> e \<notin> set es"
  by (auto simp: list_all_iff harmless_def)

lemma quiet_inv: "quiet succ s t \<Longrightarrow> session_inv succ s \<Longrightarrow> session_inv succ t"
  unfolding quiet_def session_inv_def torn_def IsAuthenticated_def by simp

lemma quiet_evolves: "quiet succ s t \<Longrightarrow> list_all harmless es \<Longrightarrow> evolves s es t"
  unfolding quiet_def evolves_def by (simp add: harmless_noclose)

lemma quiet_trans: "quiet succ s t \<Longrightarrow> quiet succ t u \<Longrightarrow> quiet succ s u"
  unfolding quiet_def by simp

lemma outcome_inv: "outcome succ E s r \<Longrightarrow> session_inv succ s \<Longrightarrow> session_inv succ (fst r)"
  unfolding outcome_def using quiet_inv session_fail_inv by fastforce

lemma outcome_evolves: "outcome succ E s r \<Longrightarrow> evolves s (snd r) (fst r)"
  unfolding outcome_def using quiet_evolves evolves_trans [OF quiet_evolves session_fail_evolves] by fastforce

lemma outcome_nopayload: "outcome succ E s r \<Longrightarrow> payloadEffect e \<Longrightarrow> e \<notin> set (snd r)"
  unfolding outcome_def using harmless_nopayload session_fail_no_payload by fastforce

lemma outcome_quiet: "quiet succ s t \<Longrightarrow> list_all harmless es \<Longrightarrow> outcome succ E s (t, es)"
  unfolding outcome_def by blast

lemma outcome_fail:
  "quiet succ s t \<Longrightarrow> list_all harmless es \<Longrightarrow> outcome succ E s (fst (session_fail E t err), es @ snd (session_fail E t err))"
  unfolding outcome_def by blast

lemma outcome_fail0: "quiet succ s t \<Longrightarrow> outcome succ E s (session_fail E t err)"
  using outcome_fail [of succ s t "[]" E err] by simp

lemma outcome_weaken: "quiet succ s t \<Longrightarrow> list_all harmless fs \<Longrightarrow> outcome succ E t (u, es) \<Longrightarrow> outcome succ E s (u, fs @ es)"
  unfolding outcome_def
proof (elim exE conjE disjE)
  fix t' es' assume a: "quiet succ s t" "list_all harmless fs" "quiet succ t t'" "list_all harmless es'"
  then have q: "quiet succ s t'" "list_all harmless (fs @ es')" by (auto intro: quiet_trans)
  show "\<exists>t es0. quiet succ s t \<and> list_all harmless es0
      \<and> ((u, fs @ es) = (t, es0) \<or> (\<exists>err. (u, fs @ es) = (fst (session_fail E t err), es0 @ snd (session_fail E t err))))"
    if "(u, es) = (t', es')"
    using q that by (intro exI [of _ t'] exI [of _ "fs @ es'"]) simp
  show "\<exists>t es0. quiet succ s t \<and> list_all harmless es0
      \<and> ((u, fs @ es) = (t, es0) \<or> (\<exists>err. (u, fs @ es) = (fst (session_fail E t err), es0 @ snd (session_fail E t err))))"
    if "(u, es) = (fst (session_fail E t' err), es' @ snd (session_fail E t' err))" for err
    using q that by (intro exI [of _ t'] exI [of _ "fs @ es'"]) auto
qed

lemma sendAuthMessage_harmless: "list_all harmless (fst (sendAuthMessage E J c m))"
  by (simp add: sendAuthMessage_def harmless_def payloadEffect_def split: sum.splits option.splits)

context auth_contract
begin

lemma bindAuthenticator_quiet: "bindAuthenticator A s = (t, r) \<Longrightarrow> quiet succeeded s t"
  using bind_keeps [of "se_authenticator s"]
  by (auto simp: bindAuthenticator_def quiet_def split: option.splits if_splits sum.splits prod.splits)
     (metis fst_conv)+

lemma maybeSendAuth_outcome: "outcome succeeded E s (maybeSendAuth E J A s)"
proof (cases "IsOneOf (se_stateMachine s) [StateAuthPending] \<and> se_controlOpen s")
  case False
  then show ?thesis by (auto simp: maybeSendAuth_def quiet_def intro!: outcome_quiet)
next
  case True
  obtain s1 r where b: "bindAuthenticator A s = (s1, r)" by fastforce
  note q1 = bindAuthenticator_quiet [OF b]
  show ?thesis
  proof (cases r)
    case (Inl err)
    with True b show ?thesis by (auto simp: maybeSendAuth_def intro: outcome_quiet q1 outcome_fail0)
  next
    case r: (Inr control)
    obtain a' h where st: "ai_Start A (se_authenticator s1) = (a', h)" by fastforce
    let ?s3 = "s1\<lparr>se_authStarted := True, se_authenticator := a'\<rparr>"
    have q3: "quiet succeeded s ?s3"
      using q1 start_keeps [of "se_authenticator s1"] st by (simp add: quiet_def)
    obtain es r' where snd: "sendAuthMessage E J control (projr h) = (es, r')" by fastforce
    have hes: "list_all harmless es" using sendAuthMessage_harmless [of E J control "projr h"] snd by simp
    have "maybeSendAuth E J A s =
       (if se_mode s1 \<noteq> ModeConnect \<or> se_authStarted s1 then (s1, [])
        else case h of Inl err \<Rightarrow> session_fail E ?s3 (Some err)
         | Inr hello \<Rightarrow> (case r' of None \<Rightarrow> (?s3, es)
             | Some err \<Rightarrow> (fst (session_fail E ?s3 (Some err)), es @ snd (session_fail E ?s3 (Some err)))))"
      using True b r st snd by (auto simp: maybeSendAuth_def Let_def case_prod_beta split: sum.splits option.splits)
    then show ?thesis
      using q1 q3 hes by (auto intro: outcome_quiet outcome_fail outcome_fail0 split: sum.splits option.splits)
  qed
qed

end

section \<open>Every event\<close>

lemma outcome_good: "outcome succ E s r \<Longrightarrow> session_inv succ s \<Longrightarrow> good succ s r"
  unfolding good_def using outcome_inv outcome_evolves outcome_nopayload by blast

lemma outcome_calm: "outcome succ E s r \<Longrightarrow> calm r"
  unfolding calm_def using outcome_nopayload by blast

lemma good_trans: "good succ s (t, es) \<Longrightarrow> good succ t (u, fs) \<Longrightarrow> calm (u, fs) \<Longrightarrow> good succ s (u, es @ fs)"
  unfolding good_def calm_def by (auto intro: evolves_trans)

lemma good_quiet: "quiet succ s t \<Longrightarrow> good succ t (u, es) \<Longrightarrow> good succ s (u, es)"
  unfolding good_def quiet_def evolves_def torn_def IsAuthenticated_def by simp

lemma good_refl: "session_inv succ s \<Longrightarrow> list_all harmless es \<Longrightarrow> good succ s (s, es)"
  unfolding good_def by (auto dest: harmless_nopayload simp: evolves_def harmless_noclose)

lemma quiet_updates [simp]:
  "quiet succ s (s\<lparr>se_localFingerprint := f\<rparr>)" "quiet succ s (s\<lparr>se_controlOpen := c\<rparr>)"
  "quiet succ s (s\<lparr>se_remoteFingerprint := f, se_remoteDescription := d, se_pendingCandidates := p\<rparr>)"
  "quiet succ s (s\<lparr>se_pendingCandidates := p\<rparr>)" "quiet succ s (s\<lparr>se_control := c'\<rparr>)" "quiet succ s s"
  by (simp_all add: quiet_def)

lemma to_AuthPending:
  assumes "session_inv succ s" "sm_state (se_stateMachine s) = StateSignaling"
  shows "good succ s (s\<lparr>se_stateMachine := (se_stateMachine s)\<lparr>sm_state := StateAuthPending\<rparr>\<rparr>, [])"
proof -
  have "\<not> torn s" using assms(2) by (simp add: torn_def)
  then have "\<not> IsAuthenticated s" "\<not> se_closeOnce s" "\<not> (se_authReadyClosed s \<and> \<not> IsAuthenticated s)"
    using assms unfolding session_inv_def by auto
  then show ?thesis unfolding good_def session_inv_def by (simp add: evolves_def torn_def IsAuthenticated_def)
qed

lemma flushCandidates_harmless: "list_all harmless (fst (flushCandidates E cs))"
  by (induction cs) (auto simp: harmless_def payloadEffect_def split: option.splits prod.splits)

lemma AddRemoteCandidate_good:
  "session_inv succ s \<Longrightarrow> good succ s (dropResult (AddRemoteCandidate E s c))"
  by (auto simp: AddRemoteCandidate_def dropResult_def harmless_def payloadEffect_def
      intro!: outcome_good [OF outcome_quiet] split: option.splits)

lemma attachControlChannel_outcome: "outcome succ E s (attachControlChannel E s dc)"
proof -
  have "list_all harmless [CloseChannel dc]" by (simp add: harmless_def payloadEffect_def)
  moreover have "quiet succ s s" by simp
  ultimately show ?thesis
    using outcome_fail [of succ s s "[CloseChannel dc]" E]
    by (auto simp: attachControlChannel_def case_prod_beta intro!: outcome_quiet)
qed

lemma onConnectionStateChange_outcome: "outcome succ E s (onConnectionStateChange E s st)"
proof -
  have h: "list_all harmless [SessionLog n kv]" for n kv by (simp add: harmless_def payloadEffect_def)
  show ?thesis
    using outcome_fail [of succ s s, OF _ h, of E] outcome_quiet [of succ s s, OF _ h, of E]
    by (auto simp: onConnectionStateChange_def Let_def case_prod_beta split: pc_state.splits)
qed

lemma onControlClose_outcome: "outcome succ E s (onControlClose E s)"
  by (auto simp: onControlClose_def intro!: outcome_quiet outcome_fail0)

lemma Close_good:
  assumes inv: "session_inv succ s"
  shows "good succ s (Close E s)"
proof (cases "se_closeOnce s")
  case True
  with inv show ?thesis by (simp add: Close_def good_refl)
next
  case once: False
  define m where "m = (if sm_state (se_stateMachine s) \<in> {StateClosed, StateFailed, StateClosing} then se_stateMachine s
                       else (se_stateMachine s)\<lparr>sm_state := StateClosing\<rparr>)"
  define s1 where "s1 = completeAuthResult (s\<lparr>se_closeOnce := True, se_stateMachine := m\<rparr>) (Some ErrSessionClosed) False"
  have "\<exists>t l. Close E s = (t, l @ [ClosePC]) \<and> list_all harmless l
     \<and> se_authReadyClosed t = se_authReadyClosed s1 \<and> se_authResult t = se_authResult s1
     \<and> se_authenticated t = se_authenticated s1 \<and> se_closeOnce t \<and> se_authenticator t = se_authenticator s \<and> torn t"
    using once
    by (cases "sm_state (se_stateMachine s)")
       (auto simp: Close_def s1_def Transition_def m_def torn_def Let_def transitionLog_def harmless_def payloadEffect_def
        split: option.splits)
  then obtain t l where t: "Close E s = (t, l @ [ClosePC])" "list_all harmless l"
     "se_authReadyClosed t = se_authReadyClosed s1" "se_authResult t = se_authResult s1"
     "se_authenticated t = se_authenticated s1" "se_closeOnce t" "se_authenticator t = se_authenticator s" "torn t" by blast
  have "IsAuthenticated t = IsAuthenticated s"
    using t(3-5) by (simp add: IsAuthenticated_def s1_def)
  moreover have "sm_state (se_stateMachine t) \<notin> {StateAuthenticated, StateStreaming}"
    using t(8) by (auto simp: torn_def)
  moreover have "se_authResult t = None \<Longrightarrow> se_authReadyClosed s \<and> se_authResult s = None"
    using t(4) by (simp add: s1_def split: if_splits)
  ultimately have "session_inv succ t"
    using inv t(6-8) unfolding session_inv_def by simp
  moreover have "evolves s (l @ [ClosePC]) t"
    using t once by (simp add: evolves_def harmless_noclose s1_def)
  moreover have "\<not> payloadEffect e" if "e \<in> set (l @ [ClosePC])" for e
    using that harmless_nopayload [OF t(2)] by (auto simp: payloadEffect_def)
  ultimately show ?thesis by (auto simp: good_def t(1))
qed

context auth_contract
begin

lemma maybeEnterAuthPending_good:
  assumes inv: "session_inv succeeded s"
  shows "good succeeded s (maybeEnterAuthPending E J A s) \<and> calm (maybeEnterAuthPending E J A s)"
proof (cases "se_localFingerprint s \<noteq> [] \<and> se_remoteFingerprint s \<noteq> []")
  case False
  then show ?thesis
    using inv by (auto simp: maybeEnterAuthPending_def good_refl calm_def)
next
  case fp: True
  show ?thesis
  proof (cases "sm_state (se_stateMachine s) = StateSignaling")
    case True
    let ?s = "s\<lparr>se_stateMachine := (se_stateMachine s)\<lparr>sm_state := StateAuthPending\<rparr>\<rparr>"
    have "Transition (se_stateMachine s) StateAuthPending = ((se_stateMachine s)\<lparr>sm_state := StateAuthPending\<rparr>, None)"
      using True by (simp add: Transition_def)
    then have e: "maybeEnterAuthPending E J A s = maybeSendAuth E J A ?s"
      using fp True by (simp add: maybeEnterAuthPending_def)
    note g = to_AuthPending [OF inv True]
    have i: "session_inv succeeded ?s" using g by (simp add: good_def)
    have "good succeeded ?s (maybeSendAuth E J A ?s)" "calm (maybeSendAuth E J A ?s)"
      using outcome_good [OF maybeSendAuth_outcome i] outcome_calm [OF maybeSendAuth_outcome] by simp_all
    with good_trans [OF g, of "fst (maybeSendAuth E J A ?s)" "snd (maybeSendAuth E J A ?s)"] show ?thesis
      by (simp add: e)
  next
    case False
    then have "maybeEnterAuthPending E J A s = maybeSendAuth E J A s"
      using fp by (simp add: maybeEnterAuthPending_def)
    then show ?thesis
      using outcome_good [OF maybeSendAuth_outcome inv] outcome_calm [OF maybeSendAuth_outcome] by simp
  qed
qed

lemma setLocalDescription_good:
  assumes inv: "session_inv succeeded s"
  shows "good succeeded s (dropResult (setLocalDescription U parse E J A s))
       \<and> calm (dropResult (setLocalDescription U parse E J A s))"
proof -
  have same: "good succeeded s (s, [])" "calm (s, [])" using inv by (simp_all add: good_refl calm_def)
  have "good succeeded s (maybeEnterAuthPending E J A (s\<lparr>se_localFingerprint := f\<rparr>))"
    "calm (maybeEnterAuthPending E J A (s\<lparr>se_localFingerprint := f\<rparr>))" for f
    using maybeEnterAuthPending_good [OF quiet_inv [OF quiet_updates(1) inv]] good_quiet [OF quiet_updates(1)]
    by (metis prod.collapse)+
  with same show ?thesis
    by (auto simp: setLocalDescription_def dropResult_def case_prod_beta split: option.splits sum.splits)
qed

lemma setRemoteDescription_good:
  assumes inv: "session_inv succeeded s"
  shows "good succeeded s (dropResult (setRemoteDescription U parse E J A s sdp))
       \<and> calm (dropResult (setRemoteDescription U parse E J A s sdp))"
proof -
  have same: "good succeeded s (s, [])" "calm (s, [])" using inv by (simp_all add: good_refl calm_def)
  obtain es r where fl: "flushCandidates E (se_pendingCandidates s) = (es, r)" by fastforce
  have h: "list_all harmless es" using flushCandidates_harmless [of E "se_pendingCandidates s"] fl by simp
  have 1: "good succeeded s (s\<lparr>se_remoteFingerprint := f, se_remoteDescription := True, se_pendingCandidates := []\<rparr>, es)"
    "calm (s\<lparr>se_remoteFingerprint := f, se_remoteDescription := True, se_pendingCandidates := []\<rparr>, es)" for f
    using outcome_good [OF outcome_quiet [OF quiet_updates(3) h] inv] harmless_nopayload [OF h] by (auto simp: calm_def)
  let ?m = "\<lambda>f. maybeEnterAuthPending E J A (s\<lparr>se_remoteFingerprint := f, se_remoteDescription := True, se_pendingCandidates := []\<rparr>)"
  have i: "session_inv succeeded (s\<lparr>se_remoteFingerprint := f, se_remoteDescription := True, se_pendingCandidates := []\<rparr>)" for f
    using quiet_inv [OF quiet_updates(3) inv] .
  have 2: "good succeeded s (fst (?m f), es @ snd (?m f))" "calm (fst (?m f), es @ snd (?m f))" for f
    using good_trans [OF 1(1) [of f], of "fst (?m f)" "snd (?m f)"] 1(2) [of f]
      maybeEnterAuthPending_good [OF i [of f], of E J] by (auto simp: calm_def)
  from fl same 1 2 show ?thesis
    by (auto simp: setRemoteDescription_def dropResult_def Let_def case_prod_beta split: option.splits sum.splits)
qed

lemma calm_good_seq:
  assumes "good succeeded s (t, es)" "calm (t, es)" "good succeeded t (u, fs)" "calm (u, fs)"
  shows "good succeeded s (u, es @ fs) \<and> calm (u, es @ fs)"
  using assms good_trans [OF assms(1,3,4)] by (auto simp: calm_def)

lemma offers_good:
  assumes inv: "session_inv succeeded s"
  shows "good succeeded s (dropResult (CreateOffer U parse E J A s)) \<and> calm (dropResult (CreateOffer U parse E J A s))"
    "good succeeded s (dropResult (HandleOffer U parse E J A s o')) \<and> calm (dropResult (HandleOffer U parse E J A s o'))"
    "good succeeded s (dropResult (HandleAnswer U parse E J A s a)) \<and> calm (dropResult (HandleAnswer U parse E J A s a))"
proof -
  have same: "good succeeded s (s, [])" "calm (s, [])" using inv by (simp_all add: good_refl calm_def)
  obtain t es r where l: "setLocalDescription U parse E J A s = (t, es, r)" by (metis prod.collapse)
  show "good succeeded s (dropResult (CreateOffer U parse E J A s)) \<and> calm (dropResult (CreateOffer U parse E J A s))"
    using setLocalDescription_good [OF inv, of U parse E J] same
    by (auto simp: CreateOffer_def dropResult_def l split: sum.splits option.splits)
  show "good succeeded s (dropResult (HandleAnswer U parse E J A s a)) \<and> calm (dropResult (HandleAnswer U parse E J A s a))"
    using setRemoteDescription_good [OF inv] by (simp add: HandleAnswer_def)
  obtain t1 es1 r1 where r: "setRemoteDescription U parse E J A s o' = (t1, es1, r1)" by (metis prod.collapse)
  then have g1: "good succeeded s (t1, es1)" "calm (t1, es1)"
    using setRemoteDescription_good [OF inv, of U parse E J o'] by (simp_all add: dropResult_def)
  then have inv1: "session_inv succeeded t1" by (simp add: good_def)
  obtain t2 es2 r2 where l2: "setLocalDescription U parse E J A t1 = (t2, es2, r2)" by (metis prod.collapse)
  then have g2: "good succeeded t1 (t2, es2)" "calm (t2, es2)"
    using setLocalDescription_good [OF inv1, of U parse E J] by (simp_all add: dropResult_def)
  show "good succeeded s (dropResult (HandleOffer U parse E J A s o')) \<and> calm (dropResult (HandleOffer U parse E J A s o'))"
    using g1 calm_good_seq [OF g1 g2]
    by (auto simp: HandleOffer_def dropResult_def r l2 split: sum.splits option.splits)
qed

lemma handleControlMessage_cases:
  assumes "session_inv succeeded s"
  obtains (plain) t es r where "handleControlMessage E J A s data = (t, es, r)" "quiet succeeded s t" "list_all harmless es"
  | (authenticated) t es where "sm_state (se_stateMachine s) = StateAuthPending" "quiet succeeded s t" "succeeded (se_authenticator t)"
      "list_all harmless es"
      "handleControlMessage E J A s data =
         (completeAuthResult (t\<lparr>se_stateMachine := (se_stateMachine t)\<lparr>sm_state := StateAuthenticated\<rparr>\<rparr>) None True, es, None)"
proof (cases "sm_state (se_stateMachine s) = StateAuthPending")
  case False
  then show thesis by (intro plain [of s "[]"]) (simp_all add: handleControlMessage_def)
next
  case pend: True
  show thesis
  proof (cases "jc_Decode J data")
    case (Inl err)
    with pend show thesis by (intro plain [of s "[]"]) (simp_all add: handleControlMessage_def)
  next
    case dec: (Inr inbound)
    obtain s1 r where b: "bindAuthenticator A s = (s1, r)" by fastforce
    note q1 = bindAuthenticator_quiet [OF b]
    show thesis
    proof (cases r)
      case (Inl err)
      with pend dec b q1 show thesis by (intro plain [of s1 "[]"]) (simp_all add: handleControlMessage_def)
    next
      case r: (Inr control)
      obtain a' out h d e where st: "ai_Step A (se_authenticator s1) inbound = (a', out, h, d, e)" by (metis prod.collapse)
      let ?s2 = "s1\<lparr>se_authenticator := a'\<rparr>"
      have q2: "quiet succeeded s ?s2"
        using q1 step_keeps [of "se_authenticator s1" inbound] st by (simp add: quiet_def)
      obtain es se where sa: "(if h then sendAuthMessage E J control out else ([], None)) = (es, se)" by fastforce
      have hes: "list_all harmless es"
        using sendAuthMessage_harmless [of E J control out] sa by (auto split: if_splits)
      have pend2: "sm_state (se_stateMachine ?s2) = StateAuthPending" using q2 pend by (simp add: quiet_def)
      then have tr: "Transition (se_stateMachine s1) StateAuthenticated = ((se_stateMachine s1)\<lparr>sm_state := StateAuthenticated\<rparr>, None)"
        by (simp add: Transition_def)
      let ?log = "SessionLog ''auth_succeeded'' [(''session_id'', se_sessionID s), (''scheme'', ai_Name A a')]"
      have eq: "handleControlMessage E J A s data =
        (if e \<noteq> None then (?s2, [], e) else if se \<noteq> None then (?s2, es, se)
         else if d then
           (completeAuthResult (?s2\<lparr>se_stateMachine := (se_stateMachine ?s2)\<lparr>sm_state := StateAuthenticated\<rparr>\<rparr>) None True,
            es @ [?log], None)
         else (?s2, es, None))"
        using sa by (cases h) (auto simp: handleControlMessage_def pend dec b r st tr Let_def)
      show thesis
      proof (cases "e = None \<and> se = None \<and> d")
        case False
        then have "\<exists>es' r'. handleControlMessage E J A s data = (?s2, es', r') \<and> list_all harmless es'"
          unfolding eq using hes by auto
        with q2 show thesis using plain by blast
      next
        case True
        then have su: "succeeded a'" using step_done [of "se_authenticator s1" inbound a' out h] st by simp
        have "list_all harmless (es @ [?log])" using hes by (simp add: harmless_def payloadEffect_def)
        with pend q2 su True eq show thesis by (intro authenticated [of ?s2 "es @ [?log]"]) simp_all
      qed
    qed
  qed
qed

end

lemma OpenStreamChannel_good:
  assumes "session_inv succ s"
  shows "good succ s (dropResult (OpenStreamChannel E s label))"
    and "payloadEffect e \<Longrightarrow> e \<in> set (snd (dropResult (OpenStreamChannel E s label))) \<Longrightarrow>
           sm_state (se_stateMachine (fst (dropResult (OpenStreamChannel E s label)))) = StateStreaming"
proof -
  have tr: "Transition m StateStreaming = (m\<lparr>sm_state := StateStreaming\<rparr>, None)"
    if "sm_state m \<in> {StateAuthenticated, StateStreaming}" for m
    using that by (auto simp: Transition_def)
  let ?t = "s\<lparr>se_stateMachine := (se_stateMachine s)\<lparr>sm_state := StateStreaming\<rparr>\<rparr>"
  have g: "good succ s (?t, [OpenedStream dc label])"
    if "sm_state (se_stateMachine s) \<in> {StateAuthenticated, StateStreaming}" "IsAuthenticated s" for dc
  proof -
    have "\<not> torn s" "\<not> se_closeOnce s" using that(1) assms by (auto simp: session_inv_def torn_def)
    then show ?thesis using assms that unfolding good_def session_inv_def evolves_def torn_def
      by (simp add: IsAuthenticated_def)
  qed
  then show "good succ s (dropResult (OpenStreamChannel E s label))"
    using assms tr [of "se_stateMachine s"]
    by (auto simp: OpenStreamChannel_def dropResult_def good_refl split: sum.splits)
  show "sm_state (se_stateMachine (fst (dropResult (OpenStreamChannel E s label)))) = StateStreaming"
    if "payloadEffect e" "e \<in> set (snd (dropResult (OpenStreamChannel E s label)))"
    using that tr [of "se_stateMachine s"]
    by (auto simp: OpenStreamChannel_def dropResult_def split: sum.splits if_splits)
qed

lemma prepareInbound_cases:
  obtains (refused) "prepareInboundPayloadChannel s = (s, Some ErrPreAuthPayloadChannel)"
      "\<not> (sm_state (se_stateMachine s) \<in> {StateAuthenticated, StateStreaming} \<and> IsAuthenticated s)"
  | (admitted) "sm_state (se_stateMachine s) \<in> {StateAuthenticated, StateStreaming}" "IsAuthenticated s"
      "prepareInboundPayloadChannel s = (s\<lparr>se_stateMachine := (se_stateMachine s)\<lparr>sm_state := StateStreaming\<rparr>\<rparr>, None)"
proof (cases "sm_state (se_stateMachine s) \<in> {StateAuthenticated, StateStreaming} \<and> IsAuthenticated s")
  case True
  then show thesis by (intro admitted) (auto simp: prepareInboundPayloadChannel_def Transition_def)
next
  case False
  then show thesis by (intro refused) (auto simp: prepareInboundPayloadChannel_def)
qed

lemma onDataChannel_good:
  assumes inv: "session_inv succ s"
  shows "good succ s (onDataChannel E s dc label)"
    and "payloadEffect e \<Longrightarrow> e \<in> set (snd (onDataChannel E s dc label)) \<Longrightarrow>
           sm_state (se_stateMachine (fst (onDataChannel E s dc label))) = StateStreaming"
proof -
  have h: "list_all harmless [CloseChannel dc]" by (simp add: harmless_def payloadEffect_def)
  have "good succ s (onDataChannel E s dc label) \<and> (\<forall>e \<in> set (snd (onDataChannel E s dc label)). payloadEffect e \<longrightarrow>
     sm_state (se_stateMachine (fst (onDataChannel E s dc label))) = StateStreaming)"
  proof (cases "label = controlChannelLabel")
    case True
    then show ?thesis
      using outcome_good [OF attachControlChannel_outcome inv, of E dc]
        outcome_calm [OF attachControlChannel_outcome [of succ E s dc]]
      by (auto simp: onDataChannel_def calm_def)
  next
    case False
    show ?thesis
    proof (cases rule: prepareInbound_cases [of s])
      case refused
      have q: "quiet succ s s" by simp
      from refused False outcome_good [OF outcome_fail [OF q h] inv] outcome_calm [OF outcome_fail [OF q h]]
      show ?thesis by (simp add: onDataChannel_def case_prod_beta calm_def)
    next
      case admitted
      let ?t = "s\<lparr>se_stateMachine := (se_stateMachine s)\<lparr>sm_state := StateStreaming\<rparr>\<rparr>"
      have no: "\<not> torn s" "\<not> se_closeOnce s" using admitted(1) inv by (auto simp: session_inv_def torn_def)
      then have it: "session_inv succ ?t" and gt: "good succ s (?t, [])" "good succ s (?t, [OnStream dc])"
        using inv admitted(1,2) unfolding good_def session_inv_def evolves_def torn_def by (simp_all add: IsAuthenticated_def)
      have q: "quiet succ ?t ?t" by simp
      note f = outcome_good [OF outcome_fail [OF q h] it] outcome_calm [OF outcome_fail [OF q h]]
      show ?thesis
        using False admitted gt(2) good_trans [OF gt(1) f] f(2)
        by (simp add: onDataChannel_def case_prod_beta calm_def)
    qed
  qed
  then show "good succ s (onDataChannel E s dc label)"
    and "payloadEffect e \<Longrightarrow> e \<in> set (snd (onDataChannel E s dc label)) \<Longrightarrow>
           sm_state (se_stateMachine (fst (onDataChannel E s dc label))) = StateStreaming" by blast+
qed

context auth_contract
begin

lemma onControlMessage_good:
  assumes inv: "session_inv succeeded s"
  shows "good succeeded s (onControlMessage E J A s data) \<and> calm (onControlMessage E J A s data)"
  using inv
proof (cases rule: handleControlMessage_cases [where E = E and J = J and data = data])
  case (plain t es r)
  then have "outcome succeeded E s (onControlMessage E J A s data)"
    by (cases r) (auto simp: onControlMessage_def case_prod_beta intro: outcome_quiet outcome_fail)
  then show ?thesis using outcome_good [OF _ inv] outcome_calm by blast
next
  case (authenticated t es)
  have "\<not> torn t" using authenticated(1,2) by (simp add: torn_def quiet_def)
  then have t: "\<not> se_closeOnce t" "\<not> IsAuthenticated t" "\<not> se_authReadyClosed t"
    using quiet_inv [OF authenticated(2) inv] authenticated(1,2) unfolding session_inv_def quiet_def by auto
  let ?u = "completeAuthResult (t\<lparr>se_stateMachine := (se_stateMachine t)\<lparr>sm_state := StateAuthenticated\<rparr>\<rparr>) None True"
  have "session_inv succeeded ?u"
    using t authenticated(3) unfolding session_inv_def by (simp add: IsAuthenticated_def torn_def)
  moreover have "evolves s es ?u"
    using t authenticated(2) harmless_noclose [OF authenticated(4)] unfolding evolves_def quiet_def by simp
  ultimately have "good succeeded s (?u, es)" "calm (?u, es)"
    using harmless_nopayload [OF authenticated(4)] by (auto simp: good_def calm_def)
  then show ?thesis using authenticated(5) by (simp add: onControlMessage_def)
qed

lemma onControlOpen_good:
  assumes inv: "session_inv succeeded s"
  shows "good succeeded s (onControlOpen E J A s) \<and> calm (onControlOpen E J A s)"
proof -
  obtain u es where m: "maybeSendAuth E J A (s\<lparr>se_controlOpen := True\<rparr>) = (u, es)" by fastforce
  have "outcome succeeded E (s\<lparr>se_controlOpen := True\<rparr>) (u, es)"
    using maybeSendAuth_outcome [of E "s\<lparr>se_controlOpen := True\<rparr>" J] by (simp only: m)
  from outcome_weaken [OF quiet_updates(2) _ this, of "[SessionLog ''control_channel_open'' [(''session_id'', se_sessionID s)]]"]
  have "outcome succeeded E s (onControlOpen E J A s)"
    by (simp add: onControlOpen_def m harmless_def payloadEffect_def)
  then show ?thesis using outcome_good [OF _ inv] outcome_calm by blast
qed

text \<open>Every event keeps the invariant; payload effects need an authenticated session and leave it streaming.\<close>

lemma sessionStep_good:
  assumes inv: "session_inv succeeded s"
  shows "good succeeded s (sessionStep U parse J A E s ev)"
    and "payloadEffect e \<Longrightarrow> e \<in> set (snd (sessionStep U parse J A E s ev)) \<Longrightarrow>
           sm_state (se_stateMachine (fst (sessionStep U parse J A E s ev))) = StateStreaming"
proof -
  have c: "onICECandidate s x = [] \<or> (\<exists>sg. onICECandidate s x = [OnSignal sg])" for x
    by (auto simp: onICECandidate_def split: option.splits)
  have ice: "list_all harmless (onICECandidate s x)" for x
    using c [of x] by (auto simp: harmless_def payloadEffect_def)
  note q = quiet_updates(6) [of succeeded s]
  show "good succeeded s (sessionStep U parse J A E s ev)"
    using offers_good [OF inv] AddRemoteCandidate_good [OF inv] OpenStreamChannel_good(1) [OF inv]
      outcome_good [OF outcome_fail0 [OF q] inv] Close_good [OF inv] onDataChannel_good(1) [OF inv]
      outcome_good [OF onConnectionStateChange_outcome inv] onControlOpen_good [OF inv] onControlMessage_good [OF inv]
      outcome_good [OF onControlClose_outcome inv] good_refl [OF inv ice]
    by (cases ev) (simp_all add: Fail_def)
  assume e: "payloadEffect e" "e \<in> set (snd (sessionStep U parse J A E s ev))"
  have nf: "\<not> calm (sessionStep U parse J A E s ev)" using e by (auto simp: calm_def)
  have add: "calm (dropResult (AddRemoteCandidate E s x))" for x
    by (auto simp: AddRemoteCandidate_def dropResult_def calm_def payloadEffect_def split: option.splits)
  have cl: "calm (Close E s)"
    by (auto simp: Close_def calm_def payloadEffect_def transitionLog_def Let_def split: prod.splits option.splits if_splits)
  show "sm_state (se_stateMachine (fst (sessionStep U parse J A E s ev))) = StateStreaming"
    using e nf add cl offers_good [OF inv] OpenStreamChannel_good(2) [OF inv] onDataChannel_good(2) [OF inv]
      outcome_calm [OF outcome_fail0 [OF q]] outcome_calm [OF onConnectionStateChange_outcome [of succeeded E s]]
      onControlOpen_good [OF inv] onControlMessage_good [OF inv] outcome_calm [OF onControlClose_outcome [of succeeded E s]]
      harmless_nopayload [OF ice]
    by (cases ev) (simp_all add: Fail_def)
qed

end

context auth_contract
begin

lemma sessionRun_good:
  assumes "session_inv succeeded s" "sessionRun U parse J A s evs = (s', es)"
  shows "session_inv succeeded s' \<and> evolves s es s'"
  using assms
proof (induction evs arbitrary: s es)
  case (Cons ev evs)
  obtain E e where ev: "ev = (E, e)" by (cases ev)
  obtain s1 es1 where s1: "sessionStep U parse J A E s e = (s1, es1)" by fastforce
  obtain es2 where s2: "sessionRun U parse J A s1 evs = (s', es2)" "es = es1 @ es2"
    using Cons.prems(2) by (auto simp: ev s1 split: prod.splits)
  have g: "session_inv succeeded s1" "evolves s es1 s1"
    using sessionStep_good(1) [OF Cons.prems(1), of U parse J E e] by (simp_all add: good_def s1)
  from Cons.IH [OF g(1) s2(1)] evolves_trans [OF g(2)] show ?case by (simp add: s2(2))
qed (auto simp: evolves_def)

lemma torn_no_payload:
  assumes "session_inv succeeded s" "se_closeOnce s" "sessionRun U parse J A s evs = (s', es)" "payloadEffect e"
  shows "e \<notin> set es"
  using assms
proof (induction evs arbitrary: s es)
  case (Cons ev evs)
  obtain E x where ev: "ev = (E, x)" by (cases ev)
  obtain s1 es1 where s1: "sessionStep U parse J A E s x = (s1, es1)" by fastforce
  obtain es2 where s2: "sessionRun U parse J A s1 evs = (s', es2)" "es = es1 @ es2"
    using Cons.prems(3) by (auto simp: ev s1 split: prod.splits)
  have g: "good succeeded s (s1, es1)"
    using sessionStep_good(1) [OF Cons.prems(1), of U parse J E x] by (simp add: s1)
  have "torn s" using Cons.prems(1,2) by (simp add: session_inv_def)
  then have "e \<notin> set es1" using g Cons.prems(4) by (auto simp: good_def)
  moreover have "session_inv succeeded s1" "se_closeOnce s1"
    using g Cons.prems(2) by (auto simp: good_def evolves_def)
  ultimately show ?case using Cons.IH [OF _ _ s2(1) Cons.prems(4)] by (simp add: s2(2))
qed simp

lemma payload_authenticated:
  assumes "session_inv succeeded s" "sessionRun U parse J A s evs = (s', es)" "payloadEffect e" "e \<in> set es"
  shows "IsAuthenticated s'"
  using assms
proof (induction evs arbitrary: s es)
  case (Cons ev evs)
  obtain E x where ev: "ev = (E, x)" by (cases ev)
  obtain s1 es1 where s1: "sessionStep U parse J A E s x = (s1, es1)" by fastforce
  obtain es2 where s2: "sessionRun U parse J A s1 evs = (s', es2)" "es = es1 @ es2"
    using Cons.prems(2) by (auto simp: ev s1 split: prod.splits)
  have g: "good succeeded s (s1, es1)"
    using sessionStep_good(1) [OF Cons.prems(1), of U parse J E x] by (simp add: s1)
  then have inv1: "session_inv succeeded s1" by (simp add: good_def)
  show ?case
  proof (cases "e \<in> set es1")
    case True
    then have "IsAuthenticated s" using g Cons.prems(3) by (auto simp: good_def)
    moreover have "evolves s es s'" using sessionRun_good [OF Cons.prems(1,2)] by simp
    ultimately show ?thesis by (simp add: evolves_def IsAuthenticated_def)
  next
    case False
    with Cons.IH [OF inv1 s2(1) Cons.prems(3)] Cons.prems(4) show ?thesis by (simp add: s2(2))
  qed
qed simp

end

section \<open>The interactive authenticator\<close>

interpretation ia: auth_contract "interactiveIface C U" "\<lambda>a. au_state a = AuthStateSucceeded"
  for C :: "('s, 'e, 'r) crypto" and U :: unicode
proof
  show "au_state a' = AuthStateSucceeded"
    if "ai_Step (interactiveIface C U) a m = (a', out, h, True, None)" for a m a' out h
    using that Step_done [of C a m a' out h True None] by (simp add: interactiveIface_def)
  show "au_state (fst (ai_Bind (interactiveIface C U) a material)) = AuthStateSucceeded"
    if "au_state a = AuthStateSucceeded" for a material
    using that by (simp add: interactiveIface_def Bind_def)
  show "au_state (fst (ai_Start (interactiveIface C U) a)) = AuthStateSucceeded"
    if "au_state a = AuthStateSucceeded" for a
    using that by (simp add: interactiveIface_def Start_def)
  show "au_state (fst (ai_Step (interactiveIface C U) a m)) = AuthStateSucceeded"
    if "au_state a = AuthStateSucceeded" for a m
    using that by (simp add: interactiveIface_def Step_def)
qed

lemma NewSession_inv: "NewSession E newPC cfg = (Inr (s, es), fs) \<Longrightarrow> session_inv succ s"
  by (auto simp: NewSession_def attachControlChannel_def Let_def session_inv_def IsAuthenticated_def torn_def
      split: option.splits if_splits sum.splits)

lemma NewSession_fresh: "NewSession E newPC cfg = (Inr (s, es), fs) \<Longrightarrow> \<not> se_closeOnce s \<and> count_list es ClosePC = 0"
  by (auto simp: NewSession_def attachControlChannel_def Let_def split: option.splits if_splits sum.splits)

text \<open>
  (C15) No payload before authentication: in any run of a session with the interactive
  authenticator, whatever the broker, the peer and the WebRTC stack do, an event hands out or
  opens a payload channel only when the authenticator has succeeded, the result is published as a
  success, and the session is then streaming.
\<close>

theorem payload_only_after_authentication:
  assumes "NewSession E0 newPC cfg = (Inr (s0, es0), fs0)"
    and "sessionRun U parse J (interactiveIface C U') s0 evs = (s, es)"
    and "sessionStep U parse J (interactiveIface C U') E s ev = (s', fs)"
    and "OnStream dc \<in> set fs \<or> OpenedStream dc label \<in> set fs"
  shows "au_state (se_authenticator s) = AuthStateSucceeded \<and> IsAuthenticated s
       \<and> WaitAuthenticated s = Some None \<and> sm_state (se_stateMachine s') = StateStreaming"
proof -
  obtain e where e: "e \<in> set fs" "payloadEffect e" using assms(4) by (auto simp: payloadEffect_def)
  have inv: "session_inv (\<lambda>a. au_state a = AuthStateSucceeded) s"
    using ia.sessionRun_good [OF NewSession_inv [OF assms(1)] assms(2)] by simp
  have "IsAuthenticated s"
    using ia.sessionStep_good(1) [OF inv, of U parse J C U' E ev] e by (auto simp: good_def assms(3))
  moreover have "sm_state (se_stateMachine s') = StateStreaming"
    using ia.sessionStep_good(2) [OF inv e(2), of U parse J C U' E ev] e(1) by (simp add: assms(3))
  ultimately show ?thesis
    using inv by (simp add: session_inv_def WaitAuthenticated_def IsAuthenticated_def)
qed

lemma toySession_new: "NewSession toyEnv (\<lambda>_. None) toyConfig = (Inr (toySession, []), [])"
  by (simp add: NewSession_def toyConfig_def toySession_def)

lemmas toy_session_defs = toyEnv_def toyCodec_def interactiveIface_def dropResult_def

lemma toy_fingerprint [simp]: "ExtractTransportFingerprint idUnicode toyParse ''FP-A'' = Inr ''FP-A''"
  "ExtractTransportFingerprint idUnicode toyParse ''FP-B'' = Inr ''FP-B''"
  by code_simp+

text \<open>The exposing peer of an honest exchange reaches the authenticated state.\<close>

lemma toy_session_authenticates:
  "\<exists>J s es. sessionRun idUnicode toyParse J (interactiveIface toyCrypto idUnicode) toySession
       (map (Pair toyEnv) [CallHandleOffer ''FP-A'', EvDataChannel 3 controlChannelLabel, EvControlOpen,
          EvControlMessage [1], EvControlMessage [2]]) = (s, es)
     \<and> sm_state (se_stateMachine s) = StateAuthenticated \<and> IsAuthenticated s \<and> se_hasOnStream s"
proof -
  obtain hello r1 accept confirm r2 where r:
      "Step toyCrypto toyResponder hello = (r1, accept, True, False, None)"
      "Step toyCrypto r1 confirm = (r2, emptyMessage, False, True, None)"
    using toy_run by blast
  let ?J = "toyCodec hello confirm" and ?A = "interactiveIface toyCrypto idUnicode"
  let ?s1 = "toySession\<lparr>se_remoteFingerprint := ''FP-A'', se_remoteDescription := True,
      se_localFingerprint := ''FP-B'', se_stateMachine := \<lparr>sm_state = StateAuthPending\<rparr>\<rparr>"
  let ?s2 = "\<lambda>a. ?s1\<lparr>se_control := Some 3, se_controlOpen := True, se_authBound := True, se_authenticator := a\<rparr>"
  have b: "Bind toyCrypto idUnicode (toyAuth SchemeCPACEV2) \<lparr>bm_SessionID = ''s1'', bm_Mode = ''expose'',
      bm_LocalFingerprint = ''FP-B'', bm_RemoteFingerprint = ''FP-A''\<rparr> = (toyResponder, None)"
    using toy_Bind(2) by (simp add: toyMaterial_def)
  have 1: "sessionStep idUnicode toyParse ?J ?A toyEnv toySession (CallHandleOffer ''FP-A'') = (?s1, [])"
    by (simp add: HandleOffer_def setRemoteDescription_def setLocalDescription_def maybeEnterAuthPending_def
        maybeSendAuth_def toy_session_defs toySession_def Transition_def)
  have 2: "sessionStep idUnicode toyParse ?J ?A toyEnv ?s1 (EvDataChannel 3 controlChannelLabel)
      = (?s1\<lparr>se_control := Some 3\<rparr>, [])"
    by (simp add: onDataChannel_def attachControlChannel_def toySession_def)
  obtain e3 where 3: "sessionStep idUnicode toyParse ?J ?A toyEnv (?s1\<lparr>se_control := Some 3\<rparr>) EvControlOpen = (?s2 toyResponder, e3)"
    by (simp add: onControlOpen_def maybeSendAuth_def bindAuthenticator_def materialLocked_def b
        toy_session_defs toySession_def)
  obtain e4 where 4: "sessionStep idUnicode toyParse ?J ?A toyEnv (?s2 toyResponder) (EvControlMessage [1])
      = (?s2 r1, e4)"
    by (simp add: onControlMessage_def handleControlMessage_def bindAuthenticator_def sendAuthMessage_def r
        toy_session_defs toySession_def)
  obtain e5 s5 where 5: "sessionStep idUnicode toyParse ?J ?A toyEnv (?s2 r1) (EvControlMessage [2]) = (s5, e5)"
      "sm_state (se_stateMachine s5) = StateAuthenticated" "IsAuthenticated s5" "se_hasOnStream s5"
    by (simp add: onControlMessage_def handleControlMessage_def bindAuthenticator_def r completeAuthResult_def
        IsAuthenticated_def toy_session_defs toySession_def Transition_def)
  show ?thesis
    by (intro exI [of _ ?J] exI [of _ s5]) (simp add: 1 2 3 4 5 del: sessionStep.simps)
qed

theorem payload_only_after_authentication_witness:
  "\<exists>J s es s'. sessionRun idUnicode toyParse J (interactiveIface toyCrypto idUnicode) toySession
       (map (Pair toyEnv) [CallHandleOffer ''FP-A'', EvDataChannel 3 controlChannelLabel, EvControlOpen,
          EvControlMessage [1], EvControlMessage [2]]) = (s, es)
     \<and> sessionStep idUnicode toyParse J (interactiveIface toyCrypto idUnicode) toyEnv s (EvDataChannel 2 ''stream'')
         = (s', [OnStream 2])
     \<and> au_state (se_authenticator s) = AuthStateSucceeded"
proof -
  obtain J s es where r: "sessionRun idUnicode toyParse J (interactiveIface toyCrypto idUnicode) toySession
       (map (Pair toyEnv) [CallHandleOffer ''FP-A'', EvDataChannel 3 controlChannelLabel, EvControlOpen,
          EvControlMessage [1], EvControlMessage [2]]) = (s, es)"
      "sm_state (se_stateMachine s) = StateAuthenticated" "IsAuthenticated s" "se_hasOnStream s"
    using toy_session_authenticates by blast
  obtain s' where st: "sessionStep idUnicode toyParse J (interactiveIface toyCrypto idUnicode) toyEnv s
      (EvDataChannel 2 ''stream'') = (s', [OnStream 2])"
    using r(2-4) by (simp add: onDataChannel_def controlChannelLabel_def prepareInboundPayloadChannel_def Transition_def)
  have "au_state (se_authenticator s) = AuthStateSucceeded"
    using payload_only_after_authentication [OF toySession_new r(1) st] by simp
  with r(1) st show ?thesis by blast
qed

text \<open>
  (C17) Teardown and the authentication result are final: over any run the peer connection is
  closed at most once, the result that \<open>WaitAuthenticated\<close> reports never changes once it is
  available, and after teardown no payload channel is handed out or opened.
\<close>

theorem session_result_final:
  assumes "NewSession E0 newPC cfg = (Inr (s0, es0), fs0)"
    and "sessionRun U parse J (interactiveIface C U') s0 xs = (s1, es1)"
    and "sessionRun U parse J (interactiveIface C U') s1 ys = (s2, es2)"
  shows "count_list (es1 @ es2) ClosePC \<le> 1
       \<and> (WaitAuthenticated s1 \<noteq> None \<longrightarrow> WaitAuthenticated s2 = WaitAuthenticated s1)
       \<and> (se_closeOnce s1 \<longrightarrow> (\<forall>dc label. OnStream dc \<notin> set es2 \<and> OpenedStream dc label \<notin> set es2))"
proof -
  have r1: "session_inv (\<lambda>a. au_state a = AuthStateSucceeded) s1 \<and> evolves s0 es1 s1"
    using ia.sessionRun_good [OF NewSession_inv [OF assms(1)] assms(2)] .
  have r2: "evolves s1 es2 s2" using ia.sessionRun_good [OF _ assms(3)] r1 by blast
  have "evolves s0 (es1 @ es2) s2" using evolves_trans r1 r2 by blast
  moreover have "payloadEffect (OnStream dc)" "payloadEffect (OpenedStream dc label)" for dc label
    by (simp_all add: payloadEffect_def)
  ultimately show ?thesis
    using r1 r2 ia.torn_no_payload [OF _ _ assms(3)]
    by (auto simp: evolves_def WaitAuthenticated_def split: if_splits)
qed

theorem session_result_final_witness:
  "\<exists>s1 es1 s2 es2.
     sessionRun idUnicode toyParse (toyCodec emptyMessage emptyMessage) (interactiveIface toyCrypto idUnicode)
       toySession [(toyEnv, CallClose)] = (s1, es1)
   \<and> sessionRun idUnicode toyParse (toyCodec emptyMessage emptyMessage) (interactiveIface toyCrypto idUnicode)
       s1 [(toyEnv, EvDataChannel 2 ''stream''), (toyEnv, CallFail (Some ErrPeerConnectionFailed))] = (s2, es2)
   \<and> count_list (es1 @ es2) ClosePC = 1 \<and> WaitAuthenticated s2 = Some (Some ErrSessionClosed)
   \<and> OnStream 2 \<notin> set es2"
proof -
  obtain s1 where 1: "sessionRun idUnicode toyParse (toyCodec emptyMessage emptyMessage)
      (interactiveIface toyCrypto idUnicode) toySession [(toyEnv, CallClose)] = (s1, [ClosePC])"
      "WaitAuthenticated s1 = Some (Some ErrSessionClosed)" "se_closeOnce s1"
    by (simp add: Close_def Transition_def completeAuthResult_def toySession_def toyEnv_def WaitAuthenticated_def)
  obtain s2 es2 where 2: "sessionRun idUnicode toyParse (toyCodec emptyMessage emptyMessage)
      (interactiveIface toyCrypto idUnicode) s1
      [(toyEnv, EvDataChannel 2 ''stream''), (toyEnv, CallFail (Some ErrPeerConnectionFailed))] = (s2, es2)" by fastforce
  from session_result_final [OF toySession_new 1(1) 2] 1(2,3)
  have "count_list ([ClosePC] @ es2) ClosePC \<le> 1" "WaitAuthenticated s2 = WaitAuthenticated s1" "OnStream 2 \<notin> set es2"
    by simp_all
  then show ?thesis using 1 2 by (intro exI conjI) (assumption | simp)+
qed

section \<open>Candidates\<close>

lemma addedCandidates_simps [simp]:
  "addedCandidates [] = []" "addedCandidates (AddCandidate c # es) = c # addedCandidates es"
  "addedCandidates (es @ fs) = addedCandidates es @ addedCandidates fs"
  "(\<And>c. e \<noteq> AddCandidate c) \<Longrightarrow> addedCandidates (e # es) = addedCandidates es"
  by (simp_all add: addedCandidates_def split: seffect.splits)

lemma candFrame_fail: "candFrame s (t, es) \<Longrightarrow> candFrame s (fst (session_fail E t err), es @ snd (session_fail E t err))"
  by (simp add: candFrame_def session_fail_eq completeAuthResult_def)

lemma candFrame_fail0: "candFrame s (t, []) \<Longrightarrow> candFrame s (session_fail E t err)"
  using candFrame_fail [of s t "[]" E err] by simp

lemma candFrame_trans: "candFrame s (t, es) \<Longrightarrow> candFrame t (u, fs) \<Longrightarrow> candFrame s (u, es @ fs)"
  by (simp add: candFrame_def)

lemma candFrame_bind: "bindAuthenticator A s = (t, r) \<Longrightarrow> candFrame s (t, [])"
  by (auto simp: bindAuthenticator_def candFrame_def split: option.splits if_splits sum.splits prod.splits)

lemma candFrame_send: "addedCandidates (fst (sendAuthMessage E J c m)) = []"
  by (simp add: sendAuthMessage_def split: sum.splits option.splits)

lemma candFrame_maybeSendAuth: "candFrame s (maybeSendAuth E J A s)"
proof -
  obtain s1 r where b: "bindAuthenticator A s = (s1, r)" by fastforce
  note f1 = candFrame_bind [OF b]
  obtain a' h where st: "ai_Start A (se_authenticator s1) = (a', h)" by fastforce
  have f3: "candFrame s (s1\<lparr>se_authStarted := True, se_authenticator := a'\<rparr>, es)" if "addedCandidates es = []" for es
    using f1 that by (simp add: candFrame_def)
  show ?thesis
    using f1 f3 candFrame_fail [OF f3] candFrame_fail0 [OF f3] candFrame_fail0 [OF f1]
    by (auto simp: maybeSendAuth_def b st Let_def candFrame_def [of s "(s, [])"] case_prod_beta candFrame_send
        split: sum.splits option.splits prod.splits)
qed

lemma candFrame_handleControlMessage:
  "handleControlMessage E J A s d = (t, es, r) \<Longrightarrow> candFrame s (t, es)"
proof -
  assume h: "handleControlMessage E J A s d = (t, es, r)"
  obtain s1 b where b: "bindAuthenticator A s = (s1, b)" by fastforce
  have sn: "addedCandidates es = []" if "sendAuthMessage E J c m = (es, r')" for c m es r'
    using candFrame_send [of E J c m] that by simp
  show ?thesis
    using candFrame_bind [OF b] h
    by (auto simp: handleControlMessage_def b Let_def candFrame_def completeAuthResult_def dest: sn
        split: sum.splits option.splits prod.splits if_splits)
qed

lemma candFrame_maybeEnterAuthPending: "candFrame s (maybeEnterAuthPending E J A s)"
proof -
  have f: "candFrame s (s\<lparr>se_stateMachine := m\<rparr>, [])" for m by (simp add: candFrame_def)
  have "candFrame s (maybeSendAuth E J A (s\<lparr>se_stateMachine := m\<rparr>))" for m
    using candFrame_maybeSendAuth [of "s\<lparr>se_stateMachine := m\<rparr>" E J A] by (simp add: candFrame_def)
  with candFrame_fail0 [OF f] candFrame_maybeSendAuth [of s E J A] show ?thesis
    by (auto simp: maybeEnterAuthPending_def candFrame_def [of s "(s, [])"] split: prod.splits option.splits)
qed

lemma candFrame_setLocalDescription:
  "setLocalDescription U parse E J A s = (t, es, r) \<Longrightarrow> candFrame s (t, es)"
  using candFrame_maybeEnterAuthPending [of "s\<lparr>se_localFingerprint := fp\<rparr>" E J A for fp]
  by (auto simp: setLocalDescription_def candFrame_def split: option.splits sum.splits prod.splits) (metis fst_conv snd_conv)+

lemma flush_all: "(\<And>c. pe_addCandidateErr E c = None) \<Longrightarrow> flushCandidates E cs = (map AddCandidate cs, None)"
  by (induction cs) simp_all

lemma addedCandidates_map [simp]: "addedCandidates (map AddCandidate cs) = cs"
  by (induction cs) simp_all

lemma candFrame_onDataChannel: "candFrame s (onDataChannel E s dc label)"
proof -
  have f: "candFrame s (t, [CloseChannel dc])" "candFrame s (t, [])"
    if "se_pendingCandidates t = se_pendingCandidates s" "se_remoteDescription t = se_remoteDescription s" for t
    using that by (simp_all add: candFrame_def)
  obtain s1 r where pr: "prepareInboundPayloadChannel s = (s1, r)" by fastforce
  then have p: "se_pendingCandidates s1 = se_pendingCandidates s \<and> se_remoteDescription s1 = se_remoteDescription s"
    by (auto simp: prepareInboundPayloadChannel_def split: if_splits prod.splits option.splits)
  show ?thesis
    using candFrame_fail [OF f(1) [of s1], of E] candFrame_fail [OF f(1) [of s], of E] p
    by (auto simp: onDataChannel_def pr attachControlChannel_def case_prod_beta candFrame_def [of _ "(_, [OnStream _])"]
        candFrame_def [of _ "(_, [])"] split: option.splits)
qed

lemma candFrame_others:
  "candFrame s (onConnectionStateChange E s st)" "candFrame s (onControlClose E s)" "candFrame s (Close E s)"
  "candFrame s (dropResult (OpenStreamChannel E s label))" "candFrame s (s, onICECandidate s x)"
proof -
  have f: "candFrame s (s, es)" if "addedCandidates es = []" for es using that by (simp add: candFrame_def)
  show "candFrame s (onConnectionStateChange E s st)"
    using f candFrame_fail [OF f, of "[SessionLog a b]" E for a b]
    by (auto simp: onConnectionStateChange_def Let_def case_prod_beta split: pc_state.splits)
  show "candFrame s (onControlClose E s)"
    using f candFrame_fail0 [OF f] by (auto simp: onControlClose_def)
  show "candFrame s (Close E s)"
    by (auto simp: Close_def candFrame_def completeAuthResult_def transitionLog_def Let_def
        split: prod.splits option.splits if_splits)
  show "candFrame s (dropResult (OpenStreamChannel E s label))"
    by (auto simp: OpenStreamChannel_def candFrame_def dropResult_def split: prod.splits option.splits sum.splits)
  show "candFrame s (s, onICECandidate s x)"
    by (auto simp: onICECandidate_def candFrame_def split: option.splits)
qed

lemma candFrame_onControlMessage: "candFrame s (onControlMessage E J A s d)"
proof -
  obtain t es r where h: "handleControlMessage E J A s d = (t, es, r)" using prod_cases3 by blast
  from candFrame_handleControlMessage [OF h] candFrame_fail [OF candFrame_handleControlMessage [OF h]] show ?thesis
    by (auto simp: onControlMessage_def h case_prod_beta split: option.splits)
qed

lemma candFrame_onControlOpen: "candFrame s (onControlOpen E J A s)"
  using candFrame_maybeSendAuth [of "s\<lparr>se_controlOpen := True\<rparr>" E J A]
  by (auto simp: onControlOpen_def candFrame_def case_prod_beta)

text \<open>The candidates of an event, and what it makes of them: handed on at once, or queued behind those pending.\<close>

lemma candOk_frame: "candFrame s r \<Longrightarrow> candInv s \<Longrightarrow> candOk s [] r"
  by (simp add: candFrame_def candOk_def candInv_def)

lemma candOk_trans: "candOk s cs (t, es) \<Longrightarrow> candOk t ds (u, fs) \<Longrightarrow> candOk s (cs @ ds) (u, es @ fs)"
  by (simp add: candOk_def)

lemma setRemoteDescription_candidates:
  assumes "candInv s" "\<And>c. pe_addCandidateErr E c = None" "setRemoteDescription U parse E J A s sdp = (t, es, r)"
  shows "candOk s [] (t, es)"
proof -
  let ?s1 = "\<lambda>fp. s\<lparr>se_remoteFingerprint := fp, se_remoteDescription := True, se_pendingCandidates := []\<rparr>"
  show ?thesis
  proof (cases "\<exists>fp. pe_setRemoteErr E = None \<and> ExtractTransportFingerprint U parse sdp = Inr fp")
    case True
    then obtain fp where fp: "pe_setRemoteErr E = None" "ExtractTransportFingerprint U parse sdp = Inr fp" by blast
    obtain u fs where u: "maybeEnterAuthPending E J A (?s1 fp) = (u, fs)" by fastforce
    from assms(3) have "t = u" "es = map AddCandidate (se_pendingCandidates s) @ fs"
      by (simp_all add: setRemoteDescription_def fp flush_all [OF assms(2)] u)
    with candFrame_maybeEnterAuthPending [of "?s1 fp" E J A] show ?thesis
      by (simp add: u candFrame_def candOk_def candInv_def)
  next
    case False
    with assms(1,3) show ?thesis
      by (auto simp: setRemoteDescription_def candOk_def split: option.splits sum.splits)
  qed
qed

lemma HandleOffer_candidates:
  assumes "candInv s" "\<And>c. pe_addCandidateErr E c = None"
  shows "candOk s [] (dropResult (HandleOffer U parse E J A s offer))"
proof -
  obtain t es r where rem: "setRemoteDescription U parse E J A s offer = (t, es, r)" using prod_cases3 by blast
  obtain u fs r' where loc: "setLocalDescription U parse E J A t = (u, fs, r')" using prod_cases3 by blast
  note c1 = setRemoteDescription_candidates [OF assms rem]
  then have "candInv t" by (simp add: candOk_def)
  with candOk_frame [OF candFrame_setLocalDescription [OF loc]] candOk_trans [OF c1, of "[]" u fs] c1
  show ?thesis by (auto simp: HandleOffer_def rem loc dropResult_def split: option.splits sum.splits)
qed

lemma sessionStep_candidates:
  assumes "candInv s" "\<And>c. pe_addCandidateErr E c = None"
  shows "candOk s (case ev of CallAddCandidate c \<Rightarrow> [c] | _ \<Rightarrow> []) (sessionStep U parse J A E s ev)"
proof -
  have off: "candFrame s (dropResult (CreateOffer U parse E J A s))"
    by (auto simp: CreateOffer_def dropResult_def candFrame_def [of s "(s, [])"]
        dest: candFrame_setLocalDescription split: sum.splits prod.splits option.splits)
  have ans: "candOk s [] (dropResult (HandleAnswer U parse E J A s a))" for a
    using setRemoteDescription_candidates [OF assms] by (auto simp: HandleAnswer_def dropResult_def prod_eq_iff)
  have add: "candOk s [c] (dropResult (AddRemoteCandidate E s c))" for c
    using assms by (auto simp: AddRemoteCandidate_def dropResult_def candOk_def candInv_def)
  have fail: "candFrame s (Fail E s e)" for e unfolding Fail_def by (rule candFrame_fail0) (simp add: candFrame_def)
  note fr = candOk_frame [OF _ assms(1)]
  show ?thesis
    using ans add HandleOffer_candidates [OF assms] fr [OF off] fr [OF fail] candFrame_others [THEN fr]
      fr [OF candFrame_onDataChannel] fr [OF candFrame_onControlMessage] fr [OF candFrame_onControlOpen]
    by (cases ev) simp_all
qed

lemma sessionRun_candidates:
  assumes "candInv s" "\<forall>(E, ev) \<in> set evs. \<forall>c. pe_addCandidateErr E c = None"
  shows "candOk s (concat (map (\<lambda>(E, ev). case ev of CallAddCandidate c \<Rightarrow> [c] | _ \<Rightarrow> []) evs)) (sessionRun U parse J A s evs)"
  using assms
proof (induction evs arbitrary: s)
  case (Cons x evs)
  obtain E ev where x: "x = (E, ev)" by (cases x)
  obtain t es where st: "sessionStep U parse J A E s ev = (t, es)" by fastforce
  have c: "candOk s (case ev of CallAddCandidate c \<Rightarrow> [c] | _ \<Rightarrow> []) (t, es)"
    using sessionStep_candidates [OF Cons.prems(1), of E ev U parse J A] Cons.prems(2) by (simp add: x st)
  then have "candInv t" by (simp add: candOk_def)
  from Cons.IH [OF this] Cons.prems(2) candOk_trans [OF c] show ?case
    by (cases "sessionRun U parse J A t evs") (simp add: x st)
qed (simp add: candOk_def)

text \<open>
  (C19) No candidate is lost, duplicated or reordered: in any run of a session in which the stack
  accepts candidates, those handed to the peer connection followed by those still queued are
  exactly those received, in order; and none is queued once a remote description is set.
\<close>

theorem candidates_exactly_once_in_order:
  assumes "NewSession E0 newPC cfg = (Inr (s0, es0), fs0)"
    and "\<forall>(E, ev) \<in> set evs. \<forall>c. pe_addCandidateErr E c = None"
    and "sessionRun U parse J A s0 evs = (s, es)"
  shows "addedCandidates es @ se_pendingCandidates s
         = concat (map (\<lambda>(E, ev). case ev of CallAddCandidate c \<Rightarrow> [c] | _ \<Rightarrow> []) evs)
       \<and> (se_remoteDescription s \<longrightarrow> se_pendingCandidates s = [])"
proof -
  have n: "se_pendingCandidates s0 = []"
    using assms(1) by (auto simp: NewSession_def attachControlChannel_def Let_def split: option.splits if_splits sum.splits)
  then have "candInv s0" by (simp add: candInv_def)
  from sessionRun_candidates [OF this assms(2), of U parse J A] n show ?thesis
    by (simp add: assms(3) candOk_def candInv_def)
qed

theorem candidates_exactly_once_in_order_witness:
  "\<exists>s es. sessionRun idUnicode toyParse (toyCodec emptyMessage emptyMessage) (interactiveIface toyCrypto idUnicode)
       toySession (map (Pair toyEnv) [CallAddCandidate (toyCandidate ''a''), CallAddCandidate (toyCandidate ''b''),
         CallHandleAnswer ''FP-A'', CallAddCandidate (toyCandidate ''c'')]) = (s, es)
     \<and> addedCandidates es = [toyCandidate ''a'', toyCandidate ''b'', toyCandidate ''c'']"
proof -
  let ?evs = "map (Pair toyEnv) [CallAddCandidate (toyCandidate ''a''), CallAddCandidate (toyCandidate ''b''),
         CallHandleAnswer ''FP-A'', CallAddCandidate (toyCandidate ''c'')]"
  let ?A = "interactiveIface toyCrypto idUnicode" and ?J = "toyCodec emptyMessage emptyMessage"
  obtain s es where r: "sessionRun idUnicode toyParse ?J ?A toySession ?evs = (s, es)" by fastforce
  have "se_remoteDescription s"
    using r by (auto simp: AddRemoteCandidate_def HandleAnswer_def setRemoteDescription_def dropResult_def toySession_def
        toyEnv_def maybeEnterAuthPending_def)
  with candidates_exactly_once_in_order [OF toySession_new _ r]
  have "addedCandidates es = [toyCandidate ''a'', toyCandidate ''b'', toyCandidate ''c'']"
    by (auto simp: toyEnv_def)
  with r show ?thesis by blast
qed

end
