(* ===== verification/Tunnel.thy ===== *)
theory Tunnel
  imports Prelude
begin

text \<open>
  The bridge of \<^verbatim>\<open>internal/tunnel/bridge.go\<close> between one TCP connection and one data channel: three
  callbacks of the data channel, the callback that reports a drained send queue, and the reader
  goroutine with its backpressure loop.  Every interleaving of the callbacks with the reader is a
  sequence of labels; a label carries what the connection or the data channel (pion) returns in
  that step.  The body of \<open>closeOnce.Do\<close> is one step: other callers of \<open>Do\<close> wait until it is over.
\<close>

section \<open>Definitions\<close>

definition maxChunkSize :: nat where
  "maxChunkSize = 16 * 1024"

definition bufferedAmountHighThreshold :: "64 word" where
  "bufferedAmountHighThreshold = 1 * 1024 * 1024"

definition bufferedAmountLowThreshold :: "64 word" where
  "bufferedAmountLowThreshold = 256 * 1024"

definition io_EOF :: gerror where
  "io_EOF = Sentinel ''io.EOF''"

datatype beffect =
    ConnWrite bytes
  | DCSend bytes
  | ConnClose
  | DCClose
  | DoneClose
  | BridgeLog string string gerror

text \<open>Where the reader goroutine stands; the chunk and the error are its locals \<open>buf[:n]\<close> and \<open>err\<close>.\<close>

datatype reader =
    AtRead
  | AtSend bytes "gerror option"
  | AtCheck "gerror option"
  | AtSelect "gerror option"
  | AtErr "gerror option"
  | Returned

record bridge =
  bg_label :: string
  bg_closeOnce :: bool
  bg_drain :: bool
  bg_done :: bool
  bg_reader :: reader

definition Bridge :: "string \<Rightarrow> bridge" where
  "Bridge label = \<lparr>bg_label = label, bg_closeOnce = False, bg_drain = False, bg_done = False, bg_reader = AtRead\<rparr>"

definition closeAll :: "bridge \<Rightarrow> string \<Rightarrow> gerror option \<Rightarrow> bridge \<times> beffect list" where
  "closeAll b reason err =
     (if bg_closeOnce b then (b, [])
      else (b\<lparr>bg_closeOnce := True, bg_done := True\<rparr>,
            (case err of
               None \<Rightarrow> []
             | Some e \<Rightarrow> if e \<noteq> io_EOF then [BridgeLog (bg_label b) reason e] else [])
            @ [ConnClose, DCClose, DoneClose]))"

text \<open>The callbacks of the data channel.\<close>

definition bridge_onMessage :: "bridge \<Rightarrow> bytes \<Rightarrow> gerror option \<Rightarrow> bridge \<times> beffect list" where
  "bridge_onMessage b data writeErr =
     (if length data = 0 then (b, [])
      else (case writeErr of
              None \<Rightarrow> (b, [ConnWrite data])
            | Some err \<Rightarrow> (case closeAll b ''tcp-write'' (Some err) of (b', es) \<Rightarrow> (b', ConnWrite data # es))))"

definition bridge_onClose :: "bridge \<Rightarrow> bridge \<times> beffect list" where
  "bridge_onClose b = closeAll b ''datachannel-close'' None"

definition bridge_onError :: "bridge \<Rightarrow> gerror option \<Rightarrow> bridge \<times> beffect list" where
  "bridge_onError b err = closeAll b ''datachannel-error'' err"

text \<open>The non-blocking send on \<open>drain\<close>, a channel of capacity one.\<close>

definition onBufferedAmountLow :: "bridge \<Rightarrow> bridge" where
  "onBufferedAmountLow b = b\<lparr>bg_drain := True\<rparr>"

text \<open>
  The steps of the reader: the results of \<open>conn.Read\<close>, \<open>dc.Send\<close> and \<open>dc.BufferedAmount\<close>, and the
  two arms of the select.  A step that the reader cannot take now is \<open>None\<close>.  \<open>conn.Read\<close> fills at
  most the buffer it is given.
\<close>

definition readerRead :: "bridge \<Rightarrow> bytes \<Rightarrow> gerror option \<Rightarrow> (bridge \<times> beffect list) option" where
  "readerRead b data err =
     (if bg_reader b = AtRead \<and> length data \<le> maxChunkSize then
        Some (b\<lparr>bg_reader := (if length data > 0 then AtSend data err else AtErr err)\<rparr>, [])
      else None)"

definition readerSend :: "bridge \<Rightarrow> gerror option \<Rightarrow> (bridge \<times> beffect list) option" where
  "readerSend b sendErr =
     (case bg_reader b of
        AtSend data err \<Rightarrow>
          (case sendErr of
             Some e \<Rightarrow> Some (closeAll (b\<lparr>bg_reader := Returned\<rparr>) ''datachannel-send'' (Some e))
           | None \<Rightarrow> Some (b\<lparr>bg_reader := AtCheck err\<rparr>, [DCSend data]))
      | _ \<Rightarrow> None)"

definition readerCheck :: "bridge \<Rightarrow> 64 word \<Rightarrow> (bridge \<times> beffect list) option" where
  "readerCheck b amount =
     (case bg_reader b of
        AtCheck err \<Rightarrow>
          Some (b\<lparr>bg_reader := (if amount > bufferedAmountHighThreshold then AtSelect err else AtErr err)\<rparr>, [])
      | _ \<Rightarrow> None)"

definition readerDrain :: "bridge \<Rightarrow> (bridge \<times> beffect list) option" where
  "readerDrain b =
     (case bg_reader b of
        AtSelect err \<Rightarrow> if bg_drain b then Some (b\<lparr>bg_drain := False, bg_reader := AtCheck err\<rparr>, []) else None
      | _ \<Rightarrow> None)"

definition readerDone :: "bridge \<Rightarrow> (bridge \<times> beffect list) option" where
  "readerDone b =
     (case bg_reader b of
        AtSelect err \<Rightarrow> if bg_done b then Some (b\<lparr>bg_reader := Returned\<rparr>, []) else None
      | _ \<Rightarrow> None)"

definition readerErr :: "bridge \<Rightarrow> (bridge \<times> beffect list) option" where
  "readerErr b =
     (case bg_reader b of
        AtErr (Some err) \<Rightarrow> Some (closeAll (b\<lparr>bg_reader := Returned\<rparr>) ''tcp-read'' (Some err))
      | AtErr None \<Rightarrow> Some (b\<lparr>bg_reader := AtRead\<rparr>, [])
      | _ \<Rightarrow> None)"

datatype blabel =
    LMessage bytes "gerror option"
  | LClose
  | LError "gerror option"
  | LLow
  | LRead bytes "gerror option"
  | LSend "gerror option"
  | LCheck
  | LDrain
  | LDone
  | LErr

text \<open>One step; \<open>amount\<close> is what \<open>dc.BufferedAmount\<close> is at that moment.\<close>

fun bridgeStep :: "bridge \<Rightarrow> 64 word \<Rightarrow> blabel \<Rightarrow> (bridge \<times> beffect list) option" where
  "bridgeStep b amount (LMessage data err) = Some (bridge_onMessage b data err)"
| "bridgeStep b amount LClose = Some (bridge_onClose b)"
| "bridgeStep b amount (LError err) = Some (bridge_onError b err)"
| "bridgeStep b amount LLow = Some (onBufferedAmountLow b, [])"
| "bridgeStep b amount (LRead data err) = readerRead b data err"
| "bridgeStep b amount (LSend err) = readerSend b err"
| "bridgeStep b amount LCheck = readerCheck b amount"
| "bridgeStep b amount LDrain = readerDrain b"
| "bridgeStep b amount LDone = readerDone b"
| "bridgeStep b amount LErr = readerErr b"

fun bridgeRun :: "bridge \<Rightarrow> (64 word \<times> blabel) list \<Rightarrow> (bridge \<times> beffect list) option" where
  "bridgeRun b [] = Some (b, [])"
| "bridgeRun b ((amount, l) # ls) =
     (case bridgeStep b amount l of
        None \<Rightarrow> None
      | Some (b1, es) \<Rightarrow> (case bridgeRun b1 ls of None \<Rightarrow> None | Some (b2, fs) \<Rightarrow> Some (b2, es @ fs)))"

section \<open>Specifications\<close>

text \<open>The bytes that entered and left the bridge.\<close>

definition tcpIn :: "(64 word \<times> blabel) list \<Rightarrow> bytes" where
  "tcpIn ls = concat (map (\<lambda>(a, l). case l of LRead data err \<Rightarrow> data | _ \<Rightarrow> []) ls)"

definition channelIn :: "(64 word \<times> blabel) list \<Rightarrow> bytes list" where
  "channelIn ls = filter (\<lambda>d. d \<noteq> []) (concat (map (\<lambda>(a, l). case l of LMessage data err \<Rightarrow> [data] | _ \<Rightarrow> []) ls))"

definition sentChunks :: "beffect list \<Rightarrow> bytes list" where
  "sentChunks es = concat (map (\<lambda>e. case e of DCSend d \<Rightarrow> [d] | _ \<Rightarrow> []) es)"

definition writtenChunks :: "beffect list \<Rightarrow> bytes list" where
  "writtenChunks es = concat (map (\<lambda>e. case e of ConnWrite d \<Rightarrow> [d] | _ \<Rightarrow> []) es)"

text \<open>The chunk the reader holds and has not sent yet.\<close>

fun heldChunk :: "reader \<Rightarrow> bytes" where
  "heldChunk (AtSend d err) = d"
| "heldChunk _ = []"

definition chunkOk :: "bytes \<Rightarrow> bool" where
  "chunkOk d \<longleftrightarrow> 0 < length d \<and> length d \<le> maxChunkSize"

text \<open>The labels that report a failure on either end.\<close>

fun failureLabel :: "blabel \<Rightarrow> bool" where
  "failureLabel (LMessage d err) = (d \<noteq> [] \<and> err \<noteq> None)"
| "failureLabel LClose = True"
| "failureLabel (LError err) = True"
| "failureLabel (LSend err) = (err \<noteq> None)"
| "failureLabel _ = False"

fun readerOk :: "reader \<Rightarrow> bool" where
  "readerOk (AtSend d err) = chunkOk d"
| "readerOk _ = True"

definition bridge_inv :: "bridge \<Rightarrow> bool" where
  "bridge_inv b \<longleftrightarrow> bg_done b = bg_closeOnce b \<and> (bg_reader b = Returned \<longrightarrow> bg_closeOnce b) \<and> readerOk (bg_reader b)"

text \<open>
  What the bridge relies on of the send queue of the data channel (\<open>bufferedAmount\<close> and
  \<open>onBufferedAmountLow\<close> of the WebRTC specification): only \<open>Send\<close> makes the queue longer, by the bytes
  sent, and when the amount falls to the low threshold from above it, the callback runs next.
  \<open>queueEnd\<close> follows a run from a queue of \<open>q\<close> bytes to its length at the end; it is \<open>None\<close> for a
  run in which the queue does anything else.
\<close>

fun queueEnd :: "bridge \<Rightarrow> nat \<Rightarrow> (64 word \<times> blabel) list \<Rightarrow> nat option" where
  "queueEnd b q [] = Some q"
| "queueEnd b q ((amount, l) # ls) =
     (if unat amount \<le> q
         \<and> (q > unat bufferedAmountLowThreshold \<and> unat amount \<le> unat bufferedAmountLowThreshold \<longrightarrow> l = LLow)
      then (case bridgeStep b amount l of
              None \<Rightarrow> None
            | Some (b1, es) \<Rightarrow> queueEnd b1 (unat amount + length (concat (sentChunks es))) ls)
      else None)"

fun belowHigh :: "reader \<Rightarrow> bool" where
  "belowHigh AtRead = True" | "belowHigh (AtSend d e) = True" | "belowHigh (AtErr e) = True" | "belowHigh _ = False"

definition queue_inv :: "bridge \<Rightarrow> nat \<Rightarrow> bool" where
  "queue_inv b q \<longleftrightarrow>
     q \<le> unat bufferedAmountHighThreshold + maxChunkSize
   \<and> (belowHigh (bg_reader b) \<longrightarrow> q \<le> unat bufferedAmountHighThreshold)
   \<and> (\<forall>err. bg_reader b = AtSelect err \<and> q \<le> unat bufferedAmountLowThreshold \<longrightarrow> bg_drain b \<or> bg_done b)"

section \<open>Every step\<close>

lemma chunks_simps [simp]:
  "sentChunks [] = []" "sentChunks (es @ fs) = sentChunks es @ sentChunks fs" "sentChunks (DCSend d # es) = d # sentChunks es"
  "(\<And>d. e \<noteq> DCSend d) \<Longrightarrow> sentChunks (e # es) = sentChunks es"
  "writtenChunks [] = []" "writtenChunks (es @ fs) = writtenChunks es @ writtenChunks fs"
  "writtenChunks (ConnWrite d # es) = d # writtenChunks es"
  "(\<And>d. e \<noteq> ConnWrite d) \<Longrightarrow> writtenChunks (e # es) = writtenChunks es"
  by (simp_all add: sentChunks_def writtenChunks_def split: beffect.splits)

lemma inputs_simps [simp]:
  "tcpIn [] = []" "tcpIn ((a, LRead d err) # ls) = d @ tcpIn ls" "channelIn [] = []"
  "channelIn ((a, LMessage d err) # ls) = (if d = [] then channelIn ls else d # channelIn ls)"
  "(\<And>d e. l \<noteq> LRead d e) \<Longrightarrow> tcpIn ((a, l) # ls) = tcpIn ls"
  "(\<And>d e. l \<noteq> LMessage d e) \<Longrightarrow> channelIn ((a, l) # ls) = channelIn ls"
  by (simp_all add: tcpIn_def channelIn_def split: blabel.splits)

lemma closeAll_cases:
  obtains "bg_closeOnce b" "closeAll b reason err = (b, [])"
  | logs where "\<not> bg_closeOnce b" "closeAll b reason err
        = (b\<lparr>bg_closeOnce := True, bg_done := True\<rparr>, logs @ [ConnClose, DCClose, DoneClose])"
      "logs = [] \<or> (\<exists>x y z. logs = [BridgeLog x y z])"
  by (cases "bg_closeOnce b") (auto simp: closeAll_def split: option.splits)

lemma closeAll_simps [simp]:
  "bg_closeOnce (fst (closeAll b r e))" "bg_reader (fst (closeAll b r e)) = bg_reader b"
  "bg_drain (fst (closeAll b r e)) = bg_drain b"
  "sentChunks (snd (closeAll b r e)) = []" "writtenChunks (snd (closeAll b r e)) = []"
  "bg_done (fst (closeAll b r e)) = (bg_done b \<or> \<not> bg_closeOnce b)"
  by (cases rule: closeAll_cases [of b r e]; auto)+

lemmas bridge_step_defs = bridge_onMessage_def bridge_onClose_def bridge_onError_def onBufferedAmountLow_def
  readerRead_def readerSend_def readerCheck_def readerDrain_def readerDone_def readerErr_def

lemma bridge_inv_closeAll: "bridge_inv (b\<lparr>bg_reader := p\<rparr>) \<or> bridge_inv b \<and> readerOk p \<Longrightarrow> bridge_inv (fst (closeAll (b\<lparr>bg_reader := p\<rparr>) r e))"
  by (auto simp: bridge_inv_def)

lemma bridge_inv_closeAll0: "bridge_inv b \<Longrightarrow> bridge_inv (fst (closeAll b r e))"
  by (auto simp: bridge_inv_def)

lemma bridge_inv_move: "bridge_inv b \<Longrightarrow> readerOk p \<Longrightarrow> p \<noteq> Returned \<or> bg_closeOnce b \<Longrightarrow> bridge_inv (b\<lparr>bg_reader := p\<rparr>)"
  by (auto simp: bridge_inv_def)

lemma bridge_inv_drain: "bridge_inv b \<Longrightarrow> bridge_inv (b\<lparr>bg_drain := d\<rparr>)"
  by (simp add: bridge_inv_def)

lemma bridgeStep_inv: "bridgeStep b amount l = Some r \<Longrightarrow> bridge_inv b \<Longrightarrow> bridge_inv (fst r)"
proof (induction b amount l rule: bridgeStep.induct)
  case (5 b amount data err)
  then show ?case by (auto simp: readerRead_def chunkOk_def split: if_splits intro!: bridge_inv_move)
next
  case (9 b amount)
  then show ?case by (auto simp: readerDone_def bridge_inv_def split: if_splits reader.splits)
qed (auto simp: bridge_step_defs case_prod_beta bridge_inv_closeAll bridge_inv_closeAll0 bridge_inv_drain
      split: if_splits option.splits reader.splits intro!: bridge_inv_move)

section \<open>Bytes\<close>

text \<open>What a step does to the bytes from the TCP side: kept, sent, or lost with a failed \<open>Send\<close>.\<close>

lemma bridgeStep_bytes:
  assumes "bridgeStep b amount l = Some r" "bridge_inv b"
  shows "heldChunk (bg_reader b) @ tcpIn [(amount, l)] = concat (sentChunks (snd r)) @ heldChunk (bg_reader (fst r))
       \<or> bg_reader (fst r) = Returned \<and> sentChunks (snd r) = [] \<and> tcpIn [(amount, l)] = []
         \<and> length (heldChunk (bg_reader b)) \<le> maxChunkSize"
  using assms
  by (induction b amount l rule: bridgeStep.induct)
     (auto simp: bridge_step_defs bridge_inv_def chunkOk_def case_prod_beta split: if_splits reader.splits option.splits)

lemma bridgeStep_chunks:
  assumes "bridgeStep b amount l = Some r" "bridge_inv b"
  shows "list_all chunkOk (sentChunks (snd r)) \<and> writtenChunks (snd r) = channelIn [(amount, l)]"
  using assms
  by (induction b amount l rule: bridgeStep.induct)
     (auto simp: bridge_step_defs bridge_inv_def case_prod_beta split: if_splits reader.splits option.splits)

lemma bridgeStep_returned:
  assumes "bridgeStep b amount l = Some r" "bg_reader b = Returned"
  shows "bg_reader (fst r) = Returned \<and> sentChunks (snd r) = [] \<and> tcpIn [(amount, l)] = []"
  using assms
  by (induction b amount l rule: bridgeStep.induct)
     (auto simp: bridge_step_defs case_prod_beta split: if_splits reader.splits option.splits)

text \<open>Induction over a run, one step at a time.\<close>

lemma bridgeRun_induct [consumes 1, case_names Nil Cons]:
  assumes "bridgeRun b ls = Some (b', es)"
    and "\<And>b. P b [] b []"
    and "\<And>b a l r ls b' es. bridgeStep b a l = Some r \<Longrightarrow> bridgeRun (fst r) ls = Some (b', es) \<Longrightarrow> P (fst r) ls b' es
           \<Longrightarrow> P b ((a, l) # ls) b' (snd r @ es)"
  shows "P b ls b' es"
  using assms(1)
proof (induction ls arbitrary: b es)
  case (Cons x ls)
  obtain a l where x: "x = (a, l)" by (cases x)
  obtain r fs where "bridgeStep b a l = Some r" "bridgeRun (fst r) ls = Some (b', fs)" "es = snd r @ fs"
    using Cons.prems by (auto simp: x split: option.splits prod.splits)
  with Cons.IH assms(3) show ?case by (simp add: x)
qed (simp add: assms(2))

lemma inputs_Cons: "tcpIn (x # ls) = tcpIn [x] @ tcpIn ls" "channelIn (x # ls) = channelIn [x] @ channelIn ls"
  by (simp_all add: tcpIn_def channelIn_def)

lemma bridgeRun_inv: "bridgeRun b ls = Some (b', es) \<Longrightarrow> bridge_inv b \<Longrightarrow> bridge_inv b'"
  by (induction rule: bridgeRun_induct) (auto dest: bridgeStep_inv)

lemma bridgeRun_returned:
  "bridgeRun b ls = Some (b', es) \<Longrightarrow> bg_reader b = Returned \<Longrightarrow> bg_reader b' = Returned \<and> sentChunks es = [] \<and> tcpIn ls = []"
proof (induction rule: bridgeRun_induct)
  case (Cons b a l r ls b' es)
  with bridgeStep_returned [OF Cons.hyps(1) Cons.prems] show ?case by (simp add: inputs_Cons(1) [of "(a, l)" ls])
qed simp

lemma bridgeRun_chunks:
  "bridgeRun b ls = Some (b', es) \<Longrightarrow> bridge_inv b \<Longrightarrow> list_all chunkOk (sentChunks es) \<and> writtenChunks es = channelIn ls"
proof (induction rule: bridgeRun_induct)
  case (Cons b a l r ls b' es)
  from Cons.IH [OF bridgeStep_inv [OF Cons.hyps(1) Cons.prems]] bridgeStep_chunks [OF Cons.hyps(1) Cons.prems]
  show ?case by (simp add: inputs_Cons(2) [of "(a, l)" ls])
qed simp

lemma bridgeRun_bytes:
  "bridgeRun b ls = Some (b', es) \<Longrightarrow> bridge_inv b \<Longrightarrow>
     \<exists>lost. heldChunk (bg_reader b) @ tcpIn ls = concat (sentChunks es) @ heldChunk (bg_reader b') @ lost
       \<and> (lost \<noteq> [] \<longrightarrow> bg_reader b' = Returned \<and> length lost \<le> maxChunkSize)"
proof (induction rule: bridgeRun_induct)
  case (Cons b a l r ls b' es)
  obtain lost where lost: "heldChunk (bg_reader (fst r)) @ tcpIn ls = concat (sentChunks es) @ heldChunk (bg_reader b') @ lost"
      "lost \<noteq> [] \<longrightarrow> bg_reader b' = Returned \<and> length lost \<le> maxChunkSize"
    using Cons.IH [OF bridgeStep_inv [OF Cons.hyps(1) Cons.prems]] by blast
  from bridgeStep_bytes [OF Cons.hyps(1) Cons.prems] show ?case
  proof
    assume "heldChunk (bg_reader b) @ tcpIn [(a, l)] = concat (sentChunks (snd r)) @ heldChunk (bg_reader (fst r))"
    then have "heldChunk (bg_reader b) @ tcpIn ((a, l) # ls)
        = concat (sentChunks (snd r)) @ (heldChunk (bg_reader (fst r)) @ tcpIn ls)"
      by (simp add: inputs_Cons(1) [of "(a, l)" ls] flip: append_assoc)
    with lost show ?thesis by (intro exI [of _ lost]) simp
  next
    assume *: "bg_reader (fst r) = Returned \<and> sentChunks (snd r) = [] \<and> tcpIn [(a, l)] = []
      \<and> length (heldChunk (bg_reader b)) \<le> maxChunkSize"
    with bridgeRun_returned [OF Cons.hyps(2)] show ?thesis
      by (intro exI [of _ "heldChunk (bg_reader b)"]) (simp add: inputs_Cons(1) [of "(a, l)" ls])
  qed
qed simp

lemma bridge_inv_Bridge: "bridge_inv (Bridge label)"
  by (simp add: bridge_inv_def Bridge_def)

text \<open>
  (C20) The bridge carries bytes faithfully in both directions: however its callbacks and its
  reader interleave, the chunks sent on the data channel are, in order and complete but for a last
  chunk of at most 16 KiB, the bytes read from the connection; nothing is missing while the bridge
  is up except the chunk the reader holds; every chunk has between 1 and 16 KiB; and the writes to
  the connection are exactly the non-empty messages received, in order.
\<close>

theorem bridge_forwards_in_order:
  assumes "bridgeRun (Bridge label) ls = Some (b, es)"
  shows "\<exists>rest. tcpIn ls = concat (sentChunks es) @ rest \<and> length rest \<le> maxChunkSize
       \<and> (\<not> bg_closeOnce b \<longrightarrow> rest = heldChunk (bg_reader b))
       \<and> (\<forall>d \<in> set (sentChunks es). 1 \<le> length d \<and> length d \<le> maxChunkSize)
       \<and> writtenChunks es = channelIn ls"
proof -
  have inv: "bridge_inv b" using bridgeRun_inv [OF assms bridge_inv_Bridge] .
  obtain lost where l: "tcpIn ls = concat (sentChunks es) @ heldChunk (bg_reader b) @ lost"
      "lost \<noteq> [] \<longrightarrow> bg_reader b = Returned \<and> length lost \<le> maxChunkSize"
    using bridgeRun_bytes [OF assms bridge_inv_Bridge] by (auto simp: Bridge_def)
  have "length (heldChunk (bg_reader b)) \<le> maxChunkSize"
    using inv by (cases "bg_reader b") (simp_all add: bridge_inv_def chunkOk_def)
  with l inv have "length (heldChunk (bg_reader b) @ lost) \<le> maxChunkSize" "\<not> bg_closeOnce b \<longrightarrow> lost = []"
    by (cases "lost = []"; simp add: bridge_inv_def)+
  with l bridgeRun_chunks [OF assms bridge_inv_Bridge] show ?thesis
    by (intro exI [of _ "heldChunk (bg_reader b) @ lost"]) (auto simp: list_all_iff chunkOk_def Suc_le_eq)
qed

theorem bridge_forwards_in_order_witness:
  "\<exists>b es rest. bridgeRun (Bridge ''st'') [(0, LRead [1, 2] None), (0, LMessage [7] None), (0, LSend None),
       (2, LCheck), (2, LErr), (2, LRead [3] (Some io_EOF))] = Some (b, es)
     \<and> [1, 2, 3] = concat (sentChunks es) @ rest \<and> rest = [3] \<and> writtenChunks es = [[7]]"
proof -
  obtain b es where r: "bridgeRun (Bridge ''st'') [(0, LRead [1, 2] None), (0, LMessage [7] None), (0, LSend None),
       (2, LCheck), (2, LErr), (2, LRead [3] (Some io_EOF))] = Some (b, es)"
      "bg_reader b = AtSend [3] (Some io_EOF)" "\<not> bg_closeOnce b"
    by (simp add: bridge_step_defs Bridge_def maxChunkSize_def bufferedAmountHighThreshold_def word_less_nat_alt)
  from bridge_forwards_in_order [OF r(1)] r(2,3) have "[1, 2, 3] = concat (sentChunks es) @ [3]" "writtenChunks es = [[7]]"
    by simp_all
  with r(1) show ?thesis by blast
qed

section \<open>Teardown\<close>

lemma closeAll_count:
  "x \<in> {ConnClose, DCClose, DoneClose} \<Longrightarrow> count_list (snd (closeAll b r e)) x = (if bg_closeOnce b then 0 else 1)"
  by (cases rule: closeAll_cases [of b r e]) auto

lemma bridgeStep_close:
  assumes "bridgeStep b amount l = Some r" "x \<in> {ConnClose, DCClose, DoneClose}"
  shows "count_list (snd r) x = (if bg_closeOnce (fst r) \<and> \<not> bg_closeOnce b then 1 else 0)
       \<and> (bg_closeOnce b \<longrightarrow> bg_closeOnce (fst r)) \<and> (failureLabel l \<longrightarrow> bg_closeOnce (fst r))"
  using assms
  by (induction b amount l rule: bridgeStep.induct)
     (auto simp: bridge_step_defs case_prod_beta closeAll_count split: if_splits reader.splits option.splits)

lemma bridgeRun_close:
  assumes "bridgeRun b ls = Some (b', es)" "x \<in> {ConnClose, DCClose, DoneClose}"
  shows "count_list es x = (if bg_closeOnce b' \<and> \<not> bg_closeOnce b then 1 else 0) \<and> (bg_closeOnce b \<longrightarrow> bg_closeOnce b')
       \<and> ((\<exists>(a, l) \<in> set ls. failureLabel l) \<longrightarrow> bg_closeOnce b')"
  using assms(1)
proof (induction rule: bridgeRun_induct)
  case (Cons b a l r ls b' es)
  from Cons.IH bridgeStep_close [OF Cons.hyps(1) assms(2)] show ?case
    by (cases "bg_closeOnce b"; cases "bg_closeOnce (fst r)"; cases "failureLabel l") simp_all
qed simp

text \<open>Progress after teardown: whatever the queue holds, the reader gets back to its read or returns.\<close>

lemma reader_leaves:
  assumes "bg_done b" "bg_reader b \<noteq> Returned" "bg_reader b \<noteq> AtRead"
  shows "\<exists>ls b' es. length ls \<le> 3 \<and> list_all (\<lambda>(a, l). a = amount \<and> l \<in> {LSend None, LCheck, LDone, LErr}) ls
    \<and> bridgeRun b ls = Some (b', es) \<and> bg_reader b' \<in> {AtRead, Returned} \<and> bg_done b'"
proof (cases "bg_reader b")
  case (AtSend d err)
  show ?thesis
  proof (cases "amount > bufferedAmountHighThreshold")
    case True
    then show ?thesis using assms AtSend
      by (intro exI [of _ "[(amount, LSend None), (amount, LCheck), (amount, LDone)]"]) (auto simp: bridge_step_defs)
  next
    case False
    then show ?thesis using assms AtSend
      by (intro exI [of _ "[(amount, LSend None), (amount, LCheck), (amount, LErr)]"])
         (auto simp: bridge_step_defs closeAll_def split: option.splits)
  qed
next
  case (AtCheck err)
  show ?thesis
  proof (cases "amount > bufferedAmountHighThreshold")
    case True
    then show ?thesis using assms AtCheck
      by (intro exI [of _ "[(amount, LCheck), (amount, LDone)]"]) (auto simp: bridge_step_defs)
  next
    case False
    then show ?thesis using assms AtCheck
      by (intro exI [of _ "[(amount, LCheck), (amount, LErr)]"])
         (auto simp: bridge_step_defs closeAll_def split: option.splits)
  qed
next
  case (AtSelect err)
  then show ?thesis using assms by (intro exI [of _ "[(amount, LDone)]"]) (auto simp: bridge_step_defs)
next
  case (AtErr err)
  then show ?thesis using assms
    by (intro exI [of _ "[(amount, LErr)]"]) (auto simp: bridge_step_defs closeAll_def split: option.splits)
qed (use assms in simp_all)

lemma bridgeRun_append:
  "bridgeRun b (xs @ ys) =
     (case bridgeRun b xs of None \<Rightarrow> None
      | Some (b1, es) \<Rightarrow> (case bridgeRun b1 ys of None \<Rightarrow> None | Some (b2, fs) \<Rightarrow> Some (b2, es @ fs)))"
  by (induction b xs rule: bridgeRun.induct) (auto split: option.splits prod.splits)

lemma reader_leaves_read:
  assumes "bg_reader b = AtRead"
  shows "\<exists>b' es. bridgeRun b [(amount, LRead [] (Some e)), (amount, LErr)] = Some (b', es) \<and> bg_reader b' = Returned"
  using assms by (auto simp: bridge_step_defs closeAll_def)

text \<open>
  (C22) Teardown of a bridge: over any interleaving the connection, the data channel and the
  \<open>done\<close> channel are each closed at most once and always together (so \<open>done\<close> is never closed
  twice), every failure on either end and every return of the reader tears both sides down, and
  after teardown the reader is never stuck: in at most five of its own steps it returns, however
  full the send queue is, when a read from the closed connection fails.
\<close>

theorem bridge_teardown:
  assumes "bridgeRun (Bridge label) ls = Some (b, es)"
  shows "count_list es ConnClose = (if bg_closeOnce b then 1 else 0)
       \<and> count_list es DCClose = count_list es ConnClose \<and> count_list es DoneClose = count_list es ConnClose
       \<and> ((\<exists>(a, l) \<in> set ls. failureLabel l) \<or> bg_reader b = Returned \<longrightarrow> bg_closeOnce b)
       \<and> (bg_closeOnce b \<longrightarrow> (\<exists>ms b' fs. length ms \<le> 5
            \<and> list_all (\<lambda>(a, l). a = amount \<and> l \<in> {LSend None, LCheck, LDone, LErr, LRead [] (Some e)}) ms
            \<and> bridgeRun b ms = Some (b', fs) \<and> bg_reader b' = Returned))"
proof -
  note c = bridgeRun_close [OF assms]
  have n: "\<not> bg_closeOnce (Bridge label)" by (simp add: Bridge_def)
  have inv: "bridge_inv b" using bridgeRun_inv [OF assms bridge_inv_Bridge] .
  have ex: "\<exists>ms b' fs. length ms \<le> 5
            \<and> list_all (\<lambda>(a, l). a = amount \<and> l \<in> {LSend None, LCheck, LDone, LErr, LRead [] (Some e)}) ms
            \<and> bridgeRun b ms = Some (b', fs) \<and> bg_reader b' = Returned" if "bg_closeOnce b"
  proof -
    have "\<exists>ms b' fs. length ms \<le> 3
        \<and> list_all (\<lambda>(a, l). a = amount \<and> l \<in> {LSend None, LCheck, LDone, LErr}) ms
        \<and> bridgeRun b ms = Some (b', fs) \<and> bg_reader b' \<in> {AtRead, Returned}"
    proof (cases "bg_reader b \<in> {AtRead, Returned}")
      case True
      then show ?thesis by (intro exI [of _ "[]"]) auto
    next
      case False
      with reader_leaves [of b amount] that inv show ?thesis unfolding bridge_inv_def by blast
    qed
    then obtain ms b1 fs where m: "length ms \<le> 3"
        "list_all (\<lambda>(a, l). a = amount \<and> l \<in> {LSend None, LCheck, LDone, LErr}) ms"
        "bridgeRun b ms = Some (b1, fs)" "bg_reader b1 \<in> {AtRead, Returned}" by blast
    show ?thesis
    proof (cases "bg_reader b1 = Returned")
      case True
      with m show ?thesis by (intro exI [of _ ms]) (auto simp: list_all_iff)
    next
      case False
      with m(4) reader_leaves_read [of b1 amount e] obtain b2 gs where
        "bridgeRun b1 [(amount, LRead [] (Some e)), (amount, LErr)] = Some (b2, gs)" "bg_reader b2 = Returned" by blast
      with m show ?thesis
        by (intro exI [of _ "ms @ [(amount, LRead [] (Some e)), (amount, LErr)]"])
           (auto simp: bridgeRun_append list_all_iff)
    qed
  qed
  show ?thesis using c [of ConnClose] c [of DCClose] c [of DoneClose] n inv ex by (simp add: bridge_inv_def)
qed

theorem bridge_teardown_witness:
  "\<exists>b es ms b' fs. bridgeRun (Bridge ''st'') [(0, LRead [1] None), (0, LClose)] = Some (b, es)
     \<and> count_list es DoneClose = 1 \<and> length ms \<le> 5 \<and> bridgeRun b ms = Some (b', fs) \<and> bg_reader b' = Returned"
proof -
  obtain b es where r: "bridgeRun (Bridge ''st'') [(0, LRead [1] None), (0, LClose)] = Some (b, es)" "bg_closeOnce b"
    by (simp add: bridge_step_defs Bridge_def maxChunkSize_def closeAll_def)
  from bridge_teardown [OF r(1), of 0 io_EOF] r(2) have "count_list es DoneClose = 1"
      "\<exists>ms b' fs. length ms \<le> 5 \<and> bridgeRun b ms = Some (b', fs) \<and> bg_reader b' = Returned" by auto
  with r(1) show ?thesis by blast
qed

section \<open>Backpressure\<close>

lemma thresholds: "unat bufferedAmountHighThreshold = 1048576" "unat bufferedAmountLowThreshold = 262144"
  by (simp_all add: bufferedAmountHighThreshold_def bufferedAmountLowThreshold_def)

text \<open>A callback: the reader stays where it is, and the queue has at most drained.\<close>

lemma queue_inv_callback:
  assumes "queue_inv b q" "q' \<le> q" "bg_reader b' = bg_reader b" "bg_drain b \<longrightarrow> bg_drain b'" "bg_done b \<longrightarrow> bg_done b'"
    and "q > unat bufferedAmountLowThreshold \<and> q' \<le> unat bufferedAmountLowThreshold \<longrightarrow> bg_drain b'"
  shows "queue_inv b' q'"
  using assms unfolding queue_inv_def by (cases "q \<le> unat bufferedAmountLowThreshold") auto

lemma callback_frame:
  assumes "bridgeStep b amount l = Some r" "\<exists>d e. l \<in> {LMessage d e, LClose, LError e, LLow}" "bridge_inv b"
  shows "bg_reader (fst r) = bg_reader b \<and> (bg_drain b \<longrightarrow> bg_drain (fst r)) \<and> (bg_done b \<longrightarrow> bg_done (fst r))
       \<and> sentChunks (snd r) = [] \<and> (l = LLow \<longrightarrow> bg_drain (fst r))"
  using assms by (auto simp: bridge_step_defs case_prod_beta split: option.splits if_splits)

lemma reader_queue:
  assumes "bridgeStep b amount l = Some r" "\<not> (\<exists>d e. l \<in> {LMessage d e, LClose, LError e, LLow})" "bridge_inv b"
    and "queue_inv b q" "unat amount \<le> q"
  shows "queue_inv (fst r) (unat amount + length (concat (sentChunks (snd r))))"
proof (cases l)
  case (LSend err)
  obtain d e where r: "bg_reader b = AtSend d e" using assms(1) LSend by (auto simp: readerSend_def split: reader.splits)
  with assms(3,4) have "length d \<le> maxChunkSize" "q \<le> unat bufferedAmountHighThreshold"
    by (simp_all add: bridge_inv_def chunkOk_def queue_inv_def)
  with assms(1,5) r LSend show ?thesis
    by (cases err) (auto simp: readerSend_def queue_inv_def)
next
  case LCheck
  with assms(1,4,5) show ?thesis
    by (auto simp: readerCheck_def queue_inv_def word_less_nat_alt thresholds split: reader.splits if_splits)
qed (use assms in \<open>auto simp: bridge_step_defs queue_inv_def split: if_splits reader.splits option.splits\<close>)

lemma bridgeStep_queue:
  assumes "bridgeStep b amount l = Some r" "bridge_inv b" "queue_inv b q" "unat amount \<le> q"
    and "q > unat bufferedAmountLowThreshold \<and> unat amount \<le> unat bufferedAmountLowThreshold \<longrightarrow> l = LLow"
  shows "queue_inv (fst r) (unat amount + length (concat (sentChunks (snd r))))"
proof (cases "\<exists>d e. l \<in> {LMessage d e, LClose, LError e, LLow}")
  case True
  with callback_frame [OF assms(1) True assms(2)] queue_inv_callback [OF assms(3,4), of "fst r"] assms(5)
  show ?thesis by simp
qed (use reader_queue [OF assms(1)] assms in blast)

lemma queueEnd_inv:
  assumes "bridgeRun b ls = Some (b', es)" "bridge_inv b" "queue_inv b q" "queueEnd b q ls = Some q'"
  shows "queue_inv b' q'"
  using assms
proof (induction arbitrary: q rule: bridgeRun_induct)
  case (Cons b a l r ls b' es)
  from Cons.prems(3) have c: "unat a \<le> q"
      "q > unat bufferedAmountLowThreshold \<and> unat a \<le> unat bufferedAmountLowThreshold \<longrightarrow> l = LLow"
      "queueEnd (fst r) (unat a + length (concat (sentChunks (snd r)))) ls = Some q'"
    by (auto simp: Cons.hyps(1) case_prod_beta split: if_splits)
  show ?case
    by (rule Cons.IH [OF bridgeStep_inv [OF Cons.hyps(1) Cons.prems(1)] bridgeStep_queue [OF Cons.hyps(1) Cons.prems(1,2) c(1,2)] c(3)])
qed simp

text \<open>
  (C21) Backpressure: whatever the schedule, the send queue of a bridge never holds more than the
  high threshold and one chunk (1 MiB + 16 KiB) when it starts below the threshold; and no wake-up
  is lost: a reader waiting for the queue to drain can proceed as soon as the queue is at the low
  threshold.
\<close>

theorem bridge_backpressure:
  assumes "bridgeRun (Bridge label) ls = Some (b, es)"
    and "q0 \<le> unat bufferedAmountHighThreshold" and "queueEnd (Bridge label) q0 ls = Some q"
  shows "q \<le> 1048576 + 16384
       \<and> (bg_reader b = AtSelect err \<and> q \<le> unat bufferedAmountLowThreshold \<longrightarrow> readerDrain b \<noteq> None \<or> readerDone b \<noteq> None)"
proof -
  have "queue_inv (Bridge label) q0" using assms(2) by (simp add: queue_inv_def Bridge_def)
  from queueEnd_inv [OF assms(1) bridge_inv_Bridge this assms(3)] show ?thesis
    by (auto simp: queue_inv_def thresholds maxChunkSize_def readerDrain_def readerDone_def)
qed

theorem bridge_backpressure_witness:
  "\<exists>b es. bridgeRun (Bridge ''st'')
       [(1048576, LRead [1] None), (1048576, LSend None), (1048577, LCheck), (100, LLow)] = Some (b, es)
     \<and> bg_reader b = AtSelect None \<and> (readerDrain b \<noteq> None \<or> readerDone b \<noteq> None)"
proof -
  let ?ls = "[(1048576, LRead [1] None), (1048576, LSend None), (1048577, LCheck), (100, LLow)]"
  obtain b es where r: "bridgeRun (Bridge ''st'') ?ls = Some (b, es)" "bg_reader b = AtSelect None"
    by (simp add: bridge_step_defs Bridge_def maxChunkSize_def word_less_nat_alt thresholds)
  have q: "queueEnd (Bridge ''st'') 1048576 ?ls = Some 100"
    by (simp add: bridge_step_defs Bridge_def maxChunkSize_def word_less_nat_alt thresholds)
  from bridge_backpressure [OF r(1) _ q, of None] r show ?thesis by (auto simp: thresholds)
qed

end
