(* ===== verification/Socks5.thy ===== *)
theory Socks5
  imports GoNet
begin

text \<open>
  The server side of the SOCKS5 handshake of \<^verbatim>\<open>internal/socks5/socks5.go\<close>.  A connection is the bytes
  that its peer will have sent, the error a read gives when they are used up, the results of the
  coming writes, and what has been written.  The theorems relate the handshake to the wire format
  of RFC 1928, given as an encoder of requests.
\<close>

section \<open>Definitions\<close>

definition version :: byte where "version = 0x05"
definition cmdConnect :: byte where "cmdConnect = 0x01"
definition authNone :: byte where "authNone = 0x00"
definition authNoAccept :: byte where "authNoAccept = 0xFF"
definition addrTypeIPv4 :: byte where "addrTypeIPv4 = 0x01"
definition addrTypeFQDN :: byte where "addrTypeFQDN = 0x03"
definition addrTypeIPv6 :: byte where "addrTypeIPv6 = 0x04"
definition replySuccess :: byte where "replySuccess = 0x00"
definition replyFailure :: byte where "replyFailure = 0x01"

definition ErrUnsupportedVersion :: gerror where
  "ErrUnsupportedVersion = Sentinel ''socks5.ErrUnsupportedVersion''"
definition ErrNoAcceptableMethod :: gerror where
  "ErrNoAcceptableMethod = Sentinel ''socks5.ErrNoAcceptableMethod''"
definition ErrUnsupportedCommand :: gerror where
  "ErrUnsupportedCommand = Sentinel ''socks5.ErrUnsupportedCommand''"
definition ErrUnsupportedAddressType :: gerror where
  "ErrUnsupportedAddressType = Sentinel ''socks5.ErrUnsupportedAddressType''"

record sconn =
  cn_in :: bytes
  cn_readErr :: gerror
  cn_writeErrs :: "gerror option list"
  cn_out :: bytes

text \<open>
  \<open>io.ReadFull\<close>: the bytes wanted, or the error of the connection, which is turned into
  \<open>io.ErrUnexpectedEOF\<close> when it is \<open>io.EOF\<close> in the middle.  The bytes read so far are consumed.
\<close>

definition ReadFull :: "sconn \<Rightarrow> nat \<Rightarrow> sconn \<times> bytes res" where
  "ReadFull c n =
     (if n \<le> length (cn_in c) then (c\<lparr>cn_in := drop n (cn_in c)\<rparr>, Inr (take n (cn_in c)))
      else (c\<lparr>cn_in := []\<rparr>,
            Inl (if cn_in c \<noteq> [] \<and> cn_readErr c = Sentinel ''io.EOF'' then Sentinel ''io.ErrUnexpectedEOF''
                 else cn_readErr c)))"

definition connWrite :: "sconn \<Rightarrow> bytes \<Rightarrow> sconn \<times> gerror option" where
  "connWrite c data =
     (case cn_writeErrs c of
        [] \<Rightarrow> (c\<lparr>cn_out := cn_out c @ data\<rparr>, None)
      | None # es \<Rightarrow> (c\<lparr>cn_out := cn_out c @ data, cn_writeErrs := es\<rparr>, None)
      | Some err # es \<Rightarrow> (c\<lparr>cn_writeErrs := es\<rparr>, Some err))"

fun hasMethod :: "bytes \<Rightarrow> byte \<Rightarrow> bool" where
  "hasMethod [] want = False"
| "hasMethod (m # ms) want = (if m = want then True else hasMethod ms want)"

definition readAddr :: "sconn \<Rightarrow> byte \<Rightarrow> sconn \<times> string res" where
  "readAddr c addrType =
     (if addrType = addrTypeIPv4 then
        (case ReadFull c 4 of
           (c1, Inl err) \<Rightarrow> (c1, Inl (Errorf ''read IPv4 addr: %w'' [] [err]))
         | (c1, Inr buf) \<Rightarrow> (c1, Inr (IPString buf)))
      else if addrType = addrTypeFQDN then
        (case ReadFull c 1 of
           (c1, Inl err) \<Rightarrow> (c1, Inl (Errorf ''read domain length: %w'' [] [err]))
         | (c1, Inr lenBuf) \<Rightarrow>
             (case ReadFull c1 (unat (hd lenBuf)) of
                (c2, Inl err) \<Rightarrow> (c2, Inl (Errorf ''read domain: %w'' [] [err]))
              | (c2, Inr domain) \<Rightarrow> (c2, Inr (string_of domain))))
      else if addrType = addrTypeIPv6 then
        (case ReadFull c 16 of
           (c1, Inl err) \<Rightarrow> (c1, Inl (Errorf ''read IPv6 addr: %w'' [] [err]))
         | (c1, Inr buf) \<Rightarrow> (c1, Inr (IPString buf)))
      else (c, Inl (Errorf ''%w: 0x%02x'' [string_of [addrType]] [ErrUnsupportedAddressType])))"

definition Uint16 :: "bytes \<Rightarrow> 16 word" where
  "Uint16 b = word_of_nat (256 * unat (b ! 0) + unat (b ! 1))"

definition Handshake :: "sconn \<Rightarrow> sconn \<times> string res" where
  "Handshake c =
     (case ReadFull c 2 of
        (c1, Inl err) \<Rightarrow> (c1, Inl (Errorf ''read version: %w'' [] [err]))
      | (c1, Inr header) \<Rightarrow>
      if header ! 0 \<noteq> version then
        (c1, Inl (Errorf ''%w: %d'' [FormatNat (unat (header ! 0))] [ErrUnsupportedVersion]))
      else (case ReadFull c1 (unat (header ! 1)) of
        (c2, Inl err) \<Rightarrow> (c2, Inl (Errorf ''read methods: %w'' [] [err]))
      | (c2, Inr methods) \<Rightarrow>
      if \<not> hasMethod methods authNone then
        (fst (connWrite c2 [version, authNoAccept]), Inl ErrNoAcceptableMethod)
      else (case connWrite c2 [version, authNone] of
        (c3, Some err) \<Rightarrow> (c3, Inl (Errorf ''write method selection: %w'' [] [err]))
      | (c3, None) \<Rightarrow>
      (case ReadFull c3 4 of
        (c4, Inl err) \<Rightarrow> (c4, Inl (Errorf ''read request: %w'' [] [err]))
      | (c4, Inr req) \<Rightarrow>
      if req ! 0 \<noteq> version then
        (c4, Inl (Errorf ''%w: %d'' [FormatNat (unat (req ! 0))] [ErrUnsupportedVersion]))
      else if req ! 1 \<noteq> cmdConnect then
        (c4, Inl (Errorf ''%w: 0x%02x'' [string_of [req ! 1]] [ErrUnsupportedCommand]))
      else (case readAddr c4 (req ! 3) of
        (c5, Inl err) \<Rightarrow> (c5, Inl err)
      | (c5, Inr host) \<Rightarrow>
      (case ReadFull c5 2 of
        (c6, Inl err) \<Rightarrow> (c6, Inl (Errorf ''read port: %w'' [] [err]))
      | (c6, Inr portBuf) \<Rightarrow>
          (c6, Inr (JoinHostPort host (FormatNat (unat (Uint16 portBuf)))))))))))"

definition ReplySuccess :: "sconn \<Rightarrow> sconn \<times> gerror option" where
  "ReplySuccess c = connWrite c [version, replySuccess, 0x00, addrTypeIPv4, 0, 0, 0, 0, 0, 0]"

definition ReplyFailure :: "sconn \<Rightarrow> sconn" where
  "ReplyFailure c = fst (connWrite c [version, replyFailure, 0x00, addrTypeIPv4, 0, 0, 0, 0, 0, 0])"

section \<open>The wire format\<close>

text \<open>The requests of RFC 1928: a destination address, and the encoding of a negotiation.\<close>

datatype saddr = SV4 bytes | SName bytes | SV6 bytes

fun saddrOk :: "saddr \<Rightarrow> bool" where
  "saddrOk (SV4 b) = (length b = 4)"
| "saddrOk (SName n) = (length n < 256)"
| "saddrOk (SV6 b) = (length b = 16)"

fun saddrHost :: "saddr \<Rightarrow> string" where
  "saddrHost (SV4 b) = IPString b"
| "saddrHost (SName n) = string_of n"
| "saddrHost (SV6 b) = IPString b"

fun saddrBytes :: "saddr \<Rightarrow> bytes" where
  "saddrBytes (SV4 b) = addrTypeIPv4 # b"
| "saddrBytes (SName n) = addrTypeFQDN # word_of_nat (length n) # n"
| "saddrBytes (SV6 b) = addrTypeIPv6 # b"

definition greeting :: "bytes \<Rightarrow> bytes" where
  "greeting methods = version # word_of_nat (length methods) # methods"

definition request :: "byte \<Rightarrow> saddr \<Rightarrow> 16 word \<Rightarrow> bytes" where
  "request rsv a port = [version, cmdConnect, rsv] @ saddrBytes a
     @ [word_of_nat (unat port div 256), word_of_nat (unat port mod 256)]"

text \<open>Two connections that differ only in what is left to read.\<close>

definition sameOut :: "sconn \<Rightarrow> sconn \<Rightarrow> bool" where
  "sameOut c c' \<longleftrightarrow> cn_readErr c' = cn_readErr c \<and> cn_writeErrs c' = cn_writeErrs c \<and> cn_out c' = cn_out c"

section \<open>Reading\<close>

lemma ReadFull_Inr_iff: "ReadFull c n = (c', Inr b) \<longleftrightarrow> cn_in c = b @ cn_in c' \<and> length b = n \<and> sameOut c c'"
  by (auto simp: ReadFull_def sameOut_def intro: sconn.equality)

lemma hasMethod_iff [simp]: "hasMethod ms m \<longleftrightarrow> m \<in> set ms"
  by (induction ms) auto

lemma unat_word_of_nat_length: "length (n :: bytes) < 256 \<Longrightarrow> unat (word_of_nat (length n) :: byte) = length n"
  by (simp add: unat_word_of_nat_small)

lemma Uint16_port [simp]:
  "Uint16 [word_of_nat (unat (p :: 16 word) div 256), word_of_nat (unat p mod 256)] = p"
proof -
  have "unat p < 65536" using unat_bound16 [of p] by simp
  then have "unat p div 256 < 256" by simp
  then have "unat (word_of_nat (unat p div 256) :: byte) = unat p div 256"
      "unat (word_of_nat (unat p mod 256) :: byte) = unat p mod 256"
    by (simp_all add: unat_word_of_nat_small)
  then show ?thesis by (simp add: Uint16_def)
qed

lemma Uint16_bytes: "length b = 2 \<Longrightarrow> \<exists>p. b = [word_of_nat (unat (p :: 16 word) div 256), word_of_nat (unat p mod 256)] \<and> Uint16 b = p"
proof -
  assume "length b = 2"
  then obtain x y where b: "b = [x, y]" by (auto simp: length_Suc_conv numeral_2_eq_2)
  have "256 * unat x + unat y < 65536" using unat_bound8 [of x] unat_bound8 [of y] by simp
  then have "unat (Uint16 b) = 256 * unat x + unat y"
    unfolding b Uint16_def by (subst unat_word_of_nat_small) simp_all
  moreover have "unat y < 256" using unat_bound8 [of y] by simp
  ultimately show ?thesis by (simp add: b)
qed

lemmas addrTypes = addrTypeFQDN_def addrTypeIPv4_def addrTypeIPv6_def

lemma readAddr_Inr_iff:
  "readAddr c t = (c', Inr host) \<longleftrightarrow>
     (\<exists>a. saddrOk a \<and> t # cn_in c = saddrBytes a @ cn_in c' \<and> host = saddrHost a \<and> sameOut c c')"
proof
  assume r: "readAddr c t = (c', Inr host)"
  consider "t = addrTypeIPv4" | "t = addrTypeFQDN" | "t = addrTypeIPv6"
    using r by (auto simp: readAddr_def split: if_splits)
  then show "\<exists>a. saddrOk a \<and> t # cn_in c = saddrBytes a @ cn_in c' \<and> host = saddrHost a \<and> sameOut c c'"
  proof cases
    case 1
    with r obtain buf where "ReadFull c 4 = (c', Inr buf)" "host = IPString buf"
      by (auto simp: readAddr_def split: prod.splits sum.splits)
    with 1 show ?thesis by (intro exI [of _ "SV4 buf"]) (simp add: ReadFull_Inr_iff)
  next
    case 2
    with r obtain c1 lb d where "ReadFull c 1 = (c1, Inr lb)" "ReadFull c1 (unat (hd lb)) = (c', Inr d)" "host = string_of d"
      by (auto simp: readAddr_def addrTypes split: prod.splits sum.splits)
    note rr = this [unfolded ReadFull_Inr_iff]
    then obtain x where x: "lb = [x]" by (auto simp: length_Suc_conv)
    have "word_of_nat (length d) = x" "length d < 256" using rr x unat_bound8 [of x] by simp_all
    then show ?thesis using rr x 2 by (intro exI [of _ "SName d"]) (auto simp: sameOut_def)
  next
    case 3
    with r obtain buf where "ReadFull c 16 = (c', Inr buf)" "host = IPString buf"
      by (auto simp: readAddr_def addrTypes split: prod.splits sum.splits)
    with 3 show ?thesis by (intro exI [of _ "SV6 buf"]) (simp add: ReadFull_Inr_iff)
  qed
next
  assume "\<exists>a. saddrOk a \<and> t # cn_in c = saddrBytes a @ cn_in c' \<and> host = saddrHost a \<and> sameOut c c'"
  then obtain a where a: "saddrOk a" "t # cn_in c = saddrBytes a @ cn_in c'" "host = saddrHost a" "sameOut c c'" by blast
  show "readAddr c t = (c', Inr host)"
  proof (cases a)
    case (SName n)
    with a have i: "cn_in c = [word_of_nat (length n)] @ n @ cn_in c'" "t = addrTypeFQDN" "length n < 256" by auto
    have "ReadFull c 1 = (c\<lparr>cn_in := n @ cn_in c'\<rparr>, Inr [word_of_nat (length n)])"
        "ReadFull (c\<lparr>cn_in := n @ cn_in c'\<rparr>) (unat (word_of_nat (length n) :: byte)) = (c', Inr n)"
      using i a(4) by (auto simp: ReadFull_Inr_iff sameOut_def unat_word_of_nat_length)
    then show ?thesis using i a SName by (simp add: readAddr_def addrTypes)
  next
    case (SV4 b)
    with a have "ReadFull c 4 = (c', Inr b)" by (simp add: ReadFull_Inr_iff)
    with a SV4 show ?thesis by (simp add: readAddr_def)
  next
    case (SV6 b)
    with a have "ReadFull c 16 = (c', Inr b)" by (simp add: ReadFull_Inr_iff)
    with a SV6 show ?thesis by (simp add: readAddr_def addrTypes)
  qed
qed

section \<open>The handshake\<close>

lemma connWrite_None_iff:
  "connWrite c d = (c', None) \<longleftrightarrow> (cn_writeErrs c = [] \<or> hd (cn_writeErrs c) = None)
     \<and> c' = c\<lparr>cn_out := cn_out c @ d, cn_writeErrs := tl (cn_writeErrs c)\<rparr>"
  by (auto simp: connWrite_def split: list.splits option.splits)

text \<open>A successful handshake, step by step.\<close>

lemma Handshake_Inr_steps:
  "Handshake c = (c', Inr target) \<longleftrightarrow>
     (\<exists>c1 h c2 ms c3 c4 req c5 host pb. ReadFull c 2 = (c1, Inr h) \<and> h ! 0 = version
        \<and> ReadFull c1 (unat (h ! 1)) = (c2, Inr ms) \<and> authNone \<in> set ms
        \<and> connWrite c2 [version, authNone] = (c3, None)
        \<and> ReadFull c3 4 = (c4, Inr req) \<and> req ! 0 = version \<and> req ! 1 = cmdConnect
        \<and> readAddr c4 (req ! 3) = (c5, Inr host) \<and> ReadFull c5 2 = (c', Inr pb)
        \<and> target = JoinHostPort host (FormatNat (unat (Uint16 pb))))"
  by (auto simp: Handshake_def split: prod.splits sum.splits if_splits option.splits)

lemma Handshake_InrI:
  assumes "ReadFull c 2 = (c1, Inr [version, n])" "ReadFull c1 (unat n) = (c2, Inr ms)" "authNone \<in> set ms"
    and "connWrite c2 [version, authNone] = (c3, None)" "ReadFull c3 4 = (c4, Inr [version, cmdConnect, rsv, t])"
    and "readAddr c4 t = (c5, Inr host)" "ReadFull c5 2 = (c', Inr pb)"
  shows "Handshake c = (c', Inr (JoinHostPort host (FormatNat (unat (Uint16 pb)))))"
  by (simp add: Handshake_def assms)

lemma Handshake_sound:
  assumes "Handshake c = (c', Inr target)"
  shows "\<exists>methods rsv a port. length methods < 256 \<and> authNone \<in> set methods \<and> saddrOk a
        \<and> cn_in c = greeting methods @ request rsv a port @ cn_in c'
        \<and> (cn_writeErrs c = [] \<or> hd (cn_writeErrs c) = None)
        \<and> cn_out c' = cn_out c @ [version, authNone] \<and> cn_writeErrs c' = tl (cn_writeErrs c) \<and> cn_readErr c' = cn_readErr c
        \<and> target = JoinHostPort (saddrHost a) (FormatNat (unat port))"
proof -
  obtain c1 h c2 ms c3 c4 req c5 host pb where s: "ReadFull c 2 = (c1, Inr h)" "h ! 0 = version"
      "ReadFull c1 (unat (h ! 1)) = (c2, Inr ms)" "authNone \<in> set ms" "connWrite c2 [version, authNone] = (c3, None)"
      "ReadFull c3 4 = (c4, Inr req)" "req ! 0 = version" "req ! 1 = cmdConnect"
      "readAddr c4 (req ! 3) = (c5, Inr host)" "ReadFull c5 2 = (c', Inr pb)"
      "target = JoinHostPort host (FormatNat (unat (Uint16 pb)))"
    using assms unfolding Handshake_Inr_steps by blast
  note r = s(1,3,6,10) [unfolded ReadFull_Inr_iff] s(5) [unfolded connWrite_None_iff]
  obtain a where a: "saddrOk a" "req ! 3 # cn_in c4 = saddrBytes a @ cn_in c5" "host = saddrHost a" "sameOut c4 c5"
    using s(9) unfolding readAddr_Inr_iff by blast
  obtain p where p: "pb = [word_of_nat (unat (p :: 16 word) div 256), word_of_nat (unat p mod 256)]" "Uint16 pb = p"
    using Uint16_bytes r(4) by blast
  obtain n where h: "h = [version, n]" using r(1) s(2) by (auto simp: length_Suc_conv numeral_2_eq_2)
  obtain rsv t where req: "req = [version, cmdConnect, rsv, t]"
    using r(3) s(7,8) by (auto simp: length_Suc_conv numeral_eq_Suc)
  have lm: "length ms < 256" "n = word_of_nat (length ms)" using r(2) h unat_bound8 [of n] by auto
  have t: "t # cn_in c4 = saddrBytes a @ cn_in c5" using a(2) req by simp
  have "cn_in c = greeting ms @ [version, cmdConnect, rsv] @ (t # cn_in c4)"
  proof -
    have "cn_in c = h @ cn_in c1" "cn_in c1 = ms @ cn_in c2" "cn_in c3 = req @ cn_in c4" "cn_in c3 = cn_in c2"
      using r by simp_all
    then show ?thesis unfolding greeting_def h req lm(2) by simp
  qed
  then have i: "cn_in c = greeting ms @ request rsv a p @ cn_in c'"
    unfolding t using r(4) p(1) by (simp add: request_def)
  have so: "sameOut c c1" "sameOut c1 c2" "sameOut c3 c4" "sameOut c4 c5" "sameOut c5 c'" using r a(4) by blast+
  then have "cn_out c' = cn_out c @ [version, authNone] \<and> cn_writeErrs c' = tl (cn_writeErrs c) \<and> cn_readErr c' = cn_readErr c
      \<and> (cn_writeErrs c = [] \<or> hd (cn_writeErrs c) = None)"
    using r(5) by (simp add: sameOut_def)
  then show ?thesis using lm(1) s(4,11) a(1,3) i p(2) by blast
qed

lemma Handshake_complete:
  assumes "length methods < 256" "authNone \<in> set methods" "saddrOk a"
    and i: "cn_in c = greeting methods @ request rsv a port @ cn_in c'"
    and w: "cn_writeErrs c = [] \<or> hd (cn_writeErrs c) = None"
    and o': "cn_out c' = cn_out c @ [version, authNone]" "cn_writeErrs c' = tl (cn_writeErrs c)" "cn_readErr c' = cn_readErr c"
  shows "Handshake c = (c', Inr (JoinHostPort (saddrHost a) (FormatNat (unat port))))"
proof -
  define pb where "pb = [word_of_nat (unat port div 256) :: byte, word_of_nat (unat port mod 256)]"
  define c1 where "c1 = c\<lparr>cn_in := methods @ request rsv a port @ cn_in c'\<rparr>"
  define c2 where "c2 = c1\<lparr>cn_in := request rsv a port @ cn_in c'\<rparr>"
  define c3 where "c3 = c2\<lparr>cn_out := cn_out c2 @ [version, authNone], cn_writeErrs := tl (cn_writeErrs c2)\<rparr>"
  obtain t as where t: "saddrBytes a = t # as" by (cases a) auto
  define c4 where "c4 = c3\<lparr>cn_in := as @ pb @ cn_in c'\<rparr>"
  define c5 where "c5 = c4\<lparr>cn_in := pb @ cn_in c'\<rparr>"
  have "Handshake c = (c', Inr (JoinHostPort (saddrHost a) (FormatNat (unat (Uint16 pb)))))"
  proof (rule Handshake_InrI)
    show "ReadFull c 2 = (c1, Inr [version, word_of_nat (length methods)])"
      using i by (simp add: ReadFull_Inr_iff c1_def sameOut_def greeting_def)
    show "ReadFull c1 (unat (word_of_nat (length methods) :: byte)) = (c2, Inr methods)"
      using assms(1) by (simp add: ReadFull_Inr_iff c1_def c2_def sameOut_def unat_word_of_nat_length)
    show "connWrite c2 [version, authNone] = (c3, None)"
      using w by (simp add: connWrite_None_iff c3_def c2_def c1_def)
    show "ReadFull c3 4 = (c4, Inr [version, cmdConnect, rsv, t])"
      by (simp add: ReadFull_Inr_iff c4_def c3_def c2_def c1_def sameOut_def request_def t pb_def)
    show "readAddr c4 t = (c5, Inr (saddrHost a))"
      unfolding readAddr_Inr_iff using assms(3) by (intro exI [of _ a]) (simp add: t c4_def c5_def sameOut_def)
    show "ReadFull c5 2 = (c', Inr pb)"
      using o' by (simp add: ReadFull_Inr_iff c5_def c4_def c3_def c2_def c1_def sameOut_def pb_def)
  qed (rule assms(2))
  then show ?thesis by (simp add: pb_def)
qed

text \<open>
  (C25) The handshake accepts exactly the SOCKS5 wire format: it returns a target if and only if
  the client sent a greeting that offers the no-authentication method followed by a CONNECT
  request for an IPv4 address, a domain name or an IPv6 address, and the method selection could be
  written.  The target is then that host and port, the selection \<open>05 00\<close> is all that was written,
  and not a byte behind the request has been consumed.
\<close>

theorem Handshake_accepts_iff:
  "Handshake c = (c', Inr target) \<longleftrightarrow>
     (\<exists>methods rsv a port. length methods < 256 \<and> authNone \<in> set methods \<and> saddrOk a
        \<and> cn_in c = greeting methods @ request rsv a port @ cn_in c'
        \<and> (cn_writeErrs c = [] \<or> hd (cn_writeErrs c) = None)
        \<and> cn_out c' = cn_out c @ [5, 0] \<and> cn_writeErrs c' = tl (cn_writeErrs c) \<and> cn_readErr c' = cn_readErr c
        \<and> target = JoinHostPort (saddrHost a) (FormatNat (unat port)))"
proof -
  have v: "[5, 0] = [version, authNone]" by (simp add: version_def authNone_def)
  show ?thesis unfolding v using Handshake_sound Handshake_complete by blast
qed

text \<open>What a failing handshake has written: nothing, the selection, or the refusal of all methods.\<close>

lemma connWrite_out: "cn_out (fst (connWrite c d)) = cn_out c \<or> cn_out (fst (connWrite c d)) = cn_out c @ d"
  by (auto simp: connWrite_def split: list.splits option.splits)

lemma ReadFull_out [simp]: "ReadFull c n = (c', r) \<Longrightarrow> cn_out c' = cn_out c"
  by (auto simp: ReadFull_def split: if_splits)

lemma readAddr_out [simp]: "readAddr c t = (c', r) \<Longrightarrow> cn_out c' = cn_out c"
  by (auto simp: readAddr_def split: if_splits prod.splits sum.splits)

text \<open>
  (C27) What a client sees of a failed handshake: a handshake that does not succeed has written
  nothing, the method selection, or the refusal \<open>05 FF\<close>; and the refusal is written only when the
  client did not offer the no-authentication method.
\<close>

theorem Handshake_failure_output:
  assumes "Handshake c = (c', Inl err)" and "cn_out c = []"
  shows "cn_out c' \<in> {[], [5, 0], [5, 0xFF]}
       \<and> (cn_out c' = [5, 0xFF] \<longrightarrow> err = ErrNoAcceptableMethod
            \<and> (\<exists>methods rest. cn_in c = greeting methods @ rest \<and> length methods < 256 \<and> 0 \<notin> set methods))"
proof -
  have v: "(5 :: byte) = version" "(0 :: byte) = authNone" "(0xFF :: byte) = authNoAccept"
    by (simp_all add: version_def authNone_def authNoAccept_def)
  show ?thesis
  proof (cases "\<exists>c1 h c2 ms. ReadFull c 2 = (c1, Inr h) \<and> h ! 0 = version \<and> ReadFull c1 (unat (h ! 1)) = (c2, Inr ms)")
    case False
    then have "cn_out c' = cn_out c"
      using assms(1) by (auto simp: Handshake_def split: prod.splits sum.splits if_splits)
    with assms(2) show ?thesis by simp
  next
    case True
    then obtain c1 h c2 ms where s: "ReadFull c 2 = (c1, Inr h)" "h ! 0 = version" "ReadFull c1 (unat (h ! 1)) = (c2, Inr ms)"
      by blast
    have o2: "cn_out c2 = []" using s(1,3) assms(2) by simp
    obtain n where h: "h = [version, n]" using s(1,2) by (auto simp: ReadFull_Inr_iff length_Suc_conv numeral_2_eq_2)
    have g: "cn_in c = greeting ms @ cn_in c2" "length ms < 256"
      using s(1,3) h unat_bound8 [of n] by (auto simp: ReadFull_Inr_iff greeting_def)
    show ?thesis
    proof (cases "authNone \<in> set ms")
      case True
      obtain c3 we where w: "connWrite c2 [version, authNone] = (c3, we)" by fastforce
      have "cn_out c' = cn_out c3"
        using assms(1) True s w by (auto simp: Handshake_def split: prod.splits sum.splits if_splits option.splits)
      with connWrite_out [of c2 "[version, authNone]"] w o2 show ?thesis
        by (auto simp: version_def authNone_def)
    next
      case False
      then have "c' = fst (connWrite c2 [version, authNoAccept])" "err = ErrNoAcceptableMethod"
        using assms(1) s by (auto simp: Handshake_def)
      with connWrite_out [of c2 "[version, authNoAccept]"] o2 g False show ?thesis
        unfolding v by auto
    qed
  qed
qed

theorem Handshake_failure_output_witness:
  "\<exists>c'. Handshake \<lparr>cn_in = [5, 1, 2], cn_readErr = Sentinel ''io.EOF'', cn_writeErrs = [], cn_out = []\<rparr>
       = (c', Inl ErrNoAcceptableMethod) \<and> cn_out c' = [5, 0xFF] \<and> cn_out c' \<in> {[], [5, 0], [5, 0xFF]}"
proof -
  let ?c = "\<lparr>cn_in = [5, 1, 2], cn_readErr = Sentinel ''io.EOF'', cn_writeErrs = [], cn_out = []\<rparr>"
  obtain c' where h: "Handshake ?c = (c', Inl ErrNoAcceptableMethod)" "cn_out c' = [5, 0xFF]"
    by (simp add: Handshake_def ReadFull_def version_def authNone_def authNoAccept_def connWrite_def numeral_2_eq_2)
  with Handshake_failure_output [OF h(1)] show ?thesis by simp
qed

end
