(* ===== verification/GoUrl.thy ===== *)
theory GoUrl
  imports GoNet
begin

text \<open>
  The functions of Go's \<open>net/url\<close> package that rtc2tcp calls: escaping, parsing into the parts of a
  URL, and printing.  Parsing follows Go 1.26, which rejects a second colon in a host that is not
  in brackets and brackets around anything but an IPv6 address.
\<close>

section \<open>Definitions\<close>

subsection \<open>Escaping\<close>

datatype encoding = encodePath | encodeHost | encodeZone | encodeUserPassword | encodeQueryComponent | encodeFragment

definition isAlnum :: "char \<Rightarrow> bool" where
  "isAlnum c \<longleftrightarrow> (97 \<le> ord c \<and> ord c \<le> 122) \<or> (65 \<le> ord c \<and> ord c \<le> 90) \<or> isDigit c"

definition shouldEscape :: "char \<Rightarrow> encoding \<Rightarrow> bool" where
  "shouldEscape c mode =
     (if isAlnum c then False
      else if mode \<in> {encodeHost, encodeZone} \<and> c \<in> set ''!$&()*+,;=:[]<>'' \<union> {CHR 0x27, CHR 0x22} then False
      else if c \<in> set ''-_.~'' then False
      else if c \<in> set ''$&+,/:;=?@'' then
        (case mode of
           encodePath \<Rightarrow> c = CHR ''?''
         | encodeUserPassword \<Rightarrow> c \<in> set ''@/?:''
         | encodeQueryComponent \<Rightarrow> True
         | encodeFragment \<Rightarrow> False
         | _ \<Rightarrow> True)
      else if mode = encodeFragment \<and> c \<in> set ''!()*'' then False
      else True)"

definition upperHexDigit :: "nat \<Rightarrow> char" where
  "upperHexDigit n = (if n < 10 then char_of (48 + n) else char_of (55 + n))"

definition escapeChar :: "encoding \<Rightarrow> char \<Rightarrow> string" where
  "escapeChar mode c =
     (if c = CHR '' '' \<and> mode = encodeQueryComponent then ''+''
      else if shouldEscape c mode then [CHR ''%'', upperHexDigit (ord c div 16), upperHexDigit (ord c mod 16)]
      else [c])"

definition escape :: "string \<Rightarrow> encoding \<Rightarrow> string" where
  "escape s mode = concat (map (escapeChar mode) s)"

definition hexPair :: "char \<Rightarrow> char \<Rightarrow> char option" where
  "hexPair a b =
     (case (hexVal a, hexVal b) of (Some x, Some y) \<Rightarrow> Some (char_of (16 * x + y)) | _ \<Rightarrow> None)"

text \<open>The restrictions on percent-encoding in hosts (RFC 3986) and IPv6 zones (RFC 6874).\<close>

definition hostEscapeOk :: "encoding \<Rightarrow> char \<Rightarrow> char \<Rightarrow> bool" where
  "hostEscapeOk mode a b \<longleftrightarrow>
     (mode = encodeHost \<and> (case hexVal a of Some x \<Rightarrow> x < 8 | None \<Rightarrow> False) \<longrightarrow> [a, b] = ''25'')
   \<and> (mode = encodeZone \<longrightarrow>
        [a, b] = ''25'' \<or> hexPair a b = Some (CHR '' '')
        \<or> (case hexPair a b of Some v \<Rightarrow> \<not> shouldEscape v encodeHost | None \<Rightarrow> False))"

fun unescape :: "encoding \<Rightarrow> string \<Rightarrow> string res" where
  "unescape mode [] = Inr []"
| "unescape mode (c # cs) =
     (if c = CHR ''%'' then
        (case cs of
           a # b # r \<Rightarrow>
             (case hexPair a b of
                Some v \<Rightarrow>
                  if hostEscapeOk mode a b
                  then (case unescape mode r of Inl e \<Rightarrow> Inl e | Inr t \<Rightarrow> Inr (v # t))
                  else Inl (Errorf ''invalid URL escape %q'' [[c, a, b]] [])
              | None \<Rightarrow> Inl (Errorf ''invalid URL escape %q'' [[c, a, b]] []))
         | _ \<Rightarrow> Inl (Errorf ''invalid URL escape %q'' [c # cs] []))
      else if c = CHR ''+'' then
        (case unescape mode cs of Inl e \<Rightarrow> Inl e
         | Inr t \<Rightarrow> Inr ((if mode = encodeQueryComponent then CHR '' '' else c) # t))
      else if mode \<in> {encodeHost, encodeZone} \<and> ord c < 128 \<and> shouldEscape c mode then
        Inl (Errorf ''invalid character %q in host name'' [[c]] [])
      else (case unescape mode cs of Inl e \<Rightarrow> Inl e | Inr t \<Rightarrow> Inr (c # t)))"

definition QueryUnescape :: "string \<Rightarrow> string res" where
  "QueryUnescape s = unescape encodeQueryComponent s"

subsection \<open>Parts of a URL\<close>

record userinfo =
  ui_username :: string
  ui_password :: "string option"

record URL =
  u_Scheme :: string
  u_Opaque :: string
  u_User :: "userinfo option"
  u_Host :: string
  u_Path :: string
  u_RawPath :: string
  u_OmitHost :: bool
  u_ForceQuery :: bool
  u_RawQuery :: string
  u_Fragment :: string
  u_RawFragment :: string

definition emptyURL :: URL where
  "emptyURL = \<lparr>u_Scheme = [], u_Opaque = [], u_User = None, u_Host = [], u_Path = [], u_RawPath = [], u_OmitHost = False,
     u_ForceQuery = False, u_RawQuery = [], u_Fragment = [], u_RawFragment = []\<rparr>"

definition UserPassword :: "string \<Rightarrow> string \<Rightarrow> userinfo" where
  "UserPassword username password = \<lparr>ui_username = username, ui_password = Some password\<rparr>"

definition UserinfoString :: "userinfo \<Rightarrow> string" where
  "UserinfoString u =
     (case ui_password u of
        None \<Rightarrow> escape (ui_username u) encodeUserPassword
      | Some p \<Rightarrow> escape (ui_username u) encodeUserPassword @ '':'' @ escape p encodeUserPassword)"

text \<open>\<open>strings.Cut\<close> at one byte: before, after, found.\<close>

definition CutByte :: "string \<Rightarrow> char \<Rightarrow> string \<times> string \<times> bool" where
  "CutByte s c =
     (case IndexByte s c of None \<Rightarrow> (s, [], False) | Some i \<Rightarrow> (take i s, drop (i + 1) s, True))"

subsection \<open>Parsing\<close>

fun getSchemeLoop :: "string \<Rightarrow> string \<Rightarrow> string \<Rightarrow> (string \<times> string) res" where
  "getSchemeLoop raw done [] = Inr ([], raw)"
| "getSchemeLoop raw done (c # cs) =
     (if (97 \<le> ord c \<and> ord c \<le> 122) \<or> (65 \<le> ord c \<and> ord c \<le> 90) then getSchemeLoop raw (done @ [c]) cs
      else if isDigit c \<or> c \<in> set ''+-.'' then (if done = [] then Inr ([], raw) else getSchemeLoop raw (done @ [c]) cs)
      else if c = CHR '':'' then (if done = [] then Inl (errors_New ''missing protocol scheme'') else Inr (done, cs))
      else Inr ([], raw))"

definition getScheme :: "string \<Rightarrow> (string \<times> string) res" where
  "getScheme raw = getSchemeLoop raw [] raw"

definition validOptionalPort :: "string \<Rightarrow> bool" where
  "validOptionalPort port \<longleftrightarrow> port = [] \<or> hd port = CHR '':'' \<and> list_all isDigit (tl port)"

definition validUserinfo :: "string \<Rightarrow> bool" where
  "validUserinfo s \<longleftrightarrow> list_all (\<lambda>c. isAlnum c \<or> c \<in> set ''-._:~!$&()*+,;=%@'' \<union> {CHR 0x27}) s"

text \<open>\<open>netip.ParseAddr\<close> accepts the text as an IPv6 address, with a zone or without.\<close>

definition isIPv6Literal :: "string \<Rightarrow> bool" where
  "isIPv6Literal s \<longleftrightarrow>
     find (\<lambda>c. c = CHR ''.'' \<or> c = CHR '':'' \<or> c = CHR ''%'') s = Some (CHR '':'')
   \<and> (case CutByte s CHR ''%'' of
        (a, zone, found) \<Rightarrow> parseIPv6 a \<noteq> None \<and> (found \<longrightarrow> zone \<noteq> []))"

definition splitZone :: "string \<Rightarrow> (string \<times> string) option" where
  "splitZone s = (case filter (\<lambda>i. startsWith ''%25'' (drop i s)) [0..<length s] of
     [] \<Rightarrow> None | i # _ \<Rightarrow> Some (take i s, drop i s))"

definition unescapeLiteral :: "string \<Rightarrow> string res" where
  "unescapeLiteral hostname =
     (case splitZone hostname of
        None \<Rightarrow> unescape encodeHost hostname
      | Some (h, z) \<Rightarrow>
          (case unescape encodeHost h of Inl e \<Rightarrow> Inl e
           | Inr h' \<Rightarrow> (case unescape encodeZone z of Inl e \<Rightarrow> Inl e | Inr z' \<Rightarrow> Inr (h' @ z'))))"

definition parseHost :: "string \<Rightarrow> string \<Rightarrow> string res" where
  "parseHost scheme host =
     (case LastIndexByte host CHR ''['' of
        Some (Suc _) \<Rightarrow> Inl (errors_New ''invalid IP-literal'')
      | Some 0 \<Rightarrow>
          (case LastIndexByte host CHR '']'' of
             None \<Rightarrow> Inl (errors_New ''missing bracket in host'')
           | Some i \<Rightarrow>
               (let colonPort = drop (i + 1) host; hostname = drop 1 (take i host) in
                if \<not> validOptionalPort colonPort then Inl (Errorf ''invalid port %q after host'' [colonPort] [])
                else (case unescape encodeHost colonPort of Inl e \<Rightarrow> Inl e
                  | Inr port' \<Rightarrow>
                      (case unescapeLiteral hostname of Inl e \<Rightarrow> Inl e
                       | Inr name' \<Rightarrow>
                           if \<not> isIPv6Literal name' then Inl (errors_New ''invalid host'')
                           else Inr (''['' @ name' @ '']'' @ port')))))
      | None \<Rightarrow>
          (case IndexByte host CHR '':'' of
             None \<Rightarrow> unescape encodeHost host
           | Some i \<Rightarrow>
               (let k = (if scheme = ''postgresql'' \<or> scheme = ''postgres''
                         then (case LastIndexByte host CHR '':'' of Some j \<Rightarrow> j | None \<Rightarrow> i) else i) in
                if \<not> validOptionalPort (drop k host) then Inl (Errorf ''invalid port %q after host'' [drop k host] [])
                else unescape encodeHost host)))"

definition parseAuthority :: "string \<Rightarrow> string \<Rightarrow> (userinfo option \<times> string) res" where
  "parseAuthority scheme authority =
     (case LastIndexByte authority CHR ''@'' of
        None \<Rightarrow> (case parseHost scheme authority of Inl e \<Rightarrow> Inl e | Inr h \<Rightarrow> Inr (None, h))
      | Some i \<Rightarrow>
          (case parseHost scheme (drop (i + 1) authority) of Inl e \<Rightarrow> Inl e
           | Inr h \<Rightarrow>
               (let userinfo = take i authority in
                if \<not> validUserinfo userinfo then Inl (errors_New ''net/url: invalid userinfo'')
                else (case CutByte userinfo CHR '':'' of
                  (name, pw, found) \<Rightarrow>
                    (case unescape encodeUserPassword name of Inl e \<Rightarrow> Inl e
                     | Inr name' \<Rightarrow>
                         if \<not> found then Inr (Some \<lparr>ui_username = name', ui_password = None\<rparr>, h)
                         else (case unescape encodeUserPassword pw of Inl e \<Rightarrow> Inl e
                               | Inr pw' \<Rightarrow> Inr (Some (UserPassword name' pw'), h)))))))"

definition setPath :: "URL \<Rightarrow> string \<Rightarrow> URL res" where
  "setPath u p =
     (case unescape encodePath p of
        Inl e \<Rightarrow> Inl e
      | Inr path \<Rightarrow> Inr (u\<lparr>u_Path := path, u_RawPath := (if escape path encodePath = p then [] else p)\<rparr>))"

definition setFragment :: "URL \<Rightarrow> string \<Rightarrow> URL res" where
  "setFragment u f =
     (case unescape encodeFragment f of
        Inl e \<Rightarrow> Inl e
      | Inr frag \<Rightarrow> Inr (u\<lparr>u_Fragment := frag, u_RawFragment := (if escape frag encodeFragment = f then [] else f)\<rparr>))"

definition stringContainsCTLByte :: "string \<Rightarrow> bool" where
  "stringContainsCTLByte s \<longleftrightarrow> list_ex (\<lambda>c. ord c < 32 \<or> ord c = 127) s"

definition splitQuery :: "string \<Rightarrow> bool \<times> string \<times> string" where
  "splitQuery rest =
     (if rest \<noteq> [] \<and> last rest = CHR ''?'' \<and> count_list rest CHR ''?'' = 1 then (True, butlast rest, [])
      else (case CutByte rest CHR ''?'' of (a, q, _) \<Rightarrow> (False, a, q)))"

text \<open>The unexported \<open>parse\<close>, never called for a request line here.\<close>

definition parse_url :: "unicode \<Rightarrow> string \<Rightarrow> URL res" where
  "parse_url U rawURL =
     (if stringContainsCTLByte rawURL then Inl (errors_New ''net/url: invalid control character in URL'')
      else if rawURL = ''*'' then Inr (emptyURL\<lparr>u_Path := ''*''\<rparr>)
      else (case getScheme rawURL of Inl e \<Rightarrow> Inl e
        | Inr (scheme0, rest0) \<Rightarrow>
            (let scheme = ToLower U scheme0; (force, rest, query) = splitQuery rest0;
                 u = emptyURL\<lparr>u_Scheme := scheme, u_ForceQuery := force, u_RawQuery := query\<rparr> in
             if \<not> startsWith ''/'' rest \<and> scheme \<noteq> [] then Inr (u\<lparr>u_Opaque := rest\<rparr>)
             else if \<not> startsWith ''/'' rest \<and> CHR '':'' \<in> set (fst (CutByte rest CHR ''/'')) then
               Inl (errors_New ''first path segment in URL cannot contain colon'')
             else if (scheme \<noteq> [] \<or> \<not> startsWith ''///'' rest) \<and> startsWith ''//'' rest then
               (let (authority, path) =
                      (case IndexByte (drop 2 rest) CHR ''/'' of
                         None \<Rightarrow> (drop 2 rest, [])
                       | Some i \<Rightarrow> (take i (drop 2 rest), drop i (drop 2 rest))) in
                case parseAuthority scheme authority of Inl e \<Rightarrow> Inl e
                | Inr (user, host) \<Rightarrow> setPath (u\<lparr>u_User := user, u_Host := host\<rparr>) path)
             else setPath (u\<lparr>u_OmitHost := (scheme \<noteq> [] \<and> startsWith ''/'' rest)\<rparr>) rest)))"

definition url_Parse :: "unicode \<Rightarrow> string \<Rightarrow> URL res" where
  "url_Parse U rawURL =
     (case CutByte rawURL CHR ''#'' of (r, frag, _) \<Rightarrow>
        (case parse_url U r of
           Inl e \<Rightarrow> Inl (Errorf ''parse %q: %w'' [r] [e])
         | Inr u \<Rightarrow>
             if frag = [] then Inr u
             else (case setFragment u frag of Inl e \<Rightarrow> Inl (Errorf ''parse %q: %w'' [rawURL] [e]) | Inr u' \<Rightarrow> Inr u')))"

subsection \<open>Accessors and printing\<close>

definition splitHostPort :: "string \<Rightarrow> string \<times> string" where
  "splitHostPort hostPort =
     (let (host, port) =
            (case LastIndexByte hostPort CHR '':'' of
               None \<Rightarrow> (hostPort, [])
             | Some i \<Rightarrow> if validOptionalPort (drop i hostPort) then (take i hostPort, drop (i + 1) hostPort)
                         else (hostPort, [])) in
      (if host \<noteq> [] \<and> hd host = CHR ''['' \<and> last host = CHR '']'' then butlast (tl host) else host, port))"

definition Hostname :: "URL \<Rightarrow> string" where
  "Hostname u = fst (splitHostPort (u_Host u))"

definition url_Port :: "URL \<Rightarrow> string" where
  "url_Port u = snd (splitHostPort (u_Host u))"

text \<open>\<open>validEncoded\<close>: whether a raw path or fragment may be printed as it is.\<close>

definition validEncoded :: "string \<Rightarrow> encoding \<Rightarrow> bool" where
  "validEncoded s mode \<longleftrightarrow>
     list_all (\<lambda>c. c \<in> set ''!$&()*+,;=:@[]%'' \<union> {CHR 0x27} \<or> \<not> shouldEscape c mode) s"

definition EscapedPath :: "URL \<Rightarrow> string" where
  "EscapedPath u =
     (if u_RawPath u \<noteq> [] \<and> validEncoded (u_RawPath u) encodePath
         \<and> unescape encodePath (u_RawPath u) = Inr (u_Path u) then u_RawPath u
      else if u_Path u = ''*'' then ''*''
      else escape (u_Path u) encodePath)"

definition EscapedFragment :: "URL \<Rightarrow> string" where
  "EscapedFragment u =
     (if u_RawFragment u \<noteq> [] \<and> validEncoded (u_RawFragment u) encodeFragment
         \<and> unescape encodeFragment (u_RawFragment u) = Inr (u_Fragment u) then u_RawFragment u
      else escape (u_Fragment u) encodeFragment)"

definition URLString :: "URL \<Rightarrow> string" where
  "URLString u =
     (if u_Scheme u \<noteq> [] then u_Scheme u @ '':'' else [])
     @ (if u_Opaque u \<noteq> [] then u_Opaque u
        else
          (let authority =
                 (if (u_Scheme u \<noteq> [] \<or> u_Host u \<noteq> [] \<or> u_User u \<noteq> None)
                     \<and> \<not> (u_OmitHost u \<and> u_Host u = [] \<and> u_User u = None)
                  then (if u_Host u \<noteq> [] \<or> u_Path u \<noteq> [] \<or> u_User u \<noteq> None then ''//'' else [])
                       @ (case u_User u of None \<Rightarrow> [] | Some ui \<Rightarrow> UserinfoString ui @ ''@'')
                       @ (if u_Host u \<noteq> [] then escape (u_Host u) encodeHost else [])
                  else []);
               path = EscapedPath u in
           authority
           @ (if path \<noteq> [] \<and> hd path \<noteq> CHR ''/'' \<and> u_Host u \<noteq> [] then ''/''
              else if u_Scheme u = [] \<and> authority = []
                      \<and> CHR '':'' \<in> set (fst (CutByte path CHR ''/'')) then ''./'' else [])
           @ path))
     @ (if u_ForceQuery u \<or> u_RawQuery u \<noteq> [] then ''?'' @ u_RawQuery u else [])
     @ (if u_Fragment u \<noteq> [] then ''#'' @ EscapedFragment u else [])"

section \<open>Lemmas\<close>

lemma ord_div16: "ord c div 16 < 16"
  using nat_of_char_less_256 [of c] by (simp add: less_mult_imp_div_less)

lemma hexVal_upper [simp]: "n < 16 \<Longrightarrow> hexVal (upperHexDigit n) = Some n"
  by (auto simp: hexVal_def upperHexDigit_def)

lemma hexPair_upper [simp]: "hexPair (upperHexDigit (ord c div 16)) (upperHexDigit (ord c mod 16)) = Some c"
  by (simp add: hexPair_def ord_div16)

lemma isAlnum_plain: "isAlnum c \<Longrightarrow> c \<notin> set ''%+:@/?#[]'' \<and> 32 < ord c \<and> ord c < 127"
  by (auto simp: isAlnum_def isDigit_def)

lemma unescape_plain:
  assumes "mode \<notin> {encodeHost, encodeZone} \<or> (\<forall>c \<in> set s. \<not> shouldEscape c mode)"
    and "CHR ''%'' \<notin> set s" "CHR ''+'' \<notin> set s"
  shows "unescape mode s = Inr s"
  using assms by (induction s) auto

lemma escape_Nil [simp]: "escape [] m = []"
  by (simp add: escape_def)

lemma escape_Cons: "escape (c # s) m = escapeChar m c @ escape s m"
  by (simp add: escape_def)

lemma userPassword_keep:
  "\<not> shouldEscape c encodeUserPassword \<longleftrightarrow> isAlnum c \<or> c \<in> set ''-_.~$&+,;=''"
  by (auto simp: shouldEscape_def)

lemma unescape_escape [simp]: "unescape encodeUserPassword (escape s encodeUserPassword) = Inr s"
proof (induction s)
  case (Cons c s)
  show ?case
  proof (cases "shouldEscape c encodeUserPassword")
    case True
    with Cons show ?thesis by (simp add: escape_Cons escapeChar_def hostEscapeOk_def)
  next
    case False
    then have "c \<noteq> CHR ''%''" by (auto simp: userPassword_keep dest: isAlnum_plain)
    with False Cons show ?thesis by (simp add: escape_Cons escapeChar_def)
  qed
qed simp

text \<open>The bytes of an escaped user name or password.\<close>

lemma upperHexDigit_alnum: "n < 16 \<Longrightarrow> isAlnum (upperHexDigit n)"
  by (auto simp: upperHexDigit_def isAlnum_def isDigit_def)

lemma escapeChar_chars:
  assumes "c \<in> set (escapeChar encodeUserPassword d)"
  shows "isAlnum c \<or> c \<in> set ''-_.~$&+,;=%''"
proof (cases "shouldEscape d encodeUserPassword")
  case True
  then have "c = CHR ''%'' \<or> c = upperHexDigit (ord d div 16) \<or> c = upperHexDigit (ord d mod 16)"
    using assms by (simp add: escapeChar_def)
  then show ?thesis using upperHexDigit_alnum [OF ord_div16 [of d]] upperHexDigit_alnum [of "ord d mod 16"] by auto
next
  case False
  then have "c = d" using assms by (simp add: escapeChar_def)
  with False show ?thesis unfolding userPassword_keep by auto
qed

lemma escape_chars: "c \<in> set (escape s encodeUserPassword) \<Longrightarrow> isAlnum c \<or> c \<in> set ''-_.~$&+,;=%''"
  using escapeChar_chars unfolding escape_def by (auto simp del: list.set)

lemma escape_separators:
  "CHR '':'' \<notin> set (escape s encodeUserPassword)" "CHR ''@'' \<notin> set (escape s encodeUserPassword)"
  "CHR ''/'' \<notin> set (escape s encodeUserPassword)" "CHR ''?'' \<notin> set (escape s encodeUserPassword)"
  "CHR ''#'' \<notin> set (escape s encodeUserPassword)"
  by (auto dest!: escape_chars dest: isAlnum_plain)

lemma escape_nonctl: "c \<in> set (escape s encodeUserPassword) \<Longrightarrow> 32 < ord c \<and> ord c < 127"
  by (auto dest!: escape_chars dest: isAlnum_plain)

lemma escape_validUserinfo: "validUserinfo (escape s encodeUserPassword)"
  by (auto simp: validUserinfo_def list_all_iff dest!: escape_chars)

lemma CutByte_append: "c \<notin> set s \<Longrightarrow> CutByte (s @ c # t) c = (s, t, True)"
  by (simp add: CutByte_def IndexByte_append)

lemma CutByte_none: "c \<notin> set s \<Longrightarrow> CutByte s c = (s, [], False)"
  by (simp add: CutByte_def flip: IndexByte_None)

end
