(* ===== verification/Connection.thy ===== *)
theory Connection
  imports GoUrl GoBase64 Config
begin

text \<open>
  Connection strings of \<^verbatim>\<open>internal/config/connection.go\<close>: parsing, formatting and fresh tokens.  What
  the system's random source returns is an argument.
\<close>

section \<open>Definitions\<close>

definition ConnectionScheme :: string where
  "ConnectionScheme = ''rtc2tcp''"

record ConnectionString =
  cs_RendezvousToken :: string
  cs_PairingSecret :: string
  cs_BrokerURL :: string

definition isLoopbackHost :: "unicode \<Rightarrow> string \<Rightarrow> bool" where
  "isLoopbackHost U host \<longleftrightarrow>
     ToLower U (TrimSpace host) \<in> {''localhost'', ''127.0.0.1'', ''::1'', ''[::1]''}"

definition ParseConnectionString :: "unicode \<Rightarrow> string \<Rightarrow> ConnectionString res" where
  "ParseConnectionString U raw0 =
     (let raw = TrimSpace raw0 in
      if raw = [] then Inl (errors_New ''connection string is empty'')
      else (case url_Parse U raw of
        Inl err \<Rightarrow> Inl (Errorf ''parse connection string: %w'' [] [err])
      | Inr u \<Rightarrow>
      if u_Scheme u \<noteq> ConnectionScheme then
        Inl (Errorf ''connection string scheme must be %q, got %q'' [ConnectionScheme, u_Scheme u] [])
      else if u_Host u = [] then Inl (errors_New ''connection string is missing the broker host'')
      else (case u_User u of
        None \<Rightarrow> Inl (errors_New ''connection string is missing the rendezvous token and pairing secret'')
      | Some user \<Rightarrow>
      (case QueryUnescape (ui_username user) of
        Inl err \<Rightarrow> Inl (Errorf ''decode rendezvous token: %w'' [] [err])
      | Inr token \<Rightarrow>
      if token = [] then Inl (errors_New ''connection string is missing the rendezvous token'')
      else (case ui_password user of
        None \<Rightarrow> Inl (errors_New ''connection string is missing the pairing secret'')
      | Some rawSecret \<Rightarrow>
      if rawSecret = [] then Inl (errors_New ''connection string is missing the pairing secret'')
      else (case QueryUnescape rawSecret of
        Inl err \<Rightarrow> Inl (Errorf ''decode pairing secret: %w'' [] [err])
      | Inr secret \<Rightarrow>
          (let scheme = (if isLoopbackHost U (Hostname u) then ''http'' else ''https'');
               path = (if u_Path u = ''/'' then [] else u_Path u) in
           Inr \<lparr>cs_RendezvousToken = token, cs_PairingSecret = secret,
                cs_BrokerURL = scheme @ ''://'' @ u_Host u @ path\<rparr>)))))))"

definition Format :: "unicode \<Rightarrow> ConnectionString \<Rightarrow> string res" where
  "Format U c =
     (if TrimSpace (cs_RendezvousToken c) = [] then Inl (errors_New ''rendezvous token is required'')
      else if TrimSpace (cs_PairingSecret c) = [] then Inl (errors_New ''pairing secret is required'')
      else if TrimSpace (cs_BrokerURL c) = [] then Inl (errors_New ''broker URL is required'')
      else (case url_Parse U (cs_BrokerURL c) of
        Inl err \<Rightarrow> Inl (Errorf ''parse broker URL: %w'' [] [err])
      | Inr u \<Rightarrow>
          if u_Host u = [] then Inl (Errorf ''broker URL %q has no host'' [cs_BrokerURL c] [])
          else
            (let path = (if u_Path u = ''/ws'' \<or> u_Path u = ''/'' then [] else u_Path u);
                 userInfo = UserPassword (cs_RendezvousToken c) (cs_PairingSecret c) in
             Inr (ConnectionScheme @ ''://'' @ UserinfoString userInfo @ ''@'' @ u_Host u @ path))))"

definition RandomToken :: "bytes res \<Rightarrow> string res" where
  "RandomToken rnd =
     (case rnd of
        Inl err \<Rightarrow> Inl (Errorf ''read random: %w'' [] [err])
      | Inr buf \<Rightarrow> Inr (EncodeToString buf))"

section \<open>Specifications\<close>

text \<open>A host name or IPv4 address with an optional port, as brokers are usually named.\<close>

definition plainHost :: "string \<Rightarrow> string \<Rightarrow> bool" where
  "plainHost name port \<longleftrightarrow>
     name \<noteq> [] \<and> list_all (\<lambda>c. isAlnum c \<or> c = CHR ''-'' \<or> c = CHR ''.'') name
   \<and> (port = [] \<or> (\<exists>ds. port = CHR '':'' # ds \<and> list_all isDigit ds))"

text \<open>
  The same with IPv6 addresses in brackets: the text of a host in a URL, with the name and the port
  it stands for.
\<close>

definition ipv6Host :: "string \<Rightarrow> bool" where
  "ipv6Host name \<longleftrightarrow> isIPv6Literal name \<and> list_all (\<lambda>c. isAlnum c \<or> c = CHR '':'' \<or> c = CHR ''.'') name
     \<and> 2 \<le> count_list name CHR '':''"

definition portText :: "string \<Rightarrow> bool" where
  "portText port \<longleftrightarrow> port = [] \<or> hd port = CHR '':'' \<and> list_all isDigit (tl port)"

definition urlHost :: "string \<Rightarrow> string \<Rightarrow> string \<Rightarrow> bool" where
  "urlHost h name port \<longleftrightarrow>
     plainHost name port \<and> h = name @ port \<or> ipv6Host name \<and> portText port \<and> h = CHR ''['' # name @ CHR '']'' # port"

section \<open>Parsing\<close>

lemma portText_cases: "portText port \<Longrightarrow> port = [] \<or> (\<exists>ds. port = CHR '':'' # ds \<and> list_all isDigit ds)"
  by (cases port) (auto simp: portText_def)

lemma plainHost_portText: "plainHost name port \<Longrightarrow> portText port"
  by (auto simp: plainHost_def portText_def)

lemma plainHost_urlHost: "plainHost name port \<Longrightarrow> urlHost (name @ port) name port"
  by (simp add: urlHost_def)

lemma plainHost_chars:
  assumes "plainHost name port" "c \<in> set (name @ port)"
  shows "c \<notin> set ''%+@/?#[]'' \<and> 32 < ord c \<and> ord c < 127 \<and> \<not> shouldEscape c encodeHost"
proof -
  have "isAlnum c \<or> c \<in> set ''-.:''"
    using assms by (auto simp: plainHost_def list_all_iff isAlnum_def)
  then show ?thesis using isAlnum_plain [of c] by (auto simp: shouldEscape_def)
qed

lemma ipv6Host_chars:
  assumes "ipv6Host name" "portText port" "c \<in> set (name @ port)"
  shows "c \<notin> set ''%+@/?#[]'' \<and> 32 < ord c \<and> ord c < 127 \<and> \<not> shouldEscape c encodeHost"
proof -
  have "isAlnum c \<or> c \<in> set ''.:''"
    using assms portText_cases [OF assms(2)] by (auto simp: ipv6Host_def list_all_iff isAlnum_def)
  then show ?thesis using isAlnum_plain [of c] by (auto simp: shouldEscape_def)
qed

lemma urlHost_chars:
  assumes "urlHost h name port" "c \<in> set h"
  shows "c \<notin> set ''%+@/?#'' \<and> 32 < ord c \<and> ord c < 127 \<and> \<not> shouldEscape c encodeHost"
proof (cases "c \<in> set (name @ port)")
  case True
  then show ?thesis
    using assms(1) plainHost_chars [of name port c] ipv6Host_chars [of name port c] by (auto simp: urlHost_def)
next
  case False
  then have "c = CHR ''['' \<or> c = CHR '']''" using assms by (auto simp: urlHost_def)
  then show ?thesis by (auto simp: shouldEscape_def)
qed

lemma urlHost_not_Nil: "urlHost h name port \<Longrightarrow> h \<noteq> []"
  by (auto simp: urlHost_def plainHost_def)

lemma urlHost_cases:
  assumes "urlHost h name port"
  obtains (plain) "plainHost name port" "h = name @ port" "name \<noteq> []" "CHR '':'' \<notin> set name"
  | (ipv6) "ipv6Host name" "portText port" "h = CHR ''['' # name @ CHR '']'' # port" "CHR '':'' \<in> set name"
proof (cases "plainHost name port \<and> h = name @ port")
  case True
  moreover from True have "name \<noteq> []" "CHR '':'' \<notin> set name"
    by (auto simp: plainHost_def list_all_iff isAlnum_def isDigit_def)
  ultimately show ?thesis using plain by blast
next
  case False
  then have i: "ipv6Host name" "portText port" "h = CHR ''['' # name @ CHR '']'' # port"
    using assms by (auto simp: urlHost_def)
  moreover have "CHR '':'' \<in> set name"
    by (rule ccontr) (use i(1) count_notin [of "CHR '':''" name] in \<open>simp add: ipv6Host_def\<close>)
  ultimately show ?thesis by (rule ipv6)
qed

lemma urlHost_port:
  assumes "urlHost h name port"
  shows "port = [] \<or> port = CHR '':'' # drop 1 port" "list_all isDigit (drop 1 port)" "CHR '':'' \<notin> set (drop 1 port)"
proof -
  have "portText port" using assms plainHost_portText by (auto simp: urlHost_def)
  from portText_cases [OF this] show d: "list_all isDigit (drop 1 port)" and "port = [] \<or> port = CHR '':'' # drop 1 port"
    by auto
  have "\<not> isDigit CHR '':''" by (simp add: isDigit_def)
  with d show "CHR '':'' \<notin> set (drop 1 port)" unfolding list_all_iff by blast
qed

lemma urlHost_visible:
  assumes "urlHost h name port" "c \<in> set (h @ name @ port)"
  shows "33 \<le> ord c \<and> ord c \<le> 126"
proof -
  have "c \<in> set h" using assms by (auto simp: urlHost_def)
  from urlHost_chars [OF assms(1) this] show ?thesis by auto
qed

lemma urlHost_name:
  assumes "urlHost h name port" "c \<in> set name"
  shows "c \<noteq> CHR ''['' \<and> c \<noteq> CHR '']''"
  using assms(1)
proof (cases rule: urlHost_cases)
  case plain
  then show ?thesis using plainHost_chars [of name port c] assms(2) by auto
next
  case ipv6
  then show ?thesis using ipv6Host_chars [of name port c] assms(2) by auto
qed

lemma parseHost_plain:
  assumes "plainHost name port"
  shows "parseHost scheme (name @ port) = Inr (name @ port)"
proof -
  have un: "unescape encodeHost (name @ port) = Inr (name @ port)"
    by (rule unescape_plain) (use plainHost_chars [OF assms] in force)+
  have nb: "CHR ''['' \<notin> set (name @ port)" using plainHost_chars [OF assms, of "CHR ''[''"] by auto
  have nc: "CHR '':'' \<notin> set name" using assms by (auto simp: plainHost_def list_all_iff isAlnum_def isDigit_def)
  show ?thesis
  proof (cases port)
    case Nil
    with nc nb un show ?thesis by (simp add: parseHost_def)
  next
    case (Cons p ds)
    with assms have p: "p = CHR '':''" "list_all isDigit ds" by (auto simp: plainHost_def)
    then have "CHR '':'' \<notin> set ds" by (auto simp: list_all_iff isDigit_def)
    then have "IndexByte (name @ port) CHR '':'' = Some (length name)" "LastIndexByte (name @ port) CHR '':'' = Some (length name)"
      using nc Cons p by (simp_all add: IndexByte_append LastIndexByte_append)
    with nb un Cons p show ?thesis by (simp add: parseHost_def validOptionalPort_def)
  qed
qed

lemma splitZone_none: "CHR ''%'' \<notin> set s \<Longrightarrow> splitZone s = None"
proof -
  assume n: "CHR ''%'' \<notin> set s"
  have "\<not> startsWith ''%25'' (drop i s)" for i
  proof
    assume "startsWith ''%25'' (drop i s)"
    then have "CHR ''%'' \<in> set (drop i s)" by (auto simp: startsWith_append)
    with n show False by (meson in_set_dropD)
  qed
  then show ?thesis by (simp add: splitZone_def)
qed

lemma parseHost_ipv6:
  assumes "ipv6Host name" "portText port"
  shows "parseHost scheme (CHR ''['' # name @ CHR '']'' # port) = Inr (CHR ''['' # name @ CHR '']'' # port)"
proof -
  have un: "unescape encodeHost name = Inr name" "unescape encodeHost port = Inr port"
    by (rule unescape_plain; use ipv6Host_chars [OF assms] in force)+
  have b: "CHR ''['' \<notin> set (name @ port)" "CHR '']'' \<notin> set (name @ port)" "CHR ''%'' \<notin> set name"
    using ipv6Host_chars [OF assms, of "CHR ''[''"] ipv6Host_chars [OF assms, of "CHR '']''"]
      ipv6Host_chars [OF assms, of "CHR ''%''"] by auto
  have l: "LastIndexByte (CHR ''['' # name @ CHR '']'' # port) CHR ''['' = Some 0"
    using LastIndexByte_append [of "CHR ''[''" "name @ CHR '']'' # port" "[]"] b(1) by simp
  have r: "LastIndexByte (CHR ''['' # name @ CHR '']'' # port) CHR '']'' = Some (Suc (length name))"
    using LastIndexByte_append [of "CHR '']''" port "CHR ''['' # name"] b(2) by simp
  have v: "validOptionalPort port" "isIPv6Literal name"
    using assms by (auto simp: validOptionalPort_def portText_def ipv6Host_def)
  show ?thesis unfolding parseHost_def l r by (simp add: un v unescapeLiteral_def splitZone_none [OF b(3)])
qed

lemma parseHost_urlHost: "urlHost h name port \<Longrightarrow> parseHost scheme h = Inr h"
  using parseHost_plain parseHost_ipv6 by (auto simp: urlHost_def)

lemma splitHostPort_plain:
  assumes "plainHost name port"
  shows "splitHostPort (name @ port) = (name, drop 1 port)"
proof -
  have nb: "hd name \<noteq> CHR ''[''" using plainHost_chars [OF assms, of "hd name"] assms by (auto simp: plainHost_def)
  have nc: "CHR '':'' \<notin> set name" using assms by (auto simp: plainHost_def list_all_iff isAlnum_def isDigit_def)
  show ?thesis
  proof (cases port)
    case Nil
    with nc nb Nil show ?thesis by (simp add: splitHostPort_def)
  next
    case (Cons p ds)
    with assms have p: "p = CHR '':''" "list_all isDigit ds" by (auto simp: plainHost_def)
    then have "CHR '':'' \<notin> set ds" by (auto simp: list_all_iff isDigit_def)
    then have "LastIndexByte (name @ port) CHR '':'' = Some (length name)" using Cons p by (simp add: LastIndexByte_append)
    with nb Cons p show ?thesis by (simp add: splitHostPort_def validOptionalPort_def)
  qed
qed

lemma not_port_after_bracket: "i \<le> length s \<Longrightarrow> \<not> validOptionalPort (drop i (s @ [CHR '']'']))"
  by (cases "drop i s") (auto simp: validOptionalPort_def isDigit_def)

lemma LastIndexByte_bound: "c \<in> set s \<Longrightarrow> \<exists>i<length s. LastIndexByte s c = Some i"
  using LastIndexByte_None [of s c] length_pos_if_in_set [of c s]
  by (cases "IndexByte (rev s) c") (auto simp: LastIndexByte_def)

lemma splitHostPort_ipv6:
  assumes "ipv6Host name" "portText port"
  shows "splitHostPort (CHR ''['' # name @ CHR '']'' # port) = (name, drop 1 port)"
proof (cases port)
  case Nil
  let ?h = "(CHR ''['' # name) @ [CHR '']'']"
  have "CHR '':'' \<in> set name"
    by (rule ccontr) (use assms(1) count_notin [of "CHR '':''" name] in \<open>simp add: ipv6Host_def\<close>)
  then obtain i where i: "LastIndexByte ?h CHR '':'' = Some i" "i < length ?h"
    using LastIndexByte_bound [of "CHR '':''" ?h] by auto
  then have "\<not> validOptionalPort (drop i ?h)" by (intro not_port_after_bracket) simp
  with i(1) Nil show ?thesis by (simp add: splitHostPort_def)
next
  case (Cons p ds)
  with assms(2) have p: "p = CHR '':''" "list_all isDigit ds" by (auto simp: portText_def)
  then have "CHR '':'' \<notin> set ds" by (auto simp: list_all_iff isDigit_def)
  then have "LastIndexByte (CHR ''['' # name @ CHR '']'' # port) CHR '':'' = Some (Suc (Suc (length name)))"
    using LastIndexByte_append [of "CHR '':''" ds "CHR ''['' # name @ [CHR '']'']"] Cons p by simp
  with Cons p show ?thesis by (simp add: splitHostPort_def validOptionalPort_def)
qed

lemma splitHostPort_urlHost: "urlHost h name port \<Longrightarrow> splitHostPort h = (name, drop 1 port)"
  using splitHostPort_plain splitHostPort_ipv6 by (auto simp: urlHost_def simp del: drop_Suc)

lemma Hostname_urlHost: "urlHost h name port \<Longrightarrow> u_Host u = h \<Longrightarrow> Hostname u = name"
  by (simp add: Hostname_def splitHostPort_urlHost)

lemma url_Port_urlHost: "urlHost h name port \<Longrightarrow> u_Host u = h \<Longrightarrow> url_Port u = drop 1 port"
  by (simp add: url_Port_def splitHostPort_urlHost)

text \<open>Parsing what \<open>Format\<close> prints.\<close>

lemma parseAuthority_formatted:
  assumes "urlHost h name port"
  shows "parseAuthority scheme (UserinfoString (UserPassword tok sec) @ CHR ''@'' # h)
       = Inr (Some (UserPassword tok sec), h)"
proof -
  let ?t = "escape tok encodeUserPassword" and ?s = "escape sec encodeUserPassword"
  let ?ui = "?t @ CHR '':'' # ?s"
  have ui: "UserinfoString (UserPassword tok sec) = ?ui" by (simp add: UserinfoString_def UserPassword_def)
  have at: "CHR ''@'' \<notin> set h" using urlHost_chars [OF assms, of "CHR ''@''"] by auto
  have "LastIndexByte (?ui @ CHR ''@'' # h) CHR ''@'' = Some (length ?ui)"
    by (rule LastIndexByte_append [OF at])
  moreover have "CutByte ?ui CHR '':'' = (?t, ?s, True)" by (rule CutByte_append [OF escape_separators(1)])
  moreover have "validUserinfo ?ui"
    using escape_validUserinfo [of tok] escape_validUserinfo [of sec] by (simp add: validUserinfo_def)
  ultimately show ?thesis
    unfolding ui by (simp add: parseAuthority_def parseHost_urlHost [OF assms])
qed

lemma formatted_chars:
  assumes "urlHost h name port" "c \<in> set (UserinfoString (UserPassword tok sec) @ CHR ''@'' # h)"
  shows "c \<notin> set ''/?#'' \<and> 32 < ord c \<and> ord c < 127"
proof -
  consider "c \<in> set (escape tok encodeUserPassword)" | "c \<in> set (escape sec encodeUserPassword)"
    | "c = CHR '':'' \<or> c = CHR ''@''" | "c \<in> set h"
    using assms(2) by (auto simp: UserinfoString_def UserPassword_def)
  then show ?thesis
  proof cases
    case 1
    then show ?thesis using escape_nonctl [of c tok] escape_separators [of tok] by auto
  next
    case 2
    then show ?thesis using escape_nonctl [of c sec] escape_separators [of sec] by auto
  next
    case 4
    then show ?thesis using urlHost_chars [OF assms(1), of c] by auto
  qed auto
qed

lemma url_Parse_authority:
  assumes sch: "sch \<in> {''rtc2tcp'', ''http'', ''https'', ''ws'', ''wss''}" and p: "p \<in> {[], ''/'', ''/ws''}"
    and ch: "\<And>c. c \<in> set a \<Longrightarrow> c \<notin> set ''/?#'' \<and> 32 < ord c \<and> ord c < 127"
    and au: "parseAuthority sch a = Inr (user, host)"
  shows "url_Parse U (sch @ ''://'' @ a @ p) = Inr (emptyURL\<lparr>u_Scheme := sch, u_User := user, u_Host := host, u_Path := p\<rparr>)"
proof -
  have sl: "CHR ''/'' \<notin> set a" "CHR ''?'' \<notin> set a" "CHR ''#'' \<notin> set a"
    using ch [of "CHR ''/''"] ch [of "CHR ''?''"] ch [of "CHR ''#''"] by auto
  have cut: "CutByte (sch @ ''://'' @ a @ p) CHR ''#'' = (sch @ ''://'' @ a @ p, [], False)"
    by (rule CutByte_none) (use sl(3) sch p in auto)
  have ctl: "\<not> stringContainsCTLByte (sch @ ''://'' @ a @ p)"
  proof -
    have "\<not> (ord c < 32 \<or> ord c = 127)" if c: "c \<in> set (sch @ ''://'' @ a @ p)" for c
    proof (cases "c \<in> set a")
      case False
      with c have "c \<in> set (sch @ ''://'' @ p)" by auto
      moreover have "\<forall>c \<in> set (sch @ ''://'' @ p). \<not> (ord c < 32 \<or> ord c = 127)" using sch p by auto
      ultimately show ?thesis by blast
    qed (use ch [of c] in auto)
    then show ?thesis unfolding stringContainsCTLByte_def list_ex_iff by blast
  qed
  have gs: "getScheme (sch @ ''://'' @ a @ p) = Inr (sch, ''//'' @ a @ p)"
    using sch by (auto simp: getScheme_def isDigit_def)
  have q: "splitQuery (''//'' @ a @ p) = (False, ''//'' @ a @ p, [])"
  proof -
    have n: "CHR ''?'' \<notin> set (''//'' @ a @ p)" using sl(2) p by auto
    then have "last (''//'' @ a @ p) \<noteq> CHR ''?''" by (metis append_is_Nil_conv last_in_set list.distinct(1))
    then show ?thesis unfolding splitQuery_def CutByte_none [OF n] by simp
  qed
  have lower: "ToLower U sch = sch" using sch by (auto simp: ToLower_def isASCII_def lowerChar_def)
  have st: "sch @ ''://'' @ a @ p \<noteq> ''*''" "sch \<noteq> []" using sch by auto
  have cutp: "IndexByte (a @ p) CHR ''/'' = (if p = [] then None else Some (length a))"
    using p sl(1) IndexByte_append [OF sl(1)] by auto
  have d: "drop 2 (x # y # zs) = zs" for x y :: char and zs by (simp add: numeral_2_eq_2)
  have "parse_url U (sch @ ''://'' @ a @ p)
      = setPath (emptyURL\<lparr>u_Scheme := sch, u_ForceQuery := False, u_RawQuery := [], u_User := user, u_Host := host\<rparr>) p"
    unfolding parse_url_def using ctl gs q au lower st cutp by (cases "p = []") (simp_all add: Let_def startsWith_def d)
  moreover have "setPath u p = Inr (u\<lparr>u_Path := p, u_RawPath := []\<rparr>)" for u
    using p by (auto simp: setPath_def escape_def escapeChar_def shouldEscape_def isAlnum_def)
  ultimately show ?thesis unfolding url_Parse_def cut by (simp add: emptyURL_def)
qed

lemma url_Parse_formatted:
  assumes "urlHost h name port"
  shows "url_Parse U (''rtc2tcp'' @ ''://'' @ UserinfoString (UserPassword tok sec) @ CHR ''@'' # h)
       = Inr (emptyURL\<lparr>u_Scheme := ''rtc2tcp'', u_User := Some (UserPassword tok sec), u_Host := h\<rparr>)"
  using url_Parse_authority [of "''rtc2tcp''" "[]" "UserinfoString (UserPassword tok sec) @ CHR ''@'' # h"
      "Some (UserPassword tok sec)" h U]
    formatted_chars [OF assms, of _ tok sec] parseAuthority_formatted [OF assms, of "''rtc2tcp''" tok sec]
  by (simp add: emptyURL_def)

lemma url_Parse_broker:
  assumes "urlHost h name port" "sch \<in> {''http'', ''https'', ''ws'', ''wss''}" "p \<in> {[], ''/'', ''/ws''}"
  shows "url_Parse U (sch @ ''://'' @ h @ p) = Inr (emptyURL\<lparr>u_Scheme := sch, u_Host := h, u_Path := p\<rparr>)"
proof -
  have "CHR ''@'' \<notin> set h" using urlHost_chars [OF assms(1), of "CHR ''@''"] by auto
  then have "parseAuthority sch h = Inr (None, h)"
    by (simp add: parseAuthority_def parseHost_urlHost [OF assms(1)])
  moreover have "c \<notin> set ''/?#'' \<and> 32 < ord c \<and> ord c < 127" if "c \<in> set h" for c
    using urlHost_chars [OF assms(1) that] by auto
  ultimately show ?thesis using url_Parse_authority [of sch p h None h U] assms(2,3) by (auto simp: emptyURL_def)
qed

lemma broker_visible:
  assumes "urlHost h name port" "sch \<in> {''http'', ''https'', ''ws'', ''wss''}" "p \<in> {[], ''/'', ''/ws''}"
  shows "TrimSpace (sch @ ''://'' @ h @ p) = sch @ ''://'' @ h @ p"
proof (rule TrimSpace_visible_all)
  have "33 \<le> ord c \<and> ord c \<le> 126" if "c \<in> set h" for c using urlHost_chars [OF assms(1) that] by auto
  then show "list_all (\<lambda>c. 33 \<le> ord c \<and> ord c \<le> 126) (sch @ ''://'' @ h @ p)"
    using assms(2,3) by (auto simp: list_all_iff)
qed

section \<open>Round trips\<close>

text \<open>Decoding a query component changes exactly the strings with a plus or a percent sign.\<close>

lemma query_unescape_length: "unescape encodeQueryComponent s = Inr t \<Longrightarrow> length t \<le> length s
    \<and> (CHR ''%'' \<in> set s \<longrightarrow> length t < length s)"
proof (induction encodeQueryComponent s arbitrary: t rule: unescape.induct)
  case (2 c cs)
  show ?case
  proof (cases "c = CHR ''%''")
    case True
    then obtain a b r v t' where "cs = a # b # r" "hexPair a b = Some v" "unescape encodeQueryComponent r = Inr t'" "t = v # t'"
      "hostEscapeOk encodeQueryComponent a b"
      using 2(4) by (auto split: list.splits option.splits if_splits sum.splits)
    with 2(1) [of a "b # r" b r v] True show ?thesis by force
  next
    case False
    then obtain x t' where "unescape encodeQueryComponent cs = Inr t'" "t = x # t'"
      using 2(4) by (auto split: if_splits sum.splits)
    with 2(2,3) False show ?thesis by (cases "c = CHR ''+''") force+
  qed
qed simp

lemma query_unescape_id_iff:
  "unescape encodeQueryComponent s = Inr s \<longleftrightarrow> CHR ''%'' \<notin> set s \<and> CHR ''+'' \<notin> set s"
proof
  assume u: "unescape encodeQueryComponent s = Inr s"
  then have p: "CHR ''%'' \<notin> set s" using query_unescape_length by blast
  from u p have "CHR ''+'' \<notin> set s"
    by (induction s) (auto split: if_splits sum.splits)
  with p show "CHR ''%'' \<notin> set s \<and> CHR ''+'' \<notin> set s" by simp
qed (simp add: unescape_plain)

lemma Format_broker:
  assumes "urlHost h name port" "sch \<in> {''http'', ''https'', ''ws'', ''wss''}" "p \<in> {[], ''/'', ''/ws''}"
    and "TrimSpace tok \<noteq> []" "TrimSpace sec \<noteq> []"
  shows "Format U \<lparr>cs_RendezvousToken = tok, cs_PairingSecret = sec, cs_BrokerURL = sch @ ''://'' @ h @ p\<rparr>
       = Inr (''rtc2tcp'' @ ''://'' @ UserinfoString (UserPassword tok sec) @ CHR ''@'' # h)"
  unfolding Format_def
  using assms(3-5) url_Parse_broker [OF assms(1-3), of U] broker_visible [OF assms(1-3)] urlHost_not_Nil [OF assms(1)]
  by (auto simp: emptyURL_def ConnectionScheme_def)

lemma Parse_formatted:
  assumes "urlHost h name port" "tok \<noteq> []" "sec \<noteq> []"
  shows "ParseConnectionString U (''rtc2tcp'' @ ''://'' @ UserinfoString (UserPassword tok sec) @ CHR ''@'' # h) =
     (case QueryUnescape tok of
        Inl err \<Rightarrow> Inl (Errorf ''decode rendezvous token: %w'' [] [err])
      | Inr t \<Rightarrow>
          if t = [] then Inl (errors_New ''connection string is missing the rendezvous token'')
          else (case QueryUnescape sec of
             Inl err \<Rightarrow> Inl (Errorf ''decode pairing secret: %w'' [] [err])
           | Inr p \<Rightarrow> Inr \<lparr>cs_RendezvousToken = t, cs_PairingSecret = p,
               cs_BrokerURL = (if isLoopbackHost U name then ''http'' else ''https'') @ ''://'' @ h\<rparr>))"
proof -
  let ?f = "''rtc2tcp'' @ ''://'' @ UserinfoString (UserPassword tok sec) @ CHR ''@'' # h"
  note ne = urlHost_not_Nil [OF assms(1)]
  have trim: "TrimSpace ?f = ?f"
  proof (rule TrimSpace_visible)
    have "last ?f \<in> set h" using ne by simp
    from urlHost_chars [OF assms(1) this] show "\<not> edgeByte (last ?f)" by (auto simp: edgeByte_def)
  qed (auto simp: edgeByte_def)
  have hn: "Hostname (emptyURL\<lparr>u_Scheme := ''rtc2tcp'', u_User := Some (UserPassword tok sec), u_Host := h\<rparr>) = name"
    by (rule Hostname_urlHost [OF assms(1)]) simp
  show ?thesis
  proof (cases "QueryUnescape tok")
    case (Inl e)
    then show ?thesis
      unfolding ParseConnectionString_def Let_def trim url_Parse_formatted [OF assms(1)]
      using ne by (simp add: ConnectionScheme_def UserPassword_def)
  next
    case t: (Inr t)
    show ?thesis
    proof (cases "QueryUnescape sec")
      case (Inl e)
      with t show ?thesis
        unfolding ParseConnectionString_def Let_def trim url_Parse_formatted [OF assms(1)]
        using assms ne by (simp add: ConnectionScheme_def UserPassword_def)
    next
      case (Inr p)
      with t hn show ?thesis
        unfolding ParseConnectionString_def Let_def trim url_Parse_formatted [OF assms(1)]
        using assms ne by (simp add: ConnectionScheme_def UserPassword_def emptyURL_def)
    qed
  qed
qed

lemma TrimSpace_nonempty: "TrimSpace s \<noteq> [] \<Longrightarrow> s \<noteq> []"
  by auto

text \<open>
  (C28) The connection string an exposing peer prints carries the credentials over exactly when
  neither contains a plus or a percent sign: for a broker with a plain host, under the scheme the
  parser infers, formatting and then parsing gives the same connection string back if and only if
  token and secret are free of both.
\<close>

theorem connection_string_roundtrip_iff:
  assumes "plainHost name port" and "TrimSpace tok \<noteq> []" and "TrimSpace sec \<noteq> []"
    and "c = \<lparr>cs_RendezvousToken = tok, cs_PairingSecret = sec,
             cs_BrokerURL = (if isLoopbackHost U name then ''http'' else ''https'') @ ''://'' @ name @ port\<rparr>"
  shows "(\<exists>f. Format U c = Inr f \<and> ParseConnectionString U f = Inr c) \<longleftrightarrow>
           CHR ''%'' \<notin> set (tok @ sec) \<and> CHR ''+'' \<notin> set (tok @ sec)"
proof -
  let ?f = "''rtc2tcp'' @ ''://'' @ UserinfoString (UserPassword tok sec) @ CHR ''@'' # name @ port"
  have sch: "(if isLoopbackHost U name then ''http'' else ''https'') \<in> {''http'', ''https''}" by simp
  note h = plainHost_urlHost [OF assms(1)]
  have f: "Format U c = Inr ?f"
    unfolding assms(4) using Format_broker [OF h, of _ "[]"] sch assms(2,3) by simp
  have ne: "tok \<noteq> []" "sec \<noteq> []" using assms(2,3) by auto
  have "ParseConnectionString U ?f = Inr c \<longleftrightarrow> QueryUnescape tok = Inr tok \<and> QueryUnescape sec = Inr sec"
    unfolding Parse_formatted [OF h ne] assms(4) using ne(1) by (auto split: sum.splits)
  with f show ?thesis by (auto simp: QueryUnescape_def query_unescape_id_iff)
qed

theorem connection_string_roundtrip_iff_witness:
  "\<not> (\<exists>f. Format idUnicode \<lparr>cs_RendezvousToken = ''tok'', cs_PairingSecret = ''a+b'', cs_BrokerURL = ''https://broker.example.com''\<rparr> = Inr f
       \<and> ParseConnectionString idUnicode f
           = Inr \<lparr>cs_RendezvousToken = ''tok'', cs_PairingSecret = ''a+b'', cs_BrokerURL = ''https://broker.example.com''\<rparr>)"
proof -
  have h: "plainHost ''broker.example.com'' []" by (simp add: plainHost_def isAlnum_def)
  have t: "TrimSpace ''tok'' \<noteq> []" "TrimSpace ''a+b'' \<noteq> []" by code_simp+
  have l: "\<not> isLoopbackHost idUnicode ''broker.example.com''" by code_simp
  show ?thesis
    using connection_string_roundtrip_iff [OF h t refl, of idUnicode] l by simp
qed

text \<open>
  Generated credentials are always shareable: with the token and the secret that
  \<open>RandomToken\<close> makes from any sixteen random bytes, the printed connection string of an exposing
  peer parses back to the same credentials and to the broker's host under the inferred scheme.
\<close>

theorem generated_credentials_roundtrip:
  assumes "urlHost h name port" and "sch \<in> {''http'', ''https'', ''ws'', ''wss''}" "p \<in> {[], ''/'', ''/ws''}"
    and "length r1 = 16" and "length r2 = 16"
    and "RandomToken (Inr r1) = Inr tok" and "RandomToken (Inr r2) = Inr sec"
  shows "\<exists>f. Format U \<lparr>cs_RendezvousToken = tok, cs_PairingSecret = sec, cs_BrokerURL = sch @ ''://'' @ h @ p\<rparr> = Inr f
       \<and> ParseConnectionString U f = Inr \<lparr>cs_RendezvousToken = tok, cs_PairingSecret = sec,
             cs_BrokerURL = (if isLoopbackHost U name then ''http'' else ''https'') @ ''://'' @ h\<rparr>
       \<and> length tok = 22 \<and> length sec = 22 \<and> \<not> startsWith ''-'' f"
proof -
  have e: "tok = EncodeToString r1" "sec = EncodeToString r2" using assms(6,7) by (simp_all add: RandomToken_def)
  have n: "x \<noteq> CHR ''%'' \<and> x \<noteq> CHR ''+''" if x: "x \<in> set (EncodeToString b)" for b x
  proof -
    obtain i where "i < 64" "x = b64char i" using EncodeToString_chars [of b] x by blast
    then have "45 \<le> ord x" using b64char_range [of i] by simp
    then show ?thesis by auto
  qed
  have l: "length tok = 22" "length sec = 22" using e assms(4,5) by (simp_all add: length_EncodeToString)
  have ne: "tok \<noteq> []" "sec \<noteq> []" using l by auto
  have un: "QueryUnescape tok = Inr tok" "QueryUnescape sec = Inr sec"
    unfolding QueryUnescape_def query_unescape_id_iff e using n by auto
  have tr: "TrimSpace tok \<noteq> []" "TrimSpace sec \<noteq> []" using ne e by simp_all
  note f = Format_broker [OF assms(1-3) tr, of U]
  moreover have "ParseConnectionString U (''rtc2tcp'' @ ''://'' @ UserinfoString (UserPassword tok sec) @ CHR ''@'' # h)
      = Inr \<lparr>cs_RendezvousToken = tok, cs_PairingSecret = sec,
             cs_BrokerURL = (if isLoopbackHost U name then ''http'' else ''https'') @ ''://'' @ h\<rparr>"
    unfolding Parse_formatted [OF assms(1) ne] un using ne(1) by simp
  ultimately show ?thesis using l by (auto simp: startsWith_def)
qed

theorem generated_credentials_roundtrip_witness:
  "\<exists>f. Format idUnicode \<lparr>cs_RendezvousToken = EncodeToString (replicate 16 7), cs_PairingSecret = EncodeToString (replicate 16 255),
        cs_BrokerURL = ''http://localhost:8080/''\<rparr> = Inr f
     \<and> ParseConnectionString idUnicode f
       = Inr \<lparr>cs_RendezvousToken = EncodeToString (replicate 16 7), cs_PairingSecret = EncodeToString (replicate 16 255),
           cs_BrokerURL = ''http://localhost:8080''\<rparr>"
proof -
  have h: "urlHost ''localhost:8080'' ''localhost'' '':8080''"
    by (simp add: urlHost_def plainHost_def isAlnum_def isDigit_def)
  have l: "isLoopbackHost idUnicode ''localhost''" by code_simp
  show ?thesis
    using generated_credentials_roundtrip [OF h, of "''http''" "''/''" "replicate 16 7" "replicate 16 255" _ _ idUnicode] l
    by (simp add: RandomToken_def) blast
qed

end
