(* ===== verification/Client.thy ===== *)
theory Client
  imports GoUrl SignalTypes
begin

text \<open>
  The broker client of \<^verbatim>\<open>internal/signaling/client.go\<close>: the broker address policy, the write path, and
  the three goroutines of a connection (reader and two pingers) with the consumer of the events
  channel and \<open>Close\<close>, in any interleaving.  A label carries what the WebSocket (gorilla) returns in
  that step; timers fire when the schedule says so.
\<close>

section \<open>Definitions\<close>

subsection \<open>The broker address\<close>

definition isLocalBrokerHost :: "unicode \<Rightarrow> string \<Rightarrow> bool" where
  "isLocalBrokerHost U host0 \<longleftrightarrow>
     (let host = TrimSpace host0 in
      if host = [] then False
      else if EqualFold U host ''localhost'' then True
      else (case ParseIP host of None \<Rightarrow> False | Some ip \<Rightarrow> IsLoopback ip))"

definition normalizeBrokerURL :: "unicode \<Rightarrow> string \<Rightarrow> string res" where
  "normalizeBrokerURL U raw0 =
     (let raw1 = TrimSpace raw0 in
      if raw1 = [] then Inl (errors_New ''broker URL is required'')
      else
        (let raw = (if \<not> Contains raw1 ''://'' then ''http://'' @ raw1 else raw1) in
         case url_Parse U raw of
           Inl err \<Rightarrow> Inl (Errorf ''parse broker URL: %w'' [] [err])
         | Inr parsed \<Rightarrow>
             (case (if u_Scheme parsed = ''http'' then Some (parsed\<lparr>u_Scheme := ''ws''\<rparr>)
                    else if u_Scheme parsed = ''https'' then Some (parsed\<lparr>u_Scheme := ''wss''\<rparr>)
                    else if u_Scheme parsed = ''ws'' \<or> u_Scheme parsed = ''wss'' then Some parsed
                    else None) of
                None \<Rightarrow> Inl (Errorf ''unsupported broker URL scheme %q'' [u_Scheme parsed] [])
              | Some p1 \<Rightarrow>
                  (let p2 = (if u_Path p1 = [] \<or> u_Path p1 = ''/'' then p1\<lparr>u_Path := ''/ws''\<rparr> else p1) in
                   if u_Scheme p2 = ''ws'' \<and> \<not> isLocalBrokerHost U (Hostname p2) then
                     Inl (errors_New ''insecure broker transport is only allowed for localhost'')
                   else Inr (URLString p2)))))"

subsection \<open>State\<close>

definition maxBrokerMessageBytes :: nat where
  "maxBrokerMessageBytes = 2 ^ 20"

definition eventsCapacity :: nat where
  "eventsCapacity = 32"

datatype ceffect =
    WsWrite message
  | WsPing
  | WsClose
  | WsReadDeadline
  | WsReadLimit nat
  | ClosedEvents

text \<open>Where the read loop stands: at the test of \<open>done\<close>, at \<open>ReadJSON\<close>, at the send of an event, or returned.\<close>

datatype reading = AtDone | AtReadJSON | AtDeliver message | ReadReturned

record Client =
  cl_events :: "message list"
  cl_done :: bool
  cl_closeMu :: bool
  cl_reading :: reading
  cl_appPing :: "64 word option"
  cl_wsPing :: bool

text \<open>The client that \<open>Dial\<close> returns, and the effects of its setup, for the outcome of the WebSocket dial.\<close>

definition Dial :: "unicode \<Rightarrow> gerror option \<Rightarrow> string \<Rightarrow> (Client \<times> ceffect list) res" where
  "Dial U dialErr brokerURL =
     (case normalizeBrokerURL U brokerURL of
        Inl err \<Rightarrow> Inl err
      | Inr wsURL \<Rightarrow>
          (case dialErr of
             Some err \<Rightarrow> Inl (Errorf ''dial broker: %w'' [] [err])
           | None \<Rightarrow> Inr (\<lparr>cl_events = [], cl_done = False, cl_closeMu = False, cl_reading = AtDone,
                           cl_appPing = Some 0, cl_wsPing = True\<rparr>,
                         [WsReadLimit maxBrokerMessageBytes, WsReadDeadline])))"

subsection \<open>Writing\<close>

text \<open>\<open>send\<close>, under the write lock: \<open>deadlineErr\<close> and \<open>writeErr\<close> are what the connection answers.\<close>

definition Client_send :: "gerror option \<Rightarrow> gerror option \<Rightarrow> message \<Rightarrow> ceffect list \<times> gerror option" where
  "Client_send deadlineErr writeErr msg =
     (case deadlineErr of
        Some err \<Rightarrow> ([], Some err)
      | None \<Rightarrow>
          (case writeErr of
             Some err \<Rightarrow> ([], Some (Errorf ''write broker message: %w'' [] [err]))
           | None \<Rightarrow> ([WsWrite msg], None)))"

definition Client_Register :: "gerror option \<Rightarrow> gerror option \<Rightarrow> Register \<Rightarrow> ceffect list \<times> gerror option" where
  "Client_Register de we reg = Client_send de we ((Message MessageTypeRegister)\<lparr>ms_Register := Some reg\<rparr>)"

definition SendSignal :: "gerror option \<Rightarrow> gerror option \<Rightarrow> Signal \<Rightarrow> ceffect list \<times> gerror option" where
  "SendSignal de we sg = Client_send de we ((Message MessageTypeSignal)\<lparr>ms_Signal := Some sg\<rparr>)"

text \<open>\<open>json.Marshal\<close> is an argument.\<close>

definition MarshalSignal :: "(message \<Rightarrow> bytes res) \<Rightarrow> Signal \<Rightarrow> bytes res" where
  "MarshalSignal json_Marshal sg = json_Marshal ((Message MessageTypeSignal)\<lparr>ms_Signal := Some sg\<rparr>)"

definition replyPong :: "gerror option \<Rightarrow> gerror option \<Rightarrow> message \<Rightarrow> ceffect list" where
  "replyPong de we ping =
     (let token = (case ms_Ping ping of Some p \<Rightarrow> pi_Token p | None \<Rightarrow> []) in
      fst (Client_send de we ((Message MessageTypePong)\<lparr>ms_Pong := Some \<lparr>po_Token = token\<rparr>\<rparr>)))"

subsection \<open>The goroutines\<close>

definition Client_Close :: "Client \<Rightarrow> Client \<times> ceffect list" where
  "Client_Close c = (if cl_closeMu c then (c, []) else (c\<lparr>cl_closeMu := True, cl_done := True\<rparr>, [WsClose]))"

definition readReturn :: "Client \<Rightarrow> Client \<times> ceffect list" where
  "readReturn c = (c\<lparr>cl_reading := ReadReturned\<rparr>, [ClosedEvents])"

definition readCheck :: "Client \<Rightarrow> (Client \<times> ceffect list) option" where
  "readCheck c =
     (if cl_reading c \<noteq> AtDone then None
      else if cl_done c then Some (readReturn c)
      else Some (c\<lparr>cl_reading := AtReadJSON\<rparr>, []))"

text \<open>The message the read loop makes up when the connection fails.\<close>

definition brokerReadError :: "string \<Rightarrow> message" where
  "brokerReadError text = (Message MessageTypeError)\<lparr>ms_Error := Some \<lparr>er_Code = ''broker-read'', er_Message = text\<rparr>\<rparr>"

text \<open>What \<open>ReadJSON\<close> gives: a message, a normal close, or another error with its text.\<close>

datatype readResult = ReadMessage message | ReadClosed | ReadFailed string

definition readJSON :: "Client \<Rightarrow> readResult \<Rightarrow> gerror option \<Rightarrow> gerror option \<Rightarrow> (Client \<times> ceffect list) option" where
  "readJSON c r de we =
     (if cl_reading c \<noteq> AtReadJSON then None
      else (case r of
        ReadClosed \<Rightarrow> Some (readReturn c)
      | ReadFailed text \<Rightarrow>
          Some (readReturn (if length (cl_events c) < eventsCapacity
                            then c\<lparr>cl_events := cl_events c @ [brokerReadError text]\<rparr> else c))
      | ReadMessage msg \<Rightarrow>
          if ms_Type msg = MessageTypePing then Some (c\<lparr>cl_reading := AtDone\<rparr>, WsReadDeadline # replyPong de we msg)
          else if ms_Type msg = MessageTypePong then Some (c\<lparr>cl_reading := AtDone\<rparr>, [WsReadDeadline])
          else Some (c\<lparr>cl_reading := AtDeliver msg\<rparr>, [WsReadDeadline])))"

text \<open>The two arms of the select that hands an event over.\<close>

definition deliverEvent :: "Client \<Rightarrow> (Client \<times> ceffect list) option" where
  "deliverEvent c =
     (case cl_reading c of
        AtDeliver msg \<Rightarrow>
          if length (cl_events c) < eventsCapacity
          then Some (c\<lparr>cl_events := cl_events c @ [msg], cl_reading := AtDone\<rparr>, []) else None
      | _ \<Rightarrow> None)"

definition deliverDone :: "Client \<Rightarrow> (Client \<times> ceffect list) option" where
  "deliverDone c =
     (case cl_reading c of AtDeliver msg \<Rightarrow> if cl_done c then Some (readReturn c) else None | _ \<Rightarrow> None)"

text \<open>One round of \<open>appPingLoop\<close> (its state is \<open>seq\<close>, \<open>None\<close> once it has returned) and of \<open>pingLoop\<close>.\<close>

definition appPingTick :: "Client \<Rightarrow> gerror option \<Rightarrow> gerror option \<Rightarrow> (Client \<times> ceffect list) option" where
  "appPingTick c de we =
     (case cl_appPing c of
        None \<Rightarrow> None
      | Some seq \<Rightarrow>
          (case Client_send de we ((Message MessageTypePing)\<lparr>ms_Ping := Some \<lparr>pi_Token = FormatNat (unat (seq + 1))\<rparr>\<rparr>) of
             (es, Some err) \<Rightarrow> Some (c\<lparr>cl_appPing := None\<rparr>, es)
           | (es, None) \<Rightarrow> Some (c\<lparr>cl_appPing := Some (seq + 1)\<rparr>, es)))"

definition appPingDone :: "Client \<Rightarrow> (Client \<times> ceffect list) option" where
  "appPingDone c = (if cl_done c \<and> cl_appPing c \<noteq> None then Some (c\<lparr>cl_appPing := None\<rparr>, []) else None)"

definition wsPingTick :: "Client \<Rightarrow> gerror option \<Rightarrow> (Client \<times> ceffect list) option" where
  "wsPingTick c err =
     (if \<not> cl_wsPing c then None
      else (case err of Some e \<Rightarrow> Some (c\<lparr>cl_wsPing := False\<rparr>, []) | None \<Rightarrow> Some (c, [WsPing])))"

definition wsPingDone :: "Client \<Rightarrow> (Client \<times> ceffect list) option" where
  "wsPingDone c = (if cl_done c \<and> cl_wsPing c then Some (c\<lparr>cl_wsPing := False\<rparr>, []) else None)"

text \<open>The consumer of \<open>Events\<close>: an event, or the closed channel once it is empty.\<close>

definition Events_receive :: "Client \<Rightarrow> (Client \<times> message option) option" where
  "Events_receive c =
     (case cl_events c of
        msg # rest \<Rightarrow> Some (c\<lparr>cl_events := rest\<rparr>, Some msg)
      | [] \<Rightarrow> if cl_reading c = ReadReturned then Some (c, None) else None)"

datatype clabel =
    CClose
  | CCheck
  | CRead readResult "gerror option" "gerror option"
  | CDeliver
  | CDeliverDone
  | CAppPing "gerror option" "gerror option"
  | CAppPingDone
  | CWsPing "gerror option"
  | CWsPingDone
  | CReceive

text \<open>One step: the new client, the effects, and what the consumer received.\<close>

fun clientStep :: "Client \<Rightarrow> clabel \<Rightarrow> (Client \<times> ceffect list \<times> message list) option" where
  "clientStep c CClose = (case Client_Close c of (c', es) \<Rightarrow> Some (c', es, []))"
| "clientStep c CCheck = map_option (\<lambda>(c', es). (c', es, [])) (readCheck c)"
| "clientStep c (CRead r de we) = map_option (\<lambda>(c', es). (c', es, [])) (readJSON c r de we)"
| "clientStep c CDeliver = map_option (\<lambda>(c', es). (c', es, [])) (deliverEvent c)"
| "clientStep c CDeliverDone = map_option (\<lambda>(c', es). (c', es, [])) (deliverDone c)"
| "clientStep c (CAppPing de we) = map_option (\<lambda>(c', es). (c', es, [])) (appPingTick c de we)"
| "clientStep c CAppPingDone = map_option (\<lambda>(c', es). (c', es, [])) (appPingDone c)"
| "clientStep c (CWsPing err) = map_option (\<lambda>(c', es). (c', es, [])) (wsPingTick c err)"
| "clientStep c CWsPingDone = map_option (\<lambda>(c', es). (c', es, [])) (wsPingDone c)"
| "clientStep c CReceive = map_option (\<lambda>(c', m). (c', [], case m of None \<Rightarrow> [] | Some msg \<Rightarrow> [msg])) (Events_receive c)"

fun clientRun :: "Client \<Rightarrow> clabel list \<Rightarrow> (Client \<times> ceffect list \<times> message list) option" where
  "clientRun c [] = Some (c, [], [])"
| "clientRun c (l # ls) =
     (case clientStep c l of
        None \<Rightarrow> None
      | Some (c1, es, ms) \<Rightarrow>
          (case clientRun c1 ls of None \<Rightarrow> None | Some (c2, fs, ns) \<Rightarrow> Some (c2, es @ fs, ms @ ns)))"

section \<open>Specifications\<close>

text \<open>The application messages the reader has read, and the pings among what it read.\<close>

fun readApp :: "clabel \<Rightarrow> message list" where
  "readApp (CRead (ReadMessage m) de we) =
     (if ms_Type m = MessageTypePing \<or> ms_Type m = MessageTypePong then [] else [m])"
| "readApp _ = []"

text \<open>The event made up for a failed read.\<close>

fun readErr :: "clabel \<Rightarrow> message list" where
  "readErr (CRead (ReadFailed t) de we) = [brokerReadError t]"
| "readErr _ = []"

fun readPing :: "clabel \<Rightarrow> string list" where
  "readPing (CRead (ReadMessage m) None None) =
     (if ms_Type m = MessageTypePing then [case ms_Ping m of Some p \<Rightarrow> pi_Token p | None \<Rightarrow> []] else [])"
| "readPing _ = []"

definition pongTokens :: "ceffect list \<Rightarrow> string list" where
  "pongTokens es = concat (map (\<lambda>e. case e of
     WsWrite m \<Rightarrow> (case ms_Pong m of Some p \<Rightarrow> [po_Token p] | None \<Rightarrow> []) | _ \<Rightarrow> []) es)"

fun heldEvent :: "reading \<Rightarrow> message list" where
  "heldEvent (AtDeliver m) = [m]"
| "heldEvent _ = []"

text \<open>
  The steps of the three goroutines, as opposed to the consumer's receive and the calls of \<open>Close\<close>;
  and the steps possible on a connection that has been closed, where gorilla fails every write
  while a read may still give anything: a buffered message, a close frame or an error.
\<close>

fun workerLabel :: "clabel \<Rightarrow> bool" where
  "workerLabel CClose = False"
| "workerLabel CReceive = False"
| "workerLabel _ = True"

fun onClosedConn :: "clabel \<Rightarrow> bool" where
  "onClosedConn (CAppPing de we) \<longleftrightarrow> de \<noteq> None \<or> we \<noteq> None"
| "onClosedConn (CWsPing err) \<longleftrightarrow> err \<noteq> None"
| "onClosedConn _ = True"

text \<open>How many steps the goroutines have left once \<open>done\<close> is closed.\<close>

fun readingLeft :: "reading \<Rightarrow> nat" where
  "readingLeft AtReadJSON = 3"
| "readingLeft (AtDeliver m) = 2"
| "readingLeft AtDone = 1"
| "readingLeft ReadReturned = 0"

definition workersLeft :: "Client \<Rightarrow> nat" where
  "workersLeft c = readingLeft (cl_reading c) + (if cl_appPing c = None then 0 else 1) + (if cl_wsPing c then 1 else 0)"

definition newClient :: Client where
  "newClient = \<lparr>cl_events = [], cl_done = False, cl_closeMu = False, cl_reading = AtDone, cl_appPing = Some 0, cl_wsPing = True\<rparr>"

lemma Dial_newClient: "Dial U dialErr url = Inr (c, es) \<Longrightarrow> c = newClient"
  by (auto simp: Dial_def newClient_def split: sum.splits option.splits)

section \<open>The address policy\<close>

text \<open>
  (C30) The broker is never spoken to in the clear unless it is local: every address that
  \<open>normalizeBrokerURL\<close> accepts uses TLS, or its host is \<open>localhost\<close> or a loopback address; the printed
  URL has the scheme \<open>wss\<close> or \<open>ws\<close> accordingly and keeps the host that was checked.
\<close>

theorem normalizeBrokerURL_secure:
  assumes "normalizeBrokerURL U raw = Inr s"
  shows "\<exists>u. s = URLString u \<and> (u_Scheme u = ''wss'' \<or> u_Scheme u = ''ws'' \<and> isLocalBrokerHost U (Hostname u))
       \<and> startsWith (u_Scheme u @ '':'') s \<and> u_Path u \<noteq> [] \<and> u_Path u \<noteq> ''/''
       \<and> (\<exists>raw' u0. url_Parse U raw' = Inr u0 \<and> raw' \<in> {TrimSpace raw, ''http://'' @ TrimSpace raw}
            \<and> u_Host u = u_Host u0 \<and> u_User u = u_User u0)"
proof -
  define raw' where "raw' = (if \<not> Contains (TrimSpace raw) ''://'' then ''http://'' @ TrimSpace raw else TrimSpace raw)"
  obtain u0 where u0: "url_Parse U raw' = Inr u0"
    using assms by (auto simp: normalizeBrokerURL_def Let_def raw'_def split: sum.splits if_splits)
  define u1 where "u1 = u0\<lparr>u_Scheme := (if u_Scheme u0 = ''http'' then ''ws'' else if u_Scheme u0 = ''https'' then ''wss'' else u_Scheme u0)\<rparr>"
  define u where "u = (if u_Path u1 = [] \<or> u_Path u1 = ''/'' then u1\<lparr>u_Path := ''/ws''\<rparr> else u1)"
  have sch: "u_Scheme u0 \<in> {''http'', ''https'', ''ws'', ''wss''}" and s: "s = URLString u"
    and sec: "u_Scheme u = ''ws'' \<longrightarrow> isLocalBrokerHost U (Hostname u)"
    using assms u0 unfolding u_def u1_def
    by (auto simp: normalizeBrokerURL_def Let_def raw'_def [symmetric] Hostname_def split: if_splits)
  have us: "u_Scheme u = ''wss'' \<or> u_Scheme u = ''ws''" using sch by (auto simp: u_def u1_def)
  then have "startsWith (u_Scheme u @ '':'') s" by (auto simp: s URLString_def startsWith_append)
  moreover have "u_Path u \<noteq> [] \<and> u_Path u \<noteq> ''/''" by (auto simp: u_def)
  moreover have "u_Host u = u_Host u0" "u_User u = u_User u0" by (simp_all add: u_def u1_def)
  moreover have "raw' \<in> {TrimSpace raw, ''http://'' @ TrimSpace raw}" by (simp add: raw'_def)
  ultimately show ?thesis using s us sec u0 by blast
qed

theorem normalizeBrokerURL_secure_witness:
  "\<exists>s u. normalizeBrokerURL idUnicode ''127.0.0.1:8080'' = Inr s \<and> s = URLString u \<and> u_Scheme u = ''ws'' \<and> isLocalBrokerHost idUnicode (Hostname u)"
proof -
  have s: "normalizeBrokerURL idUnicode ''127.0.0.1:8080'' = Inr ''ws://127.0.0.1:8080/ws''" by code_simp
  from normalizeBrokerURL_secure [OF s] obtain u where "''ws://127.0.0.1:8080/ws'' = URLString u"
      "u_Scheme u = ''wss'' \<or> u_Scheme u = ''ws'' \<and> isLocalBrokerHost idUnicode (Hostname u)"
      "startsWith (u_Scheme u @ '':'') ''ws://127.0.0.1:8080/ws''" by blast
  moreover have "\<not> startsWith (''wss'' @ '':'') ''ws://127.0.0.1:8080/ws''" by (simp add: startsWith_def)
  ultimately show ?thesis using s by metis
qed

section \<open>Events\<close>

lemma pongTokens_simps [simp]:
  "pongTokens [] = []" "pongTokens (es @ fs) = pongTokens es @ pongTokens fs"
  "pongTokens (WsReadDeadline # es) = pongTokens es" "pongTokens [ClosedEvents] = []" "pongTokens [WsClose] = []"
  "pongTokens [WsPing] = []"
  "pongTokens [WsWrite m] = (case ms_Pong m of Some p \<Rightarrow> [po_Token p] | None \<Rightarrow> [])"
  by (simp_all add: pongTokens_def)

lemmas client_step_defs = Client_Close_def readReturn_def readCheck_def readJSON_def deliverEvent_def deliverDone_def
  appPingTick_def appPingDone_def wsPingTick_def wsPingDone_def Client_send_def replyPong_def

lemma receive_iff:
  "clientStep c CReceive = Some r \<longleftrightarrow>
     (\<exists>m rest. cl_events c = m # rest \<and> r = (c\<lparr>cl_events := rest\<rparr>, [], [m]))
   \<or> cl_events c = [] \<and> cl_reading c = ReadReturned \<and> r = (c, [], [])"
  by (cases "cl_events c") (auto simp: Events_receive_def)

declare clientStep.simps(10) [simp del] receive_iff [simp]

text \<open>What a step may do, case by case; \<open>r\<close> is the new client, its effects and what was received.\<close>

lemma clientStep_returned0:
  assumes "clientStep c l = Some r" "cl_reading c = ReadReturned"
  shows "cl_reading (fst r) = ReadReturned \<and> readApp l @ readErr l = [] \<and> cl_events c = snd (snd r) @ cl_events (fst r)"
  using assms
  by (induction c l rule: clientStep.induct)
     (auto simp: client_step_defs case_prod_beta split: if_splits option.splits)

lemmas clientStep_returned = clientStep_returned0 [of _ _ "(c', es, ms)" for c' es ms, simplified]

lemma clientStep_queue0:
  assumes "clientStep c l = Some r" "length (cl_events c) \<le> eventsCapacity"
  shows "length (cl_events (fst r)) \<le> eventsCapacity"
  using assms
  by (induction c l rule: clientStep.induct)
     (auto simp: client_step_defs case_prod_beta split: if_splits option.splits reading.splits readResult.splits)

lemma readPing_other [simp]: "ms_Type m \<noteq> ''ping'' \<Longrightarrow> readPing (CRead (ReadMessage m) de we) = []"
  by (cases de; cases we) simp_all

lemma clientStep_pongs0:
  assumes "clientStep c l = Some r"
  shows "pongTokens (fst (snd r)) = readPing l"
  using assms
  by (induction c l rule: clientStep.induct)
     (auto simp: client_step_defs case_prod_beta Message_def
        split: if_splits option.splits reading.splits readResult.splits)

lemma clientStep_closed0:
  assumes "clientStep c l = Some r"
  shows "count_list (fst (snd r)) ClosedEvents
       = (if cl_reading (fst r) = ReadReturned \<and> cl_reading c \<noteq> ReadReturned then 1 else 0)"
  using assms
  by (induction c l rule: clientStep.induct)
     (auto simp: client_step_defs case_prod_beta split: if_splits option.splits reading.splits readResult.splits)

lemma clientStep_events0:
  assumes "clientStep c l = Some r"
  shows "\<exists>lost. cl_events c @ heldEvent (cl_reading c) @ readApp l @ readErr l
            = snd (snd r) @ cl_events (fst r) @ heldEvent (cl_reading (fst r)) @ lost
          \<and> length lost \<le> 1 \<and> (lost \<noteq> [] \<longrightarrow> cl_reading (fst r) = ReadReturned \<and> (cl_done (fst r) \<or> lost = readErr l))"
  using assms
  by (induction c l rule: clientStep.induct)
     (auto simp: client_step_defs case_prod_beta split: if_splits option.splits reading.splits readResult.splits)

lemma clientStep_account:
  assumes "clientStep c l = Some (c', es, ms)" "length (cl_events c) \<le> eventsCapacity"
  shows "length (cl_events c') \<le> eventsCapacity
       \<and> pongTokens es = readPing l
       \<and> count_list es ClosedEvents = (if cl_reading c' = ReadReturned \<and> cl_reading c \<noteq> ReadReturned then 1 else 0)
       \<and> (\<exists>lost. cl_events c @ heldEvent (cl_reading c) @ readApp l @ readErr l
            = ms @ cl_events c' @ heldEvent (cl_reading c') @ lost
          \<and> length lost \<le> 1 \<and> (lost \<noteq> [] \<longrightarrow> cl_reading c' = ReadReturned \<and> (cl_done c' \<or> lost = readErr l)))"
  using clientStep_queue0 [OF assms] clientStep_pongs0 [OF assms(1)] clientStep_closed0 [OF assms(1)]
    clientStep_events0 [OF assms(1)] by simp

text \<open>A failed read is the reader's last, and \<open>done\<close> stays closed.\<close>

lemma clientStep_failed:
  assumes "clientStep c l = Some r"
  shows "length (readErr l) \<le> 1 \<and> (readErr l \<noteq> [] \<longrightarrow> readApp l = [] \<and> cl_reading (fst r) = ReadReturned)"
  using assms
  by (induction c l rule: clientStep.induct)
     (auto simp: client_step_defs case_prod_beta split: if_splits option.splits reading.splits readResult.splits)

lemma clientStep_done_mono: "clientStep c l = Some r \<Longrightarrow> cl_done c \<Longrightarrow> cl_done (fst r)"
  by (induction c l rule: clientStep.induct)
     (auto simp: client_step_defs case_prod_beta split: if_splits option.splits reading.splits readResult.splits)

lemma clientRun_done_mono: "clientRun c ls = Some (c', es, ms) \<Longrightarrow> cl_done c \<Longrightarrow> cl_done c'"
  by (induction ls arbitrary: c es ms) (fastforce split: option.splits dest: clientStep_done_mono)+

lemma clientRun_returned:
  assumes "clientRun c ls = Some (c', es, ms)" "cl_reading c = ReadReturned"
  shows "cl_reading c' = ReadReturned \<and> concat (map (\<lambda>l. readApp l @ readErr l) ls) = [] \<and> cl_events c = ms @ cl_events c'"
  using assms
proof (induction ls arbitrary: c es ms)
  case (Cons l ls)
  obtain c1 es1 ms1 es2 ms2 where s: "clientStep c l = Some (c1, es1, ms1)" "clientRun c1 ls = Some (c', es2, ms2)"
      "ms = ms1 @ ms2" using Cons.prems(1) by (auto split: option.splits)
  from clientStep_returned [OF s(1) Cons.prems(2)] Cons.IH [OF s(2)] s(3) show ?case by simp
qed simp

text \<open>The messages read, then at most one failed read.\<close>

lemma clientRun_reads:
  assumes "clientRun c ls = Some (c', es, ms)"
  shows "concat (map (\<lambda>l. readApp l @ readErr l) ls) = concat (map readApp ls) @ concat (map readErr ls)
       \<and> length (concat (map readErr ls)) \<le> 1
       \<and> (concat (map readErr ls) \<noteq> [] \<longrightarrow> cl_reading c' = ReadReturned)"
  using assms
proof (induction ls arbitrary: c es ms)
  case (Cons l ls)
  obtain c1 es1 ms1 es2 ms2 where s: "clientStep c l = Some (c1, es1, ms1)" "clientRun c1 ls = Some (c', es2, ms2)"
    using Cons.prems by (auto split: option.splits)
  note f = clientStep_failed [OF s(1)]
  show ?case
  proof (cases "readErr l = []")
    case True
    then show ?thesis using Cons.IH [OF s(2)] by simp
  next
    case False
    then have "cl_reading c1 = ReadReturned" "readApp l = []" using f by simp_all
    with clientRun_returned [OF s(2)] have "cl_reading c' = ReadReturned"
        and e: "concat (map (\<lambda>l. readApp l @ readErr l) ls) = []" by blast+
    moreover from e have e': "concat (map readApp ls) = []" "concat (map readErr ls) = []" by simp_all
    ultimately show ?thesis using f \<open>readApp l = []\<close> unfolding list.map concat.simps e e' by simp
  qed
qed simp

lemma clientRun_account:
  assumes "clientRun c ls = Some (c', es, ms)" "length (cl_events c) \<le> eventsCapacity"
  shows "length (cl_events c') \<le> eventsCapacity
       \<and> pongTokens es = concat (map readPing ls)
       \<and> count_list es ClosedEvents = (if cl_reading c' = ReadReturned \<and> cl_reading c \<noteq> ReadReturned then 1 else 0)
       \<and> (\<exists>lost. cl_events c @ heldEvent (cl_reading c) @ concat (map (\<lambda>l. readApp l @ readErr l) ls)
            = ms @ cl_events c' @ heldEvent (cl_reading c') @ lost
          \<and> length lost \<le> 1
          \<and> (lost \<noteq> [] \<longrightarrow> cl_reading c' = ReadReturned \<and> (cl_done c' \<or> lost = concat (map readErr ls))))"
  using assms
proof (induction ls arbitrary: c es ms)
  case (Cons l ls)
  obtain c1 es1 ms1 es2 ms2 where s: "clientStep c l = Some (c1, es1, ms1)" "clientRun c1 ls = Some (c', es2, ms2)"
      "ms = ms1 @ ms2" "es = es1 @ es2" using Cons.prems(1) by (auto split: option.splits)
  note a = clientStep_account [OF s(1) Cons.prems(2)]
  then obtain lost1 where l1: "cl_events c @ heldEvent (cl_reading c) @ readApp l @ readErr l
      = ms1 @ cl_events c1 @ heldEvent (cl_reading c1) @ lost1" "length lost1 \<le> 1" "lost1 \<noteq> [] \<longrightarrow> cl_reading c1 = ReadReturned \<and> (cl_done c1 \<or> lost1 = readErr l)"
    by blast
  note ih = Cons.IH [OF s(2) conjunct1 [OF a]]
  have ret: "cl_reading c = ReadReturned \<Longrightarrow> cl_reading c1 = ReadReturned" "cl_reading c1 = ReadReturned \<Longrightarrow> cl_reading c' = ReadReturned"
    using clientStep_returned [OF s(1)] clientRun_returned [OF s(2)] by blast+
  have "\<exists>lost. cl_events c @ heldEvent (cl_reading c) @ concat (map (\<lambda>l. readApp l @ readErr l) (l # ls))
            = ms @ cl_events c' @ heldEvent (cl_reading c') @ lost
          \<and> length lost \<le> 1
          \<and> (lost \<noteq> [] \<longrightarrow> cl_reading c' = ReadReturned \<and> (cl_done c' \<or> lost = concat (map readErr (l # ls))))"
  proof (cases "lost1 = []")
    case True
    obtain lost2 where l2: "cl_events c1 @ heldEvent (cl_reading c1) @ concat (map (\<lambda>l. readApp l @ readErr l) ls)
        = ms2 @ cl_events c' @ heldEvent (cl_reading c') @ lost2" "length lost2 \<le> 1" "lost2 \<noteq> [] \<longrightarrow> cl_reading c' = ReadReturned \<and> (cl_done c' \<or> lost2 = concat (map readErr ls))"
      using ih by blast
    have e: "readErr l = []" if "lost2 \<noteq> []" "\<not> cl_done c'"
    proof (rule ccontr)
      assume ne: "readErr l \<noteq> []"
      with clientStep_failed [OF s(1)] have "cl_reading c1 = ReadReturned" by simp
      from clientRun_returned [OF s(2) this] have "concat (map (\<lambda>l. readApp l @ readErr l) ls) = []" by blast
      then have "concat (map readErr ls) = []" by simp
      with l2(3) show False using that by simp
    qed
    have "cl_events c @ heldEvent (cl_reading c) @ concat (map (\<lambda>l. readApp l @ readErr l) (l # ls))
        = (cl_events c @ heldEvent (cl_reading c) @ readApp l @ readErr l) @ concat (map (\<lambda>l. readApp l @ readErr l) ls)" by simp
    also have "\<dots> = ms1 @ (cl_events c1 @ heldEvent (cl_reading c1) @ concat (map (\<lambda>l. readApp l @ readErr l) ls))"
      using l1(1) True by simp
    finally show ?thesis using l2 e s(3) by (intro exI [of _ lost2]) auto
  next
    case False
    then have "cl_reading c1 = ReadReturned" using l1(3) by simp
    with clientRun_returned [OF s(2) this] have e: "concat (map (\<lambda>l. readApp l @ readErr l) ls) = []"
        "cl_events c1 = ms2 @ cl_events c'" "cl_reading c1 = ReadReturned" "cl_reading c' = ReadReturned" by blast+
    have d: "cl_done c1 \<Longrightarrow> cl_done c'" using clientRun_done_mono [OF s(2)] .
    have "concat (map readErr ls) = []" using e(1) by simp
    then show ?thesis
      unfolding list.map concat.simps e(1) using l1 e(2-4) s(3) d False by (intro exI [of _ lost1]) auto
  qed
  moreover have "count_list es ClosedEvents = (if cl_reading c' = ReadReturned \<and> cl_reading c \<noteq> ReadReturned then 1 else 0)"
    using a ih ret unfolding s(4) by (cases "cl_reading c = ReadReturned"; cases "cl_reading c1 = ReadReturned") simp_all
  moreover have "pongTokens es = concat (map readPing (l # ls))" using a ih unfolding s(4) by simp
  ultimately show ?case using conjunct1 [OF ih] by blast
qed simp

text \<open>
  (C31) What the peer's event loop receives from the broker: over any schedule of reader, pingers,
  consumer and \<open>Close\<close>, the events received, queued and held, with what was given up, are the
  messages read that are not pings or pongs, in order, followed by at most one synthetic error
  event; a failed read is the last thing the reader does, so nothing is read after it and no second
  error is made up.  At most one event, the last, is given up, only when the reader returns, and
  it is an application message only after \<open>Close\<close>: otherwise it is the synthetic error itself.  The
  queue never exceeds 32; every ping whose answer could be written is answered once with its own
  token, in order; and the events channel is closed exactly once, when the reader returns.
\<close>

theorem client_events_faithful:
  assumes "clientRun newClient ls = Some (c, es, ms)"
  shows "(\<exists>lost. ms @ cl_events c @ heldEvent (cl_reading c) @ lost = concat (map readApp ls) @ concat (map readErr ls)
          \<and> length lost \<le> 1
          \<and> (lost \<noteq> [] \<longrightarrow> cl_reading c = ReadReturned \<and> (cl_done c \<or> lost = concat (map readErr ls))))
       \<and> length (concat (map readErr ls)) \<le> 1
       \<and> (concat (map readErr ls) \<noteq> [] \<longrightarrow> cl_reading c = ReadReturned)
       \<and> length (cl_events c) \<le> 32 \<and> pongTokens es = concat (map readPing ls)
       \<and> count_list es ClosedEvents = (if cl_reading c = ReadReturned then 1 else 0)"
proof -
  have "cl_events newClient = []" "cl_reading newClient = AtDone" by (simp_all add: newClient_def)
  with clientRun_account [OF assms] clientRun_reads [OF assms] show ?thesis
    by (simp add: eventsCapacity_def) metis
qed

theorem client_events_faithful_witness:
  "\<exists>c es. clientRun newClient [CCheck,
        CRead (ReadMessage ((Message MessageTypePing)\<lparr>ms_Ping := Some \<lparr>pi_Token = ''7''\<rparr>\<rparr>)) None None, CCheck,
        CRead (ReadMessage (Message MessageTypePeerLeft)) None None, CDeliver, CReceive, CClose, CCheck]
        = Some (c, es, [Message MessageTypePeerLeft])
     \<and> pongTokens es = [''7''] \<and> count_list es ClosedEvents = 1"
proof -
  let ?ls = "[CCheck, CRead (ReadMessage ((Message MessageTypePing)\<lparr>ms_Ping := Some \<lparr>pi_Token = ''7''\<rparr>\<rparr>)) None None, CCheck,
        CRead (ReadMessage (Message MessageTypePeerLeft)) None None, CDeliver, CReceive, CClose, CCheck]"
  obtain c es where r: "clientRun newClient ?ls = Some (c, es, [Message MessageTypePeerLeft])" "cl_reading c = ReadReturned"
    by (simp add: client_step_defs newClient_def eventsCapacity_def Message_def clientStep.simps(10) Events_receive_def
        del: receive_iff)
  from client_events_faithful [OF r(1)] r(2)
  have "pongTokens es = [''7'']" "count_list es ClosedEvents = 1" by (simp_all add: Message_def)
  with r(1) show ?thesis by blast
qed

lemma clientStep_done:
  "clientStep c l = Some r \<Longrightarrow> cl_closeMu c = cl_done c \<Longrightarrow> cl_closeMu (fst r) = cl_done (fst r)"
  by (induction c l rule: clientStep.induct)
     (auto simp: client_step_defs case_prod_beta split: if_splits option.splits reading.splits readResult.splits)

lemma clientRun_done: "clientRun c ls = Some (c', es, ms) \<Longrightarrow> cl_closeMu c = cl_done c \<Longrightarrow> cl_closeMu c' = cl_done c'"
proof (induction ls arbitrary: c es ms)
  case (Cons l ls)
  obtain c1 es1 ms1 es2 ms2 where s: "clientStep c l = Some (c1, es1, ms1)" "clientRun c1 ls = Some (c', es2, ms2)"
    using Cons.prems(1) by (auto split: option.splits)
  from Cons.IH [OF s(2)] clientStep_done [OF s(1) Cons.prems(2)] show ?case by simp
qed simp

lemma workersLeft_step:
  assumes "clientStep c l = Some r" "cl_done c" "onClosedConn l"
  shows "workersLeft (fst r) + (if workerLabel l then 1 else 0) \<le> workersLeft c"
  using assms
  by (induction c l rule: clientStep.induct)
     (auto simp: client_step_defs workersLeft_def case_prod_beta
        split: if_splits option.splits reading.splits readResult.splits)

lemma workersLeft_run:
  assumes "clientRun c ls = Some (c', es, ms)" "cl_done c" "\<forall>l\<in>set ls. onClosedConn l"
  shows "workersLeft c' + length (filter workerLabel ls) \<le> workersLeft c"
  using assms
proof (induction ls arbitrary: c es ms)
  case (Cons l ls)
  obtain c1 es1 ms1 es2 ms2 where s: "clientStep c l = Some (c1, es1, ms1)" "clientRun c1 ls = Some (c', es2, ms2)"
    using Cons.prems(1) by (auto split: option.splits)
  have "cl_done c1" using clientStep_done_mono [OF s(1) Cons.prems(2)] by simp
  from Cons.IH [OF s(2) this] workersLeft_step [OF s(1) Cons.prems(2)] Cons.prems(3)
  show ?case by (auto split: if_splits)
qed simp

lemma workersLeft_bound: "workersLeft c \<le> 5"
  by (cases "cl_reading c") (simp_all add: workersLeft_def)

lemma reader_enabled:
  assumes "cl_done c" "cl_reading c \<noteq> ReadReturned"
  shows "\<exists>k\<in>{CCheck, CRead r de we, CDeliverDone}. clientStep c k \<noteq> None"
  using assms by (cases "cl_reading c"; cases r) (simp_all add: client_step_defs)

lemma pingers_enabled:
  assumes "cl_done c"
  shows "cl_appPing c \<noteq> None \<Longrightarrow> clientStep c CAppPingDone \<noteq> None"
    and "cl_wsPing c \<Longrightarrow> clientStep c CWsPingDone \<noteq> None"
  using assms by (auto simp: client_step_defs)

text \<open>
  (C32) \<open>Close\<close> returns.  From any state of a closed client, and under every schedule, with any
  results of the reads, of the consumer's receives and of further calls of \<open>Close\<close>, the three
  goroutines take at most five more steps in all, given that writes on the closed connection fail;
  and as long as one of them has not returned it can take a step of its own, without waiting for
  the consumer: the reader at its test of \<open>done\<close>, at its pending read, however that read ends and
  however full the queue is, or at the hand-over of an event, the pingers at their select.  So a
  schedule that goes on until no goroutine can move ends with all three returned, which is what
  \<open>Close\<close> waits for.
\<close>

theorem client_close_terminates:
  assumes "clientRun newClient ls = Some (c, es, ms)" and "cl_closeMu c"
    and "clientRun c ks = Some (c', es', ms')" and "\<forall>k\<in>set ks. onClosedConn k"
  shows "length (filter workerLabel ks) \<le> 5
       \<and> (cl_reading c' \<noteq> ReadReturned \<longrightarrow>
            (\<forall>r de we. \<exists>k\<in>{CCheck, CRead r de we, CDeliverDone}. clientStep c' k \<noteq> None))
       \<and> (cl_appPing c' \<noteq> None \<longrightarrow> clientStep c' CAppPingDone \<noteq> None)
       \<and> (cl_wsPing c' \<longrightarrow> clientStep c' CWsPingDone \<noteq> None)"
proof -
  have d: "cl_done c" using clientRun_done [OF assms(1)] assms(2) by (simp add: newClient_def)
  then have d': "cl_done c'" using clientRun_done_mono [OF assms(3)] by blast
  have "length (filter workerLabel ks) \<le> 5"
    using workersLeft_run [OF assms(3) d assms(4)] workersLeft_bound [of c] by simp
  then show ?thesis using reader_enabled [OF d'] pingers_enabled [OF d'] by blast
qed

text \<open>A closed client whose pending read fails with an error other than a close frame.\<close>

theorem client_close_terminates_witness:
  "\<exists>c es c' es'. clientRun newClient [CCheck, CClose] = Some (c, es, [])
     \<and> clientRun c [CWsPing (Some (errors_New ''closed'')), CRead (ReadFailed ''use of closed network connection'') None None]
         = Some (c', es', [])
     \<and> cl_reading c' = ReadReturned \<and> clientStep c' CAppPingDone \<noteq> None"
proof -
  obtain c es where r: "clientRun newClient [CCheck, CClose] = Some (c, es, [])" "cl_closeMu c"
      and c: "c = newClient\<lparr>cl_reading := AtReadJSON, cl_closeMu := True, cl_done := True\<rparr>"
    by (simp add: client_step_defs newClient_def)
  obtain c' es' where r': "clientRun c [CWsPing (Some (errors_New ''closed'')),
      CRead (ReadFailed ''use of closed network connection'') None None] = Some (c', es', [])"
      "cl_reading c' = ReadReturned" "cl_appPing c' \<noteq> None"
    by (simp add: c client_step_defs newClient_def eventsCapacity_def)
  from client_close_terminates [OF r r'(1)] r'(2,3) r(1) r'(1) show ?thesis by auto
qed

end
