(* ===== verification/PeerMain.thy ===== *)
theory PeerMain
  imports Session Client Socks5 Proxy
begin

text \<open>
  The peer program of \<^verbatim>\<open>cmd/rtc2tcp-peer/main.go\<close> from validated options on: startup, the event loop
  with its goroutines (the waiter for authentication, the listener, the SOCKS5 handlers), signals,
  streams, and the classification of failures.

  The state of \<open>runPeer\<close> is a record of its locals.  A step is one round of the select loop, one
  callback of the WebRTC stack, or one step of a goroutine; what the environment returns in a step
  (the stack, the broker connection, the listener) is an argument.  The session of the loop is the
  one of theory \<open>Session\<close>, its state machine the one the loop created.  Terminal output is left out;
  log events are effects.
\<close>

section \<open>Definitions\<close>

definition defaultSTUN :: string where
  "defaultSTUN = ''stun:stun.l.google.com:19302''"

definition defaultListen :: string where
  "defaultListen = ''127.0.0.1:2222''"

definition context_Canceled :: gerror where
  "context_Canceled = Sentinel ''context.Canceled''"

definition context_DeadlineExceeded :: gerror where
  "context_DeadlineExceeded = Sentinel ''context.DeadlineExceeded''"

subsection \<open>Failure classification\<close>

definition isPreAuthTransportFailure :: "gerror \<Rightarrow> bool" where
  "isPreAuthTransportFailure err =
     (if errors_Is err ErrPeerConnectionFailed then True
      else if errors_Is err ErrPeerConnectionClosed then True
      else if errors_Is err ErrControlChannelClosed then True
      else if errors_Is err ErrSessionClosed then True
      else False)"

record preAuthFailure =
  pf_event :: string
  pf_message :: string

definition classifyPreAuthFailure :: "gerror \<Rightarrow> preAuthFailure" where
  "classifyPreAuthFailure err =
     (if isPreAuthTransportFailure err
      then \<lparr>pf_event = ''transport_failure'', pf_message = ''transport failed before authentication''\<rparr>
      else \<lparr>pf_event = ''auth_failure'', pf_message = ''authentication failed''\<rparr>)"

definition authFailureReason :: "gerror \<Rightarrow> string" where
  "authFailureReason err =
     (if errors_Is err ErrAuthSchemeMismatch then ''scheme_mismatch''
      else if errors_Is err ErrAuthRoleMismatch then ''role_mismatch''
      else if errors_Is err ErrAuthInvalidShare then ''invalid_share''
      else if errors_Is err ErrAuthConfirmationMismatch then ''confirmation_mismatch''
      else if errors_Is err ErrAuthUnexpectedKind then ''unexpected_kind''
      else if errors_Is err ErrAuthStateOutOfOrder then ''state_out_of_order''
      else if errors_Is err ErrAuthUnsupportedScheme then ''unsupported_scheme''
      else if errors_Is err context_DeadlineExceeded then ''timeout''
      else if errors_Is err context_Canceled then ''canceled''
      else ''unclassified'')"

definition transportFailureReason :: "gerror \<Rightarrow> string" where
  "transportFailureReason err =
     (if errors_Is err ErrPeerConnectionFailed then ''peer_connection_failed''
      else if errors_Is err ErrPeerConnectionClosed then ''peer_connection_closed''
      else if errors_Is err ErrControlChannelClosed then ''control_channel_closed''
      else if errors_Is err ErrSessionClosed then ''session_closed''
      else ''unclassified'')"

subsection \<open>State and effects\<close>

datatype peffect =
    PSession seffect
  | PClient ceffect
  | PEvent string "(string \<times> string) list" "gerror option"
  | PGoListener bool
  | PListenerClose
  | PGoSocks nat
  | PConnClose nat
  | POnOpenBridge nat nat
  | POnOpenSocks nat string
  | PSocksConn bytes
  | PSocksConnClose
  | PClientClose

text \<open>A result channel of capacity one: not made, made and empty, holding the result, or read.\<close>

datatype resultCh = ChNil | ChEmpty | ChHolds "gerror option" | ChRead

record 'a peerLoop =
  pm_options :: PeerOptions
  pm_authenticator :: 'a
  pm_stateMachine :: stateMachine
  pm_session :: "'a Session option"
  pm_authResultCh :: resultCh
  pm_listenerResultCh :: resultCh
  pm_listenerStarted :: bool
  pm_accepting :: bool
  pm_socksHandlers :: nat
  pm_brokerEvents :: bool
  pm_streamCounter :: "64 word"
  pm_result :: "gerror option option"

text \<open>What the outside returns in a step: the stack, \<open>NewPeerConnection\<close>, and the broker connection.\<close>

record penv =
  pv_pion :: pion_env
  pv_newPC :: "ice_server list \<Rightarrow> gerror option"
  pv_deadlineErr :: "gerror option"
  pv_writeErr :: "gerror option"

subsection \<open>Signals\<close>

definition sendSignal :: "penv \<Rightarrow> Signal \<Rightarrow> peffect list \<times> gerror option" where
  "sendSignal V sg =
     (case SendSignal (pv_deadlineErr V) (pv_writeErr V) sg of (es, err) \<Rightarrow> (map PClient es, err))"

text \<open>The session's \<open>OnSignal\<close> callback, and the effects of the session with it.\<close>

definition onSignal :: "penv \<Rightarrow> Signal \<Rightarrow> peffect list" where
  "onSignal V sg =
     (case sendSignal V sg of
        (es, None) \<Rightarrow> es
      | (es, Some err) \<Rightarrow> es @ [PEvent ''signal_dispatch_failed'' [(''kind'', sg_Kind sg)] (Some err)])"

definition sessionEffect :: "penv \<Rightarrow> seffect \<Rightarrow> peffect list" where
  "sessionEffect V e = PSession e # (case e of OnSignal sg \<Rightarrow> onSignal V sg | _ \<Rightarrow> [])"

definition sessionEffects :: "penv \<Rightarrow> seffect list \<Rightarrow> peffect list" where
  "sessionEffects V es = concat (map (sessionEffect V) es)"

definition handleSignal ::
  "unicode \<Rightarrow> (string \<Rightarrow> sdp_desc res) \<Rightarrow> auth_codec \<Rightarrow> 'a auth_iface \<Rightarrow> penv \<Rightarrow> 'a Session \<Rightarrow> Signal
    \<Rightarrow> 'a Session \<times> peffect list \<times> gerror option" where
  "handleSignal U parse J A V s sg =
     (if sg_Kind sg = SignalKindOffer then
        (case sg_SDP sg of
           None \<Rightarrow> (s, [], Some (errors_New ''offer payload is required''))
         | Some sdp \<Rightarrow>
             (case HandleOffer U parse (pv_pion V) J A s (sdp_SDP sdp) of
                (s1, es, Inl err) \<Rightarrow> (s1, sessionEffects V es, Some err)
              | (s1, es, Inr answer) \<Rightarrow>
                  (case sendSignal V \<lparr>sg_Kind = SignalKindAnswer, sg_SDP = Some \<lparr>sdp_Type = ''answer'', sdp_SDP = answer\<rparr>,
                           sg_Candidate = None\<rparr> of
                     (fs, Some err) \<Rightarrow> (s1, sessionEffects V es @ fs, Some err)
                   | (fs, None) \<Rightarrow> (s1, sessionEffects V es @ fs @ [PEvent ''answered_remote_offer'' [] None], None))))
      else if sg_Kind sg = SignalKindAnswer then
        (case sg_SDP sg of
           None \<Rightarrow> (s, [], Some (errors_New ''answer payload is required''))
         | Some sdp \<Rightarrow>
             (case HandleAnswer U parse (pv_pion V) J A s (sdp_SDP sdp) of
                (s1, es, Some err) \<Rightarrow> (s1, sessionEffects V es, Some err)
              | (s1, es, None) \<Rightarrow> (s1, sessionEffects V es @ [PEvent ''applied_remote_answer'' [] None], None)))
      else if sg_Kind sg = SignalKindICE then
        (case sg_Candidate sg of
           None \<Rightarrow> (s, [], Some (errors_New ''ICE candidate payload is required''))
         | Some c \<Rightarrow> (case AddRemoteCandidate (pv_pion V) s c of (s1, es, err) \<Rightarrow> (s1, sessionEffects V es, err)))
      else (s, [], Some (Errorf ''unsupported signal kind %q'' [sg_Kind sg] [])))"

subsection \<open>Returning\<close>

text \<open>A \<open>return\<close> of \<open>runPeer\<close> with its deferred calls: the session is closed, then the client.\<close>

definition returnWith :: "penv \<Rightarrow> 'a peerLoop \<Rightarrow> gerror option \<Rightarrow> 'a peerLoop \<times> peffect list" where
  "returnWith V p r =
     (case pm_session p of
        None \<Rightarrow> (p\<lparr>pm_result := Some r\<rparr>, [PClientClose])
      | Some s \<Rightarrow>
          (case Close (pv_pion V) s of (s1, es) \<Rightarrow>
             (p\<lparr>pm_session := Some s1, pm_result := Some r\<rparr>, sessionEffects V es @ [PClientClose])))"

text \<open>\<open>return failSession(err)\<close>, with the error passed to the session and the one returned.\<close>

definition failReturn :: "penv \<Rightarrow> 'a peerLoop \<Rightarrow> gerror \<Rightarrow> gerror \<Rightarrow> 'a peerLoop \<times> peffect list" where
  "failReturn V p sessionErr err =
     (case pm_session p of
        None \<Rightarrow> returnWith V p (Some err)
      | Some s \<Rightarrow>
          (case Fail (pv_pion V) s (Some sessionErr) of (s1, es) \<Rightarrow>
             (case returnWith V (p\<lparr>pm_session := Some s1\<rparr>) (Some err) of (p1, fs) \<Rightarrow> (p1, sessionEffects V es @ fs))))"

definition failSession :: "penv \<Rightarrow> 'a peerLoop \<Rightarrow> gerror \<Rightarrow> 'a peerLoop \<times> peffect list" where
  "failSession V p err = failReturn V p err err"

subsection \<open>The event loop\<close>

definition startListener :: "'a peerLoop \<Rightarrow> 'a peerLoop \<times> peffect list" where
  "startListener p =
     (if pm_listenerStarted p \<or> po_Mode (pm_options p) \<noteq> ModeConnect then (p, [])
      else (p\<lparr>pm_listenerStarted := True, pm_listenerResultCh := ChEmpty\<rparr>, [PGoListener (po_SOCKS5 (pm_options p))]))"

definition loopState :: "'a peerLoop \<Rightarrow> stateMachine" where
  "loopState p = (case pm_session p of None \<Rightarrow> pm_stateMachine p | Some s \<Rightarrow> se_stateMachine s)"

definition postAuth :: "'a peerLoop \<Rightarrow> bool" where
  "postAuth p = IsOneOf (loopState p) [StateAuthenticated, StateStreaming]"

definition onBrokerLoss :: "'a peerLoop \<Rightarrow> string \<Rightarrow> 'a peerLoop \<times> peffect list" where
  "onBrokerLoss p reason = (p\<lparr>pm_brokerEvents := False\<rparr>, [PEvent ''broker_detached'' [(''reason'', reason)] None])"

definition authFailureEvent :: "'a auth_iface \<Rightarrow> 'a peerLoop \<Rightarrow> gerror \<Rightarrow> peffect" where
  "authFailureEvent A p err =
     (if pf_event (classifyPreAuthFailure err) = ''transport_failure'' then
        PEvent ''transport_failure'' [(''mode'', po_Mode (pm_options p)), (''reason'', transportFailureReason err)] (Some err)
      else PEvent ''auth_failure'' [(''mode'', po_Mode (pm_options p)),
             (''scheme'', ai_Name A (case pm_session p of Some s \<Rightarrow> se_authenticator s | None \<Rightarrow> pm_authenticator p)),
             (''reason'', authFailureReason err)] (Some err))"

definition onAuthResult :: "'a auth_iface \<Rightarrow> penv \<Rightarrow> 'a peerLoop \<Rightarrow> gerror option \<Rightarrow> 'a peerLoop \<times> peffect list" where
  "onAuthResult A V p r =
     (case r of
        Some err \<Rightarrow>
          (case failReturn V p (Errorf ''authentication did not complete: %w'' [] [err]) err of
             (p1, es) \<Rightarrow> (p1, authFailureEvent A p err # es))
      | None \<Rightarrow>
          (case startListener p of (p1, es) \<Rightarrow>
             (p1, PEvent ''session_ready'' [(''mode'', po_Mode (pm_options p))] None # es
                  @ (if po_Mode (pm_options p) = ModeExpose then
                       (if po_SOCKS5 (pm_options p) then [PEvent ''expose_ready_socks5'' [] None]
                        else [PEvent ''expose_ready'' [(''target'', po_Target (pm_options p))] None])
                     else []))))"

definition sessionConfig :: "'a peerLoop \<Rightarrow> stateMachine \<Rightarrow> Paired \<Rightarrow> 'a session_config" where
  "sessionConfig p sm paired =
     \<lparr>sc_Mode = po_Mode (pm_options p), sc_SessionID = pd_SessionID paired, sc_Initiator = pd_Initiator paired,
      sc_ICE = po_ICE (pm_options p), sc_Authenticator = Some (pm_authenticator p), sc_StateMachine = Some sm,
      sc_hasOnSignal = True, sc_hasOnStream = (po_Mode (pm_options p) = ModeExpose)\<rparr>"

text \<open>The offer of the initiator, once the session exists.\<close>

definition sendOffer ::
  "unicode \<Rightarrow> (string \<Rightarrow> sdp_desc res) \<Rightarrow> auth_codec \<Rightarrow> 'a auth_iface \<Rightarrow> penv \<Rightarrow> 'a peerLoop \<Rightarrow> 'a Session \<Rightarrow> string
    \<Rightarrow> 'a peerLoop \<times> peffect list" where
  "sendOffer U parse J A V p s sessionID =
     (case CreateOffer U parse (pv_pion V) J A s of
        (s1, es, Inl err) \<Rightarrow>
          (case failSession V (p\<lparr>pm_session := Some s1\<rparr>) err of (p1, fs) \<Rightarrow> (p1, sessionEffects V es @ fs))
      | (s1, es, Inr offer) \<Rightarrow>
          (case sendSignal V \<lparr>sg_Kind = SignalKindOffer, sg_SDP = Some \<lparr>sdp_Type = ''offer'', sdp_SDP = offer\<rparr>,
                   sg_Candidate = None\<rparr> of
             (fs, Some err) \<Rightarrow>
               (case failSession V (p\<lparr>pm_session := Some s1\<rparr>) err of (p1, gs) \<Rightarrow> (p1, sessionEffects V es @ fs @ gs))
           | (fs, None) \<Rightarrow>
               (p\<lparr>pm_session := Some s1\<rparr>,
                sessionEffects V es @ fs @ [PEvent ''offer_sent'' [(''session_id'', sessionID)] None])))"

definition onPaired ::
  "unicode \<Rightarrow> (string \<Rightarrow> sdp_desc res) \<Rightarrow> auth_codec \<Rightarrow> 'a auth_iface \<Rightarrow> penv \<Rightarrow> 'a peerLoop \<Rightarrow> Paired option
    \<Rightarrow> 'a peerLoop \<times> peffect list" where
  "onPaired U parse J A V p mpaired =
     (case mpaired of
        None \<Rightarrow> returnWith V p (Some (errors_New ''broker paired message missing payload''))
      | Some paired \<Rightarrow>
          if pm_session p \<noteq> None then returnWith V p (Some (errors_New ''received duplicate paired message''))
          else (case Transition (pm_stateMachine p) StateSignaling of
             (sm, Some err) \<Rightarrow> returnWith V (p\<lparr>pm_stateMachine := sm\<rparr>) (Some err)
           | (sm, None) \<Rightarrow>
               (case NewSession (pv_pion V) (pv_newPC V) (sessionConfig p sm paired) of
                  (Inl err, es) \<Rightarrow>
                    (case failSession V (p\<lparr>pm_stateMachine := sm\<rparr>) err of (p1, fs) \<Rightarrow> (p1, sessionEffects V es @ fs))
                | (Inr (s, es), fs) \<Rightarrow>
                    (let p1 = p\<lparr>pm_stateMachine := sm, pm_session := Some s, pm_authResultCh := ChEmpty\<rparr> in
                     if pd_Initiator paired then
                       (case sendOffer U parse J A V p1 s (pd_SessionID paired) of
                          (p2, gs) \<Rightarrow> (p2, sessionEffects V (es @ fs) @ gs))
                     else (p1, sessionEffects V (es @ fs))))))"

definition onBrokerMessage ::
  "unicode \<Rightarrow> (string \<Rightarrow> sdp_desc res) \<Rightarrow> auth_codec \<Rightarrow> 'a auth_iface \<Rightarrow> penv \<Rightarrow> 'a peerLoop \<Rightarrow> message
    \<Rightarrow> 'a peerLoop \<times> peffect list" where
  "onBrokerMessage U parse J A V p m =
     (if ms_Type m = MessageTypeRegistered then
        (p, case ms_Registered m of None \<Rightarrow> [] | Some r \<Rightarrow> [PEvent ''peer_id_assigned'' [(''peer_id'', rd_PeerID r)] None])
      else if ms_Type m = MessageTypePaired then onPaired U parse J A V p (ms_Paired m)
      else if ms_Type m = MessageTypeSignal then
        (case ms_Signal m of
           None \<Rightarrow> failSession V p (errors_New ''signal message missing payload'')
         | Some sg \<Rightarrow>
             (case pm_session p of
                None \<Rightarrow> returnWith V p (Some (errors_New ''received signal before pairing''))
              | Some s \<Rightarrow>
                  (case handleSignal U parse J A V s sg of
                     (s1, es, None) \<Rightarrow> (p\<lparr>pm_session := Some s1\<rparr>, es)
                   | (s1, es, Some err) \<Rightarrow>
                       (case failSession V (p\<lparr>pm_session := Some s1\<rparr>) err of (p1, fs) \<Rightarrow> (p1, es @ fs)))))
      else if ms_Type m = MessageTypePeerLeft then
        (let reason = (case ms_PeerLeft m of
                         Some l \<Rightarrow> if pl_Reason l \<noteq> [] then pl_Reason l else ''peer left''
                       | None \<Rightarrow> ''peer left'') in
         failReturn V p (Errorf ''peer left: %s'' [reason] []) (Errorf ''broker reported session end: %s'' [reason] []))
      else if ms_Type m = MessageTypeError then
        (case ms_Error m of
           None \<Rightarrow> failSession V p (errors_New ''broker returned an unspecified error'')
         | Some e \<Rightarrow>
             if er_Code e = ''broker-read'' \<and> postAuth p then onBrokerLoss p (''broker-read: '' @ er_Message e)
             else failSession V p (Errorf ''broker error [%s]: %s'' [er_Code e, er_Message e] []))
      else (p, [PEvent ''unexpected_broker_message'' [(''type'', ms_Type m)] None]))"

definition onListenerResult :: "penv \<Rightarrow> 'a peerLoop \<Rightarrow> gerror option \<Rightarrow> 'a peerLoop \<times> peffect list" where
  "onListenerResult V p r =
     (case r of
        Some err \<Rightarrow> if \<not> errors_Is err context_Canceled then failSession V p err else returnWith V p None
      | None \<Rightarrow> returnWith V p None)"

datatype pinput = InDone | InAuth | InListener | InBroker message | InBrokerClosed

text \<open>One round of the loop; \<open>None\<close> when the chosen case of the select is not ready.\<close>

fun loopStep ::
  "unicode \<Rightarrow> (string \<Rightarrow> sdp_desc res) \<Rightarrow> auth_codec \<Rightarrow> 'a auth_iface \<Rightarrow> penv \<Rightarrow> 'a peerLoop \<Rightarrow> pinput
    \<Rightarrow> ('a peerLoop \<times> peffect list) option" where
  "loopStep U parse J A V p InDone = Some (returnWith V p None)"
| "loopStep U parse J A V p InAuth =
     (case pm_authResultCh p of
        ChHolds r \<Rightarrow> Some (onAuthResult A V (p\<lparr>pm_authResultCh := ChRead\<rparr>) r) | _ \<Rightarrow> None)"
| "loopStep U parse J A V p InListener =
     (case pm_listenerResultCh p of
        ChHolds r \<Rightarrow> Some (onListenerResult V (p\<lparr>pm_listenerResultCh := ChRead\<rparr>) r) | _ \<Rightarrow> None)"
| "loopStep U parse J A V p (InBroker m) =
     (if pm_brokerEvents p then Some (onBrokerMessage U parse J A V p m) else None)"
| "loopStep U parse J A V p InBrokerClosed =
     (if \<not> pm_brokerEvents p then None
      else if postAuth p then Some (onBrokerLoss p ''events channel closed'')
      else Some (failSession V p (errors_New ''broker connection closed'')))"

subsection \<open>Listeners\<close>

datatype accept = Accepted nat | AcceptTimeout | AcceptFailed gerror

text \<open>\<open>net.Listen\<close> at the start of \<open>runListener\<close> and \<open>runSOCKS5Listener\<close>.\<close>

definition listenerListen :: "'a peerLoop \<Rightarrow> gerror option \<Rightarrow> ('a peerLoop \<times> peffect list) option" where
  "listenerListen p err =
     (if \<not> (pm_listenerStarted p \<and> pm_listenerResultCh p = ChEmpty \<and> \<not> pm_accepting p) then None
      else (case err of
        Some e \<Rightarrow> Some (p\<lparr>pm_listenerResultCh :=
                     ChHolds (Some (Errorf ''listen on %s: %w'' [po_Listen (pm_options p)] [e]))\<rparr>, [])
      | None \<Rightarrow> Some (p\<lparr>pm_accepting := True\<rparr>,
                  [PEvent (if po_SOCKS5 (pm_options p) then ''socks5_listening'' else ''listening'')
                     [(''addr'', po_Listen (pm_options p))] None])))"

definition listenerReturn :: "'a peerLoop \<Rightarrow> gerror \<Rightarrow> 'a peerLoop \<times> peffect list" where
  "listenerReturn p err = (p\<lparr>pm_accepting := False, pm_listenerResultCh := ChHolds (Some err)\<rparr>, [PListenerClose])"

text \<open>\<open>OpenStreamChannel\<close> on the session of the loop; a nil session would be dereferenced.\<close>

definition openStream :: "penv \<Rightarrow> 'a peerLoop \<Rightarrow> string \<Rightarrow> 'a peerLoop \<times> peffect list \<times> nat res" where
  "openStream V p label =
     (case pm_session p of
        None \<Rightarrow> (p, [], Inl (errors_New ''panic: nil session''))
      | Some s \<Rightarrow>
          (case OpenStreamChannel (pv_pion V) s label of (s1, es, r) \<Rightarrow>
             (p\<lparr>pm_session := Some s1\<rparr>, sessionEffects V es, r)))"

text \<open>One round of the accept loop of \<open>runListener\<close>.\<close>

definition runListener_accept ::
  "penv \<Rightarrow> gerror option \<Rightarrow> accept \<Rightarrow> 'a peerLoop \<Rightarrow> 'a peerLoop \<times> peffect list" where
  "runListener_accept V ctxErr acc p =
     (case acc of
        Accepted conn \<Rightarrow>
          (let streamID = pm_streamCounter p + 1; label = ''tcp-'' @ FormatNat (unat streamID);
               p1 = p\<lparr>pm_streamCounter := streamID\<rparr> in
           case openStream V p1 label of
             (p2, es, Inl err) \<Rightarrow>
               (case listenerReturn p2 (Errorf ''open stream channel %s: %w'' [label] [err]) of
                  (p3, fs) \<Rightarrow> (p3, es @ [PConnClose conn] @ fs))
           | (p2, es, Inr dc) \<Rightarrow> (p2, es @ [PEvent ''local_accept'' [(''stream'', label)] None, POnOpenBridge dc conn]))
      | _ \<Rightarrow>
          (case ctxErr of
             Some e \<Rightarrow> listenerReturn p e
           | None \<Rightarrow>
               (case acc of
                  AcceptTimeout \<Rightarrow> (p, [])
                | AcceptFailed err \<Rightarrow> listenerReturn p (Errorf ''accept local connection: %w'' [] [err]))))"

definition runSOCKS5Listener_accept :: "gerror option \<Rightarrow> accept \<Rightarrow> 'a peerLoop \<Rightarrow> 'a peerLoop \<times> peffect list" where
  "runSOCKS5Listener_accept ctxErr acc p =
     (case acc of
        Accepted conn \<Rightarrow> (p\<lparr>pm_socksHandlers := pm_socksHandlers p + 1\<rparr>, [PGoSocks conn])
      | _ \<Rightarrow>
          (case ctxErr of
             Some e \<Rightarrow> listenerReturn p e
           | None \<Rightarrow>
               (case acc of
                  AcceptTimeout \<Rightarrow> (p, [])
                | AcceptFailed err \<Rightarrow> listenerReturn p (Errorf ''accept SOCKS5 connection: %w'' [] [err]))))"

definition socks5Label :: "64 word \<Rightarrow> string \<Rightarrow> string" where
  "socks5Label streamID target = ''socks5-'' @ FormatNat (unat streamID) @ ''|'' @ target"

text \<open>\<open>handleSOCKS5Connect\<close> up to the registration of \<open>OnOpen\<close>, in its own goroutine.\<close>

definition handleSOCKS5Connect :: "penv \<Rightarrow> sconn \<Rightarrow> 'a peerLoop \<Rightarrow> 'a peerLoop \<times> sconn \<times> peffect list" where
  "handleSOCKS5Connect V conn p =
     (case Handshake conn of
        (c1, Inl err) \<Rightarrow> (p, c1, [PEvent ''socks5_handshake_failed'' [] (Some err), PSocksConnClose])
      | (c1, Inr target) \<Rightarrow>
          (let streamID = pm_streamCounter p + 1; label = socks5Label streamID target;
               p1 = p\<lparr>pm_streamCounter := streamID\<rparr> in
           case openStream V p1 label of
             (p2, es, Inl err) \<Rightarrow>
               (p2, ReplyFailure c1,
                es @ [PSocksConnClose, PEvent ''socks5_stream_open_failed'' [(''target'', target)] (Some err)])
           | (p2, es, Inr dc) \<Rightarrow>
               (p2, c1, es @ [PEvent ''socks5_connecting'' [(''stream'', label), (''target'', target)] None,
                              POnOpenSocks dc label])))"

text \<open>Its \<open>OnOpen\<close> callback: the ready signal within fifteen seconds, then the bridge, then the reply.\<close>

datatype xeffect = XEvent string "(string \<times> string) list" "gerror option" | XDial string | XSend bytes | XBridge | XCloseConn | XCloseDC

definition socks5OnOpen :: "bool \<Rightarrow> sconn \<Rightarrow> string \<Rightarrow> string \<Rightarrow> sconn \<times> xeffect list" where
  "socks5OnOpen ready conn label target =
     (if \<not> ready then
        (conn, [XEvent ''socks5_ready_timeout'' [(''stream'', label), (''target'', target)] None, XCloseConn, XCloseDC])
      else (case ReplySuccess conn of
              (c1, None) \<Rightarrow> (c1, [XBridge])
            | (c1, Some err) \<Rightarrow> (c1, [XBridge, XCloseConn, XCloseDC])))"

subsection \<open>Streams of the exposing peer\<close>

definition parseSocks5Label :: "string \<Rightarrow> string res" where
  "parseSocks5Label label =
     (case IndexByte label CHR ''|'' of
        None \<Rightarrow> Inl (Errorf ''malformed socks5 channel label %q'' [label] [])
      | Some idx \<Rightarrow>
          if idx = length label - 1 then Inl (Errorf ''malformed socks5 channel label %q'' [label] [])
          else Inr (drop (idx + 1) label))"

text \<open>The goroutine that \<open>handleExposeStream\<close> starts when the channel opens.\<close>

definition handleExposeStream ::
  "string \<Rightarrow> bool \<Rightarrow> string \<Rightarrow> (string \<Rightarrow> gerror option) \<Rightarrow> gerror option \<Rightarrow> xeffect list" where
  "handleExposeStream target socks5Mode label dialErr sendErr =
     (case (if socks5Mode then parseSocks5Label label else Inr target) of
        Inl err \<Rightarrow> [XEvent ''socks5_bad_label'' [(''label'', label)] (Some err), XCloseDC]
      | Inr actualTarget \<Rightarrow>
          [XEvent ''inbound_stream_opened'' [(''label'', label), (''target'', actualTarget)] None, XDial actualTarget]
          @ (case dialErr actualTarget of
               Some err \<Rightarrow> [XEvent ''target_dial_failed'' [(''target'', actualTarget)] (Some err), XCloseDC]
             | None \<Rightarrow>
                 if socks5Mode then
                   (case sendErr of
                      Some err \<Rightarrow> [XEvent ''socks5_ready_signal_failed'' [(''label'', label)] (Some err), XCloseConn, XCloseDC]
                    | None \<Rightarrow> [XSend [1], XBridge])
                 else [XBridge]))"

subsection \<open>The whole program\<close>

datatype pstep =
    StLoop penv pinput
  | StCallback penv sevent
  | StAuthWait "gerror option"
  | StListen "gerror option"
  | StAccept penv "gerror option" accept
  | StSocks penv sconn

text \<open>The events that the WebRTC stack delivers, as opposed to calls of the program.\<close>

fun isCallback :: "sevent \<Rightarrow> bool" where
  "isCallback (EvICECandidate _) = True" | "isCallback (EvConnectionState _) = True" | "isCallback (EvDataChannel _ _) = True"
| "isCallback EvControlOpen = True" | "isCallback (EvControlMessage _) = True" | "isCallback EvControlClose = True"
| "isCallback _ = False"

text \<open>The goroutine that waits for the session: its result, or the error of its context.\<close>

definition authWait :: "'a peerLoop \<Rightarrow> gerror option \<Rightarrow> ('a peerLoop \<times> peffect list) option" where
  "authWait p ctxErr =
     (case (pm_authResultCh p, pm_session p) of
        (ChEmpty, Some s) \<Rightarrow>
          (case ctxErr of
             Some e \<Rightarrow> Some (p\<lparr>pm_authResultCh := ChHolds (Some e)\<rparr>, [])
           | None \<Rightarrow> (case WaitAuthenticated s of
                       Some r \<Rightarrow> Some (p\<lparr>pm_authResultCh := ChHolds r\<rparr>, []) | None \<Rightarrow> None))
      | _ \<Rightarrow> None)"

fun peerStep ::
  "unicode \<Rightarrow> (string \<Rightarrow> sdp_desc res) \<Rightarrow> auth_codec \<Rightarrow> 'a auth_iface \<Rightarrow> 'a peerLoop \<Rightarrow> pstep
    \<Rightarrow> ('a peerLoop \<times> peffect list) option" where
  "peerStep U parse J A p (StLoop V i) = (if pm_result p = None then loopStep U parse J A V p i else None)"
| "peerStep U parse J A p (StCallback V ev) =
     (case pm_session p of
        Some s \<Rightarrow> if isCallback ev then
                    (case sessionStep U parse J A (pv_pion V) s ev of (s1, es) \<Rightarrow>
                       Some (p\<lparr>pm_session := Some s1\<rparr>, sessionEffects V es))
                  else None
      | None \<Rightarrow> None)"
| "peerStep U parse J A p (StAuthWait e) = authWait p e"
| "peerStep U parse J A p (StListen e) = listenerListen p e"
| "peerStep U parse J A p (StAccept V e a) =
     (if \<not> pm_accepting p then None
      else if po_SOCKS5 (pm_options p) then Some (runSOCKS5Listener_accept e a p)
      else Some (runListener_accept V e a p))"
| "peerStep U parse J A p (StSocks V conn) =
     (if pm_socksHandlers p = 0 then None
      else (case handleSOCKS5Connect V conn (p\<lparr>pm_socksHandlers := pm_socksHandlers p - 1\<rparr>) of
              (p1, c1, es) \<Rightarrow> Some (p1, es @ [PSocksConn (cn_out c1)])))"

fun peerRun ::
  "unicode \<Rightarrow> (string \<Rightarrow> sdp_desc res) \<Rightarrow> auth_codec \<Rightarrow> 'a auth_iface \<Rightarrow> 'a peerLoop \<Rightarrow> pstep list
    \<Rightarrow> ('a peerLoop \<times> peffect list) option" where
  "peerRun U parse J A p [] = Some (p, [])"
| "peerRun U parse J A p (st # sts) =
     (case peerStep U parse J A p st of
        None \<Rightarrow> None
      | Some (p1, es) \<Rightarrow> (case peerRun U parse J A p1 sts of None \<Rightarrow> None | Some (p2, fs) \<Rightarrow> Some (p2, es @ fs)))"

text \<open>
  \<open>runPeer\<close> up to its loop: the checks, the authenticator with the downgrade guard, the broker
  connection and the registration.  The result is the state at the loop, or the error returned.
\<close>

definition runPeer_start ::
  "('s, 'e, 'r) crypto \<Rightarrow> unicode \<Rightarrow> unicode \<Rightarrow> gerror option \<Rightarrow> gerror option \<Rightarrow> gerror option \<Rightarrow> string \<Rightarrow> PeerOptions
    \<Rightarrow> ('s, 'e, 'r) authenticator peerLoop res \<times> peffect list" where
  "runPeer_start C U U' dialErr deadlineErr writeErr buildVersion options =
     (case PeerOptions_Validate options of
        Some err \<Rightarrow> (Inl err, [])
      | None \<Rightarrow>
      (case ValidateToken (po_RendezvousToken options) of
        Inl err \<Rightarrow> (Inl err, [])
      | Inr rendezvousToken \<Rightarrow>
      (case NewInteractiveAuthenticator C (po_PairingSecret options) of
        Inl err \<Rightarrow> (Inl err, [])
      | Inr authenticator \<Rightarrow>
      if ai_Name (interactiveIface C U') authenticator \<noteq> SchemeCPACEV2 then
        (Inl (Errorf ''peer requires auth scheme %q, got %q'' [SchemeCPACEV2, ai_Name (interactiveIface C U') authenticator] []), [])
      else (case Dial U dialErr (po_BrokerURL options) of
        Inl err \<Rightarrow> (Inl err, [])
      | Inr (client, es) \<Rightarrow>
      (case Client_Register deadlineErr writeErr
              \<lparr>rg_RendezvousToken = rendezvousToken, rg_Mode = po_Mode options, rg_Version = buildVersion\<rparr> of
        (fs, Some err) \<Rightarrow> (Inl err, map PClient (es @ fs) @ [PClientClose])
      | (fs, None) \<Rightarrow>
      (let reg = PEvent ''rendezvous_registered'' [(''mode'', po_Mode options), (''broker'', po_BrokerURL options)] None in
       case Transition NewStateMachine StateRendezvous of
        (sm, Some err) \<Rightarrow> (Inl err, map PClient (es @ fs) @ [reg, PClientClose])
      | (sm, None) \<Rightarrow>
          (Inr \<lparr>pm_options = options, pm_authenticator = authenticator, pm_stateMachine = sm, pm_session = None,
                pm_authResultCh = ChNil, pm_listenerResultCh = ChNil, pm_listenerStarted = False, pm_accepting = False,
                pm_socksHandlers = 0, pm_brokerEvents = True, pm_streamCounter = 0, pm_result = None\<rparr>,
           map PClient (es @ fs) @ [reg])))))))"

end
