(* ===== verification/PeerProofs.thy ===== *)
theory PeerProofs
  imports PeerMain SessionProofs
begin

text \<open>
  Correctness of the peer program: it drives at most one session, and only through the session's
  methods and callbacks; nothing is tunnelled before authentication; whatever way it returns, the
  session and the broker connection are closed exactly once; the loss of the broker ends it before
  authentication only; and the target of a SOCKS5 client is the one the other peer dials.
\<close>

section \<open>Specifications\<close>

text \<open>The effects of the session among those of the program.\<close>

definition sessionOf :: "peffect list \<Rightarrow> seffect list" where
  "sessionOf es = concat (map (\<lambda>e. case e of PSession x \<Rightarrow> [x] | _ \<Rightarrow> []) es)"

text \<open>The effects of a stream on the network: the dial, the ready signal and the bridge.\<close>

fun wireEffect :: "xeffect \<Rightarrow> bool" where
  "wireEffect (XDial _) = True"
| "wireEffect (XSend _) = True"
| "wireEffect XBridge = True"
| "wireEffect _ = False"

text \<open>Effects that open the tunnel to local traffic.\<close>

fun tunnelEffect :: "peffect \<Rightarrow> bool" where
  "tunnelEffect (PGoListener _) = True" | "tunnelEffect (PGoSocks _) = True"
| "tunnelEffect (POnOpenBridge _ _) = True" | "tunnelEffect (POnOpenSocks _ _) = True"
| "tunnelEffect (PSession e) = payloadEffect e"
| "tunnelEffect _ = False"

text \<open>A session changes through its methods and callbacks only.\<close>

definition follows ::
  "unicode \<Rightarrow> (string \<Rightarrow> sdp_desc res) \<Rightarrow> auth_codec \<Rightarrow> 'a auth_iface \<Rightarrow> 'a Session \<Rightarrow> seffect list \<Rightarrow> 'a Session \<Rightarrow> bool" where
  "follows U parse J A s es s' \<longleftrightarrow> (\<exists>evs. sessionRun U parse J A s evs = (s', es))"

text \<open>The session of the program from one state to another: it moves on, stays absent, or is created.\<close>

definition advance ::
  "unicode \<Rightarrow> (string \<Rightarrow> sdp_desc res) \<Rightarrow> auth_codec \<Rightarrow> 'a auth_iface \<Rightarrow> 'a peerLoop \<Rightarrow> 'a peerLoop \<times> peffect list \<Rightarrow> bool" where
  "advance U parse J A p r \<longleftrightarrow>
     (case pm_session p of
        Some s \<Rightarrow> \<exists>s'. pm_session (fst r) = Some s' \<and> follows U parse J A s (sessionOf (snd r)) s'
      | None \<Rightarrow>
          (pm_session (fst r) = None \<and> (sessionOf (snd r) = [] \<or> sessionOf (snd r) = [ClosePC] \<and> pm_result (fst r) \<noteq> None))
        \<or> (\<exists>(V :: penv) sm paired s0 s'. NewSession (pv_pion V) (pv_newPC V) (sessionConfig p sm paired) = (Inr (s0, []), [])
             \<and> pm_session (fst r) = Some s' \<and> follows U parse J A s0 (sessionOf (snd r)) s'))"

text \<open>The published result of authentication is a success.\<close>

definition authOK :: "'a peerLoop \<Rightarrow> bool" where
  "authOK p \<longleftrightarrow> (\<exists>s. pm_session p = Some s \<and> IsAuthenticated s)"

definition sessionClosed :: "'a peerLoop \<Rightarrow> bool" where
  "sessionClosed p \<longleftrightarrow> (\<forall>s. pm_session p = Some s \<longrightarrow> se_closeOnce s)"

definition peer_inv :: "('a \<Rightarrow> bool) \<Rightarrow> 'a peerLoop \<Rightarrow> bool" where
  "peer_inv succ p \<longleftrightarrow>
     (\<forall>s. pm_session p = Some s \<longrightarrow> session_inv succ s)
   \<and> (pm_authResultCh p = ChHolds None \<longrightarrow> authOK p)
   \<and> (pm_listenerStarted p \<longrightarrow> authOK p)
   \<and> (pm_accepting p \<longrightarrow> pm_listenerStarted p)
   \<and> (0 < pm_socksHandlers p \<longrightarrow> pm_listenerStarted p)
   \<and> (pm_result p \<noteq> None \<longrightarrow> sessionClosed p)
   \<and> sm_state (pm_stateMachine p) \<in> {StateRendezvous, StateSignaling}"

text \<open>Effects of signals and of the session concern neither the listener nor the client's end.\<close>

definition plainEffect :: "peffect \<Rightarrow> bool" where
  "plainEffect e \<longleftrightarrow> (\<exists>x. e = PSession x) \<or> (\<exists>x. e = PClient x) \<or> (\<exists>n fs x. e = PEvent n fs x)"

text \<open>A return of \<open>runPeer\<close>: only the session and the result change, and the client is closed.\<close>

definition finishes ::
  "unicode \<Rightarrow> (string \<Rightarrow> sdp_desc res) \<Rightarrow> auth_codec \<Rightarrow> 'a auth_iface \<Rightarrow> 'a peerLoop \<Rightarrow> gerror option
    \<Rightarrow> 'a peerLoop \<times> peffect list \<Rightarrow> bool" where
  "finishes U parse J A p res r \<longleftrightarrow>
     (\<exists>so es. r = (p\<lparr>pm_session := so, pm_result := Some res\<rparr>, es @ [PClientClose]) \<and> list_all plainEffect es
        \<and> (case pm_session p of
             None \<Rightarrow> so = None \<and> sessionOf es = []
           | Some s \<Rightarrow> \<exists>s'. so = Some s' \<and> follows U parse J A s (sessionOf es) s' \<and> se_closeOnce s'))"

text \<open>A handler that goes on: the session moves by its methods.\<close>

definition continues ::
  "unicode \<Rightarrow> (string \<Rightarrow> sdp_desc res) \<Rightarrow> auth_codec \<Rightarrow> 'a auth_iface \<Rightarrow> 'a peerLoop \<Rightarrow> 'a peerLoop \<times> peffect list \<Rightarrow> bool" where
  "continues U parse J A p r \<longleftrightarrow>
     (\<exists>s t es. pm_session p = Some s \<and> r = (p\<lparr>pm_session := Some t\<rparr>, es) \<and> list_all plainEffect es
        \<and> follows U parse J A s (sessionOf es) t)"

text \<open>What every handler of the loop does to the program's state.\<close>

definition handled ::
  "unicode \<Rightarrow> (string \<Rightarrow> sdp_desc res) \<Rightarrow> auth_codec \<Rightarrow> 'a auth_iface \<Rightarrow> 'a peerLoop \<Rightarrow> 'a peerLoop \<times> peffect list \<Rightarrow> bool" where
  "handled U parse J A p r \<longleftrightarrow>
     advance U parse J A p r
   \<and> pm_options (fst r) = pm_options p \<and> pm_authenticator (fst r) = pm_authenticator p
   \<and> pm_authResultCh (fst r) \<in> {pm_authResultCh p, ChEmpty} \<and> pm_listenerStarted (fst r) = pm_listenerStarted p
   \<and> pm_accepting (fst r) = pm_accepting p \<and> pm_socksHandlers (fst r) = pm_socksHandlers p
   \<and> sm_state (pm_stateMachine (fst r)) \<in> {sm_state (pm_stateMachine p), StateSignaling}
   \<and> (\<forall>e \<in> set (snd r). tunnelEffect e \<longrightarrow> (\<exists>x. e = PSession x))
   \<and> (pm_result (fst r) = pm_result p \<and> count_list (snd r) PClientClose = 0
      \<or> pm_result (fst r) \<noteq> None \<and> sessionClosed (fst r) \<and> count_list (snd r) PClientClose = 1)"

text \<open>What a step may change besides the session, and which effects need which part of the program to run.\<close>

definition stepFrame :: "'a peerLoop \<Rightarrow> 'a peerLoop \<times> peffect list \<Rightarrow> bool" where
  "stepFrame p r \<longleftrightarrow>
     pm_options (fst r) = pm_options p \<and> pm_authenticator (fst r) = pm_authenticator p
   \<and> (pm_authResultCh (fst r) = ChHolds None \<longrightarrow> pm_authResultCh p = ChHolds None
        \<or> (\<exists>s. pm_session p = Some s \<and> WaitAuthenticated s = Some None))
   \<and> (pm_listenerStarted (fst r) \<longrightarrow> pm_listenerStarted p \<or> pm_authResultCh p = ChHolds None)
   \<and> (pm_accepting (fst r) \<or> 0 < pm_socksHandlers (fst r) \<longrightarrow> pm_listenerStarted (fst r))
   \<and> sm_state (pm_stateMachine (fst r)) \<in> {sm_state (pm_stateMachine p), StateSignaling}
   \<and> (\<forall>e \<in> set (snd r). tunnelEffect e \<longrightarrow> (\<exists>x. e = PSession x) \<or> pm_authResultCh p = ChHolds None \<or> pm_listenerStarted p)
   \<and> (pm_result (fst r) = pm_result p \<and> count_list (snd r) PClientClose = 0
      \<or> pm_result p = None \<and> pm_result (fst r) \<noteq> None \<and> sessionClosed (fst r) \<and> count_list (snd r) PClientClose = 1)"

text \<open>A concrete program, environment, messages and schedule, for the examples.\<close>

definition toyOptions :: PeerOptions where
  "toyOptions = \<lparr>po_Mode = ModeExpose, po_RendezvousToken = ''token'', po_PairingSecret = ''secret'',
     po_BrokerURL = ''127.0.0.1:8080'',
     po_ICE = \<lparr>ice_STUN = [], ice_TURN = [], ice_TURNUsername = [], ice_TURNPassword = []\<rparr>,
     po_Target = ''127.0.0.1:22'', po_Listen = [], po_SOCKS5 = False\<rparr>"

definition toyPenv :: penv where
  "toyPenv = \<lparr>pv_pion = toyEnv, pv_newPC = (\<lambda>_. None), pv_deadlineErr = None, pv_writeErr = None\<rparr>"

definition toyPeer :: "(bool, bool, unit) authenticator peerLoop" where
  "toyPeer = \<lparr>pm_options = toyOptions, pm_authenticator = toyAuth SchemeCPACEV2,
     pm_stateMachine = \<lparr>sm_state = StateRendezvous\<rparr>, pm_session = None, pm_authResultCh = ChNil,
     pm_listenerResultCh = ChNil, pm_listenerStarted = False, pm_accepting = False, pm_socksHandlers = 0,
     pm_brokerEvents = True, pm_streamCounter = 0, pm_result = None\<rparr>"

definition toyPaired :: message where
  "toyPaired = (Message MessageTypePaired)\<lparr>ms_Paired := Some \<lparr>pd_SessionID = ''s1'', pd_Initiator = False, pd_PeerMode = ''connect''\<rparr>\<rparr>"

definition toyOffer :: message where
  "toyOffer = (Message MessageTypeSignal)\<lparr>ms_Signal := Some \<lparr>sg_Kind = SignalKindOffer,
     sg_SDP = Some \<lparr>sdp_Type = ''offer'', sdp_SDP = ''FP-A''\<rparr>, sg_Candidate = None\<rparr>\<rparr>"

text \<open>A whole run of the exposing program up to the authenticated session.\<close>

definition toySchedule :: "pstep list" where
  "toySchedule = [StLoop toyPenv (InBroker toyPaired), StLoop toyPenv (InBroker toyOffer)]
     @ map (StCallback toyPenv) [EvDataChannel 3 controlChannelLabel, EvControlOpen, EvControlMessage [1], EvControlMessage [2]]
     @ [StAuthWait None, StLoop toyPenv InAuth]"

definition toyStreaming :: "(bool, bool, unit) authenticator peerLoop" where
  "toyStreaming = toyPeer\<lparr>pm_session := Some (toySession\<lparr>se_authReadyClosed := True, se_authenticated := True,
     se_stateMachine := \<lparr>sm_state = StateAuthenticated\<rparr>\<rparr>)\<rparr>"

definition toyClient :: sconn where
  "toyClient = \<lparr>cn_in = [5, 1, 0, 5, 1, 0, 3, 3, 97, 124, 98, 1, 187], cn_readErr = Sentinel ''io.EOF'', cn_writeErrs = [], cn_out = []\<rparr>"

section \<open>The session under the program\<close>

lemma sessionOf_simps [simp]:
  "sessionOf [] = []" "sessionOf (PSession e # es) = e # sessionOf es" "sessionOf (PClient c # es) = sessionOf es"
  "sessionOf (PEvent t kv x # es) = sessionOf es" "sessionOf (PClientClose # es) = sessionOf es"
  "sessionOf (PConnClose n # es) = sessionOf es" "sessionOf (PListenerClose # es) = sessionOf es"
  "sessionOf (PGoListener b # es) = sessionOf es" "sessionOf (PGoSocks n # es) = sessionOf es"
  "sessionOf (POnOpenBridge n m # es) = sessionOf es" "sessionOf (POnOpenSocks n l # es) = sessionOf es"
  "sessionOf (PSocksConn bs # es) = sessionOf es" "sessionOf (PSocksConnClose # es) = sessionOf es"
  "sessionOf (es @ fs) = sessionOf es @ sessionOf fs" "sessionOf (map PClient cs) = []"
  by (simp_all add: sessionOf_def o_def)

lemma sessionOf_mem: "PSession e \<in> set es \<longleftrightarrow> e \<in> set (sessionOf es)"
  by (auto simp: sessionOf_def split: peffect.splits)

lemma sessionOf_count: "count_list es (PSession e) = count_list (sessionOf es) e"
  by (induction es) (simp_all add: sessionOf_def split: peffect.splits)

lemma plainEffect_simps [simp]: "plainEffect (PSession x)" "plainEffect (PClient c)" "plainEffect (PEvent n fs e)"
  "\<not> plainEffect PClientClose"
  by (simp_all add: plainEffect_def)

lemma plain_tunnel: "plainEffect e \<Longrightarrow> tunnelEffect e \<longleftrightarrow> (\<exists>x. e = PSession x \<and> payloadEffect x)"
  by (auto simp: plainEffect_def)

lemma plain_noclose: "list_all plainEffect es \<Longrightarrow> count_list es PClientClose = 0"
  by (induction es) auto

lemma sendSignal_plain: "list_all plainEffect (fst (sendSignal V sg))" "sessionOf (fst (sendSignal V sg)) = []"
  by (simp_all add: sendSignal_def case_prod_beta list_all_iff)

lemma onSignal_plain: "list_all plainEffect (onSignal V sg)" "sessionOf (onSignal V sg) = []"
  using sendSignal_plain [of V sg] by (auto simp: onSignal_def split: prod.splits option.splits)

lemma sessionEffects_simps [simp]: "sessionEffects V [] = []" "sessionEffects V (es @ fs) = sessionEffects V es @ sessionEffects V fs"
  by (simp_all add: sessionEffects_def)

lemma sessionEffects_plain [simp]: "list_all plainEffect (sessionEffects V es)" "sessionOf (sessionEffects V es) = es"
  by (induction es)
     (auto simp: sessionEffects_def sessionEffect_def onSignal_plain simp del: sessionEffects_simps split: seffect.splits)

lemma sessionRun_append:
  "sessionRun U parse J A s (xs @ ys) =
     (case sessionRun U parse J A s xs of (t, es) \<Rightarrow> (case sessionRun U parse J A t ys of (u, fs) \<Rightarrow> (u, es @ fs)))"
  by (induction xs arbitrary: s) (auto split: prod.splits)

lemma follows_refl [simp, intro]: "follows U parse J A s [] s"
  unfolding follows_def by (rule exI [of _ "[]"]) simp

lemma follows_trans: "follows U parse J A s es t \<Longrightarrow> follows U parse J A t fs u \<Longrightarrow> follows U parse J A s (es @ fs) u"
  unfolding follows_def by (metis sessionRun_append case_prod_conv)

lemma follows_step: "sessionStep U parse J A E s ev = (t, es) \<Longrightarrow> follows U parse J A s es t"
  unfolding follows_def by (rule exI [of _ "[(E, ev)]"]) simp

lemma follows_calls:
  "CreateOffer U parse E J A s = (t, es, r1) \<Longrightarrow> follows U parse J A s es t"
  "HandleOffer U parse E J A s x = (t, es, r2) \<Longrightarrow> follows U parse J A s es t"
  "HandleAnswer U parse E J A s x = (t, es, r3) \<Longrightarrow> follows U parse J A s es t"
  "AddRemoteCandidate E s c = (t, es, r3) \<Longrightarrow> follows U parse J A s es t"
  "OpenStreamChannel E s label = (t, es, r4) \<Longrightarrow> follows U parse J A s es t"
  "Fail E s e = (t, es) \<Longrightarrow> follows U parse J A s es t"
  "Close E s = (t, es) \<Longrightarrow> follows U parse J A s es t"
  using follows_step [where ev = CallCreateOffer and E = E and s = s and t = t and es = es]
    follows_step [where ev = "CallHandleOffer x" and E = E and s = s and t = t and es = es]
    follows_step [where ev = "CallHandleAnswer x" and E = E and s = s and t = t and es = es]
    follows_step [where ev = "CallAddCandidate c" and E = E and s = s and t = t and es = es]
    follows_step [where ev = "CallOpenStream label" and E = E and s = s and t = t and es = es]
    follows_step [where ev = "CallFail e" and E = E and s = s and t = t and es = es]
    follows_step [where ev = CallClose and E = E and s = s and t = t and es = es]
  by (simp_all add: dropResult_def)

section \<open>Handlers\<close>

lemma Close_closes: "se_closeOnce (fst (Close E s))"
  by (auto simp: Close_def Let_def split: prod.splits option.splits)

lemma finishes_before:
  assumes "finishes U parse J A (p\<lparr>pm_session := Some t\<rparr>) res (q, fs)" "pm_session p = Some s"
    "follows U parse J A s (sessionOf es) t" "list_all plainEffect es"
  shows "finishes U parse J A p res (q, es @ fs)"
proof -
  obtain s' gs where g: "q = p\<lparr>pm_session := Some s', pm_result := Some res\<rparr>" "fs = gs @ [PClientClose]"
      "list_all plainEffect gs" "follows U parse J A t (sessionOf gs) s'" "se_closeOnce s'"
    using assms(1) by (auto simp: finishes_def)
  with follows_trans [OF assms(3) g(4)] assms(2,4) show ?thesis
    unfolding finishes_def by (intro exI [of _ "Some s'"] exI [of _ "es @ gs"]) simp
qed

lemma finishes_returnWith: "finishes U parse J A p r (returnWith V p r)"
proof (cases "pm_session p")
  case None
  then show ?thesis unfolding finishes_def by (intro exI [of _ None] exI [of _ "[]"]) (simp add: returnWith_def)
next
  case (Some s)
  obtain t es where c: "Close (pv_pion V) s = (t, es)" by fastforce
  have "se_closeOnce t" using Close_closes [of "pv_pion V" s] c by simp
  then show ?thesis using Some c follows_calls(7) [OF c] unfolding finishes_def
    by (intro exI [of _ "Some t"] exI [of _ "sessionEffects V es"]) (simp add: returnWith_def)
qed

lemma finishes_failReturn: "finishes U parse J A p (Some err) (failReturn V p e err)"
proof (cases "pm_session p")
  case None
  then show ?thesis using finishes_returnWith [of U parse J A p "Some err" V] by (simp add: failReturn_def)
next
  case (Some s)
  obtain t es where c: "Fail (pv_pion V) s (Some e) = (t, es)" by fastforce
  obtain q fs where q: "returnWith V (p\<lparr>pm_session := Some t\<rparr>) (Some err) = (q, fs)" by fastforce
  have "finishes U parse J A (p\<lparr>pm_session := Some t\<rparr>) (Some err) (q, fs)"
    using finishes_returnWith [of U parse J A "p\<lparr>pm_session := Some t\<rparr>" "Some err" V] by (simp add: q)
  from finishes_before [OF this Some, of "sessionEffects V es"] show ?thesis
    using follows_calls(6) [OF c] by (simp add: failReturn_def Some c q)
qed

lemma finishes_failSession: "finishes U parse J A p (Some err) (failSession V p err)"
  unfolding failSession_def by (rule finishes_failReturn)

lemma finishes_fail_after:
  assumes "failSession V (p\<lparr>pm_session := Some t\<rparr>) err = (q, fs)" "pm_session p = Some s"
    "follows U parse J A s (sessionOf es) t" "list_all plainEffect es"
  shows "finishes U parse J A p (Some err) (q, es @ fs)"
  using finishes_before [OF _ assms(2-4)] finishes_failSession [of U parse J A "p\<lparr>pm_session := Some t\<rparr>" err V]
  by (simp add: assms(1))

lemma handleSignal_follows:
  assumes "handleSignal U parse J A V s sg = (t, es, r)"
  shows "follows U parse J A s (sessionOf es) t \<and> list_all plainEffect es"
proof -
  have sn: "sessionOf fs = [] \<and> list_all plainEffect fs" if "sendSignal V x = (fs, y)" for x fs y
    using sendSignal_plain [of V x] that by simp
  show ?thesis
    using assms
    by (auto simp: handleSignal_def dest!: sn split: if_splits option.splits prod.splits sum.splits)
       (auto dest: follows_calls)
qed

lemma sendOffer_outcome:
  assumes "pm_session p = Some s"
  shows "continues U parse J A p (sendOffer U parse J A V p s sid)
       \<or> (\<exists>err. finishes U parse J A p (Some err) (sendOffer U parse J A V p s sid))"
proof -
  have sn: "sessionOf fs = [] \<and> list_all plainEffect fs" if "sendSignal V x = (fs, y)" for x fs y
    using sendSignal_plain [of V x] that by simp
  obtain t es r where c: "CreateOffer U parse (pv_pion V) J A s = (t, es, r)" using prod_cases3 by blast
  note f = follows_calls(1) [OF c]
  show ?thesis
  proof (cases r)
    case (Inl err)
    obtain q fs where q: "failSession V (p\<lparr>pm_session := Some t\<rparr>) err = (q, fs)" by fastforce
    show ?thesis using finishes_fail_after [OF q assms, of U parse J A "sessionEffects V es"] f
      by (auto simp: sendOffer_def c Inl q)
  next
    case (Inr offer)
    obtain fs e where sd: "sendSignal V \<lparr>sg_Kind = SignalKindOffer, sg_SDP = Some \<lparr>sdp_Type = ''offer'', sdp_SDP = offer\<rparr>,
                   sg_Candidate = None\<rparr> = (fs, e)" by fastforce
    note p = sn [OF sd]
    show ?thesis
    proof (cases e)
      case (Some err)
      obtain q gs where q: "failSession V (p\<lparr>pm_session := Some t\<rparr>) err = (q, gs)" by fastforce
      show ?thesis using finishes_fail_after [OF q assms, of U parse J A "sessionEffects V es @ fs"] f p
        by (auto simp: sendOffer_def c Inr sd [simplified] Some q)
    next
      case None
      with f p assms show ?thesis by (auto simp: sendOffer_def c Inr sd [simplified] continues_def)
    qed
  qed
qed

lemma plain_session: "list_all plainEffect es \<Longrightarrow> e \<in> set es \<Longrightarrow> tunnelEffect e \<Longrightarrow> \<exists>x. e = PSession x"
  by (auto simp: list_all_iff plainEffect_def)

lemma finishes_handled:
  assumes "finishes U parse J A p res r"
  shows "handled U parse J A p r \<and> pm_result (fst r) = Some res"
proof -
  obtain so es where r: "r = (p\<lparr>pm_session := so, pm_result := Some res\<rparr>, es @ [PClientClose])" "list_all plainEffect es"
     "case pm_session p of None \<Rightarrow> so = None \<and> sessionOf es = []
      | Some s \<Rightarrow> \<exists>s'. so = Some s' \<and> follows U parse J A s (sessionOf es) s' \<and> se_closeOnce s'"
    using assms by (auto simp: finishes_def)
  have "advance U parse J A p r" "sessionClosed (fst r)"
    using r(3) by (auto simp: r(1) advance_def sessionClosed_def split: option.splits)
  moreover have "\<forall>e \<in> set (snd r). tunnelEffect e \<longrightarrow> (\<exists>x. e = PSession x)"
    using plain_session [OF r(2)] by (auto simp: r(1))
  ultimately show ?thesis by (simp add: handled_def r(1) plain_noclose [OF r(2)])
qed

lemma continues_handled:
  assumes "continues U parse J A p r"
  shows "handled U parse J A p r"
proof -
  obtain s t es where r: "pm_session p = Some s" "r = (p\<lparr>pm_session := Some t\<rparr>, es)" "list_all plainEffect es"
     "follows U parse J A s (sessionOf es) t"
    using assms by (auto simp: continues_def)
  then show ?thesis using plain_session [OF r(3)] by (auto simp: handled_def advance_def plain_noclose)
qed

lemma NewSession_effects:
  "NewSession E newPC cfg = (Inr (s, es), fs) \<Longrightarrow> es = [] \<and> fs = []"
  "NewSession E newPC cfg = (Inl err, fs) \<Longrightarrow> fs = [] \<or> fs = [ClosePC]"
  by (auto simp: NewSession_def attachControlChannel_def Let_def split: option.splits if_splits sum.splits)

text \<open>A change of fields that the relation does not read, before a handler without a session.\<close>

lemma handled_no_session:
  assumes "handled U parse J A p' (q, fs)" "pm_session q = None" "pm_session p = None"
    "sessionOf es = [] \<or> sessionOf es = [ClosePC] \<and> sessionOf fs = [] \<and> pm_result q \<noteq> None" "list_all plainEffect es"
    "p' = p\<lparr>pm_stateMachine := sm\<rparr>" "sm_state sm \<in> {sm_state (pm_stateMachine p), StateSignaling}"
  shows "handled U parse J A p (q, es @ fs)"
proof -
  have "advance U parse J A p (q, es @ fs)"
    using assms(1-4,6) by (auto simp: handled_def advance_def)
  then show ?thesis
    using assms(1,5,6,7) plain_session [OF assms(5)] unfolding handled_def by (auto simp: plain_noclose)
qed

lemma handled_created:
  fixes V :: penv
  assumes "handled U parse J A p' (q, fs)" "pm_session p = None"
    "NewSession (pv_pion V) (pv_newPC V) (sessionConfig p sm paired) = (Inr (s, []), [])"
    "p' = p\<lparr>pm_stateMachine := sm, pm_session := Some s, pm_authResultCh := ChEmpty\<rparr>"
    "sm_state sm \<in> {sm_state (pm_stateMachine p), StateSignaling}"
  shows "handled U parse J A p (q, fs)"
proof -
  have "\<exists>s'. pm_session q = Some s' \<and> follows U parse J A s (sessionOf fs) s'"
    using assms(1,4) by (simp add: handled_def advance_def)
  then have "advance U parse J A p (q, fs)" using assms(2,3) by (auto simp: advance_def)
  then show ?thesis using assms(1,4,5) unfolding handled_def by auto
qed

lemma onPaired_handled: "handled U parse J A p (onPaired U parse J A V p mp)"
proof (cases "\<exists>paired. mp = Some paired \<and> pm_session p = None")
  case False
  then obtain err where "onPaired U parse J A V p mp = returnWith V p (Some err)"
    by (cases mp) (auto simp: onPaired_def)
  then show ?thesis using finishes_handled [OF finishes_returnWith] by metis
next
  case True
  then obtain paired where mp: "mp = Some paired" and no: "pm_session p = None" by blast
  obtain sm r where tr: "Transition (pm_stateMachine p) StateSignaling = (sm, r)" by fastforce
  let ?p = "p\<lparr>pm_stateMachine := sm\<rparr>"
  have m: "sm_state sm \<in> {sm_state (pm_stateMachine p), StateSignaling}"
    using tr by (auto simp: Transition_def split: if_splits)
  show ?thesis
  proof (cases r)
    case (Some err)
    obtain q fs where q: "returnWith V ?p (Some err) = (q, fs)" by fastforce
    have "handled U parse J A ?p (q, fs)" "pm_session q = None"
      using finishes_handled [OF finishes_returnWith [of U parse J A ?p "Some err" V]] no q
      by (auto simp: returnWith_def)
    from handled_no_session [OF this no, of "[]" sm] m show ?thesis by (simp add: onPaired_def mp no tr Some q)
  next
    case None
    obtain nr fs where n: "NewSession (pv_pion V) (pv_newPC V) (sessionConfig p sm paired) = (nr, fs)" by fastforce
    show ?thesis
    proof (cases nr)
      case (Inl err)
      obtain q gs where q: "failSession V ?p err = (q, gs)" by fastforce
      have h: "handled U parse J A ?p (q, gs)" "pm_result q = Some (Some err)"
        using finishes_handled [OF finishes_failSession [of U parse J A ?p err V]] by (simp_all add: q)
      moreover have "pm_session q = None" "sessionOf gs = []"
        using q no by (auto simp: failSession_def failReturn_def returnWith_def)
      moreover have "fs = [] \<or> fs = [ClosePC]" using NewSession_effects(2) n Inl by blast
      ultimately show ?thesis
        using handled_no_session [of U parse J A ?p q gs p "sessionEffects V fs" sm] no m
        by (auto simp: onPaired_def mp tr None n Inl q)
    next
      case (Inr x)
      obtain s es where x: "x = (s, es)" by (cases x)
      have e: "es = []" "fs = []" using NewSession_effects(1) n Inr x by blast+
      let ?p1 = "p\<lparr>pm_stateMachine := sm, pm_session := Some s, pm_authResultCh := ChEmpty\<rparr>"
      note c = handled_created [OF _ no n [unfolded Inr x e] refl m]
      have "continues U parse J A ?p1 (?p1, [])"
        unfolding continues_def by (intro exI [of _ s] exI [of _ "[]"]) simp
      then have "handled U parse J A ?p1 (?p1, [])" by (rule continues_handled)
      moreover have "handled U parse J A ?p1 (sendOffer U parse J A V ?p1 s (pd_SessionID paired))"
        using sendOffer_outcome [of ?p1 s U parse J A V "pd_SessionID paired"]
        by (auto dest: continues_handled finishes_handled)
      ultimately show ?thesis
        using c by (cases "sendOffer U parse J A V ?p1 s (pd_SessionID paired)")
          (auto simp: onPaired_def mp no tr None n Inr x e Let_def)
    qed
  qed
qed

lemma handled_detach: "handled U parse J A p (p\<lparr>pm_brokerEvents := b\<rparr>, [PEvent n fs x])"
  by (auto simp: handled_def advance_def split: option.splits)

lemma onBrokerMessage_handled: "handled U parse J A p (onBrokerMessage U parse J A V p m)"
proof -
  have same: "handled U parse J A p (p, es)" if "es = [] \<or> (\<exists>n fs x. es = [PEvent n fs x])" for es
    using that by (auto simp: handled_def advance_def split: option.splits)
  have sig: "handled U parse J A p
     (case handleSignal U parse J A V s sg of
        (s1, es, None) \<Rightarrow> (p\<lparr>pm_session := Some s1\<rparr>, es)
      | (s1, es, Some err) \<Rightarrow> (case failSession V (p\<lparr>pm_session := Some s1\<rparr>) err of (p1, fs) \<Rightarrow> (p1, es @ fs)))"
    if s: "pm_session p = Some s" for s sg
  proof -
    obtain t es r where h: "handleSignal U parse J A V s sg = (t, es, r)" using prod_cases3 by blast
    note f = handleSignal_follows [OF h]
    show ?thesis
    proof (cases r)
      case None
      with f s show ?thesis by (auto simp: h continues_def intro!: continues_handled)
    next
      case (Some err)
      obtain q fs where q: "failSession V (p\<lparr>pm_session := Some t\<rparr>) err = (q, fs)" by fastforce
      from finishes_handled [OF finishes_fail_after [OF q s]] f show ?thesis by (simp add: h Some q)
    qed
  qed
  show ?thesis
    using same sig onPaired_handled [of U parse J A p V] handled_detach [of U parse J A p False]
      finishes_handled [OF finishes_returnWith [of U parse J A p _ V]]
      finishes_handled [OF finishes_failSession [of U parse J A p _ V]]
      finishes_handled [OF finishes_failReturn [of U parse J A p _ V]]
    by (simp add: onBrokerMessage_def onBrokerLoss_def Let_def split: option.splits)
qed

section \<open>Steps of the program\<close>

lemma handled_frame:
  assumes "handled U parse J A p r" "pm_result p = None" "pm_accepting p \<or> 0 < pm_socksHandlers p \<longrightarrow> pm_listenerStarted p"
  shows "stepFrame p r"
  using assms unfolding handled_def stepFrame_def by auto

lemma openStream_follows:
  assumes "openStream V p label = (q, es, r)" "pm_session p = Some s"
  shows "\<exists>t. q = p\<lparr>pm_session := Some t\<rparr> \<and> follows U parse J A s (sessionOf es) t \<and> list_all plainEffect es"
proof -
  obtain t gs where o: "OpenStreamChannel (pv_pion V) s label = (t, gs, r)" "q = p\<lparr>pm_session := Some t\<rparr>" "es = sessionEffects V gs"
    using assms by (auto simp: openStream_def split: prod.splits)
  with follows_calls(5) [OF o(1)] show ?thesis by (intro exI [of _ t]) simp
qed

text \<open>Goroutines that leave the session to \<open>OpenStreamChannel\<close>.\<close>

lemma accept_outcome:
  assumes "runListener_accept V ctxErr acc p = (q, es)" "pm_session p = Some s" "pm_listenerStarted p"
  shows "advance U parse J A p (q, es) \<and> stepFrame p (q, es)"
proof (cases acc)
  case (Accepted conn)
  let ?p = "p\<lparr>pm_streamCounter := pm_streamCounter p + 1\<rparr>" and ?l = "''tcp-'' @ FormatNat (unat (pm_streamCounter p + 1))"
  obtain q2 fs r where o: "openStream V ?p ?l = (q2, fs, r)" using prod_cases3 by blast
  from openStream_follows [OF o, of s U parse J A] assms(2) obtain t where t: "q2 = ?p\<lparr>pm_session := Some t\<rparr>"
    "follows U parse J A s (sessionOf fs) t" "list_all plainEffect fs" by auto
  have "advance U parse J A p (q, es)"
    using assms(1,2) t(1,2) by (auto simp: runListener_accept_def Accepted Let_def o [simplified] advance_def listenerReturn_def split: sum.splits)
  moreover have "stepFrame p (q, es)"
    using assms(1,3) t(1) plain_noclose [OF t(3)]
    by (auto simp: runListener_accept_def Accepted Let_def o [simplified] stepFrame_def listenerReturn_def split: sum.splits)
  ultimately show ?thesis ..
next
  case AcceptTimeout
  with assms show ?thesis
    by (cases ctxErr) (auto simp: runListener_accept_def advance_def stepFrame_def listenerReturn_def)
next
  case (AcceptFailed err)
  with assms show ?thesis
    by (cases ctxErr) (auto simp: runListener_accept_def advance_def stepFrame_def listenerReturn_def)
qed

lemma socksAccept_outcome:
  assumes "runSOCKS5Listener_accept ctxErr acc p = (q, es)" "pm_session p = Some s" "pm_listenerStarted p"
  shows "advance U parse J A p (q, es) \<and> stepFrame p (q, es)"
  using assms
  by (cases acc; cases ctxErr)
     (auto simp: runSOCKS5Listener_accept_def advance_def stepFrame_def listenerReturn_def)

lemma socks_outcome:
  assumes "handleSOCKS5Connect V conn (p\<lparr>pm_socksHandlers := k\<rparr>) = (q, c, es)" "pm_session p = Some s" "pm_listenerStarted p"
  shows "advance U parse J A p (q, es @ [PSocksConn b]) \<and> stepFrame p (q, es @ [PSocksConn b])"
proof -
  obtain c1 h where h: "Handshake conn = (c1, h)" by fastforce
  show ?thesis
  proof (cases h)
    case (Inl err)
    with assms show ?thesis
      by (auto simp: handleSOCKS5Connect_def h advance_def stepFrame_def)
  next
    case (Inr target)
    let ?p = "p\<lparr>pm_socksHandlers := k, pm_streamCounter := pm_streamCounter p + 1\<rparr>"
    obtain q2 fs r where o: "openStream V ?p (socks5Label (pm_streamCounter p + 1) target) = (q2, fs, r)" using prod_cases3 by blast
    from openStream_follows [OF o, of s U parse J A] assms(2) obtain t where t: "q2 = ?p\<lparr>pm_session := Some t\<rparr>"
      "follows U parse J A s (sessionOf fs) t" "list_all plainEffect fs" by auto
    have "advance U parse J A p (q, es @ [PSocksConn b])"
      using assms(1,2) t(1,2) by (auto simp: handleSOCKS5Connect_def h Inr Let_def o advance_def split: sum.splits)
    moreover have "stepFrame p (q, es @ [PSocksConn b])"
      using assms(1,3) t(1) plain_noclose [OF t(3)]
      by (auto simp: handleSOCKS5Connect_def h Inr Let_def o stepFrame_def split: sum.splits)
    ultimately show ?thesis ..
  qed
qed

lemma advance_channels [simp]:
  "advance U parse J A (p\<lparr>pm_authResultCh := c\<rparr>) r = advance U parse J A p r"
  "advance U parse J A (p\<lparr>pm_listenerResultCh := c\<rparr>) r = advance U parse J A p r"
  by (simp_all add: advance_def sessionConfig_def cong: option.case_cong)

lemma advance_event [simp]: "advance U parse J A p (q, PEvent n fs x # es) = advance U parse J A p (q, es)"
  by (simp add: advance_def cong: option.case_cong)

lemma onAuthResult_outcome:
  assumes "pm_result p = None" "pm_authResultCh p = ChHolds r"
    "pm_accepting p \<or> 0 < pm_socksHandlers p \<longrightarrow> pm_listenerStarted p"
  shows "advance U parse J A p (onAuthResult A V (p\<lparr>pm_authResultCh := ChRead\<rparr>) r)
       \<and> stepFrame p (onAuthResult A V (p\<lparr>pm_authResultCh := ChRead\<rparr>) r)"
proof (cases r)
  case (Some err)
  let ?p = "p\<lparr>pm_authResultCh := ChRead\<rparr>" and ?e = "Errorf ''authentication did not complete: %w'' [] [err]"
  obtain q es where q: "failReturn V ?p ?e err = (q, es)" by fastforce
  obtain n fs x where ev: "authFailureEvent A ?p err = PEvent n fs x"
    unfolding authFailureEvent_def by (cases "pf_event (classifyPreAuthFailure err) = ''transport_failure''") simp_all
  have "handled U parse J A ?p (q, es)"
    using finishes_handled [OF finishes_failReturn [of U parse J A ?p err V ?e]] by (simp add: q)
  with assms show ?thesis
    by (auto simp: onAuthResult_def Some q ev handled_def stepFrame_def)
next
  case None
  then show ?thesis
    using assms by (auto simp: onAuthResult_def startListener_def advance_def stepFrame_def split: option.splits)
qed

lemma loopStep_outcome:
  assumes "loopStep U parse J A V p i = Some r" "pm_result p = None"
    "pm_accepting p \<or> 0 < pm_socksHandlers p \<longrightarrow> pm_listenerStarted p"
  shows "advance U parse J A p r \<and> stepFrame p r"
proof -
  have h: ?thesis if "handled U parse J A p r"
    using handled_frame [OF that assms(2,3)] that by (simp add: handled_def)
  have fin: "handled U parse J A p (returnWith V p x)" "handled U parse J A p (failSession V p err)" for x err
    using finishes_handled [OF finishes_returnWith [of U parse J A p x V]]
      finishes_handled [OF finishes_failSession [of U parse J A p err V]] by simp_all
  show ?thesis
  proof (cases i)
    case InAuth
    with assms onAuthResult_outcome [OF assms(2) _ assms(3)] show ?thesis by (auto split: resultCh.splits)
  next
    case InListener
    then obtain x where x: "r = onListenerResult V (p\<lparr>pm_listenerResultCh := ChRead\<rparr>) x"
      using assms(1) by (auto split: resultCh.splits)
    let ?p = "p\<lparr>pm_listenerResultCh := ChRead\<rparr>"
    have "handled U parse J A ?p r"
      unfolding x onListenerResult_def
      using finishes_handled [OF finishes_returnWith [of U parse J A ?p _ V]]
        finishes_handled [OF finishes_failSession [of U parse J A ?p _ V]]
      by (simp split: option.splits)
    then show ?thesis using assms(2,3) unfolding handled_def stepFrame_def by auto
  next
    case InDone
    with assms(1) fin show ?thesis by (intro h) auto
  next
    case (InBroker m)
    with assms(1) onBrokerMessage_handled show ?thesis by (intro h) (auto split: if_splits)
  next
    case InBrokerClosed
    with assms(1) fin handled_detach show ?thesis by (intro h) (auto simp: onBrokerLoss_def split: if_splits)
  qed
qed

context auth_contract
begin

lemma peerStep_outcome:
  assumes inv: "peer_inv succeeded p" and st: "peerStep U parse J A p st = Some r"
  shows "advance U parse J A p r \<and> stepFrame p r"
proof -
  have acc: "pm_accepting p \<or> 0 < pm_socksHandlers p \<longrightarrow> pm_listenerStarted p"
    and lst: "pm_listenerStarted p \<Longrightarrow> \<exists>s. pm_session p = Some s"
    using inv by (auto simp: peer_inv_def authOK_def)
  show ?thesis
  proof (cases st)
    case (StLoop V i)
    with st acc loopStep_outcome [of U parse J A V p i r] show ?thesis by (auto split: if_splits)
  next
    case (StCallback V ev)
    then obtain s t es where s: "pm_session p = Some s" "sessionStep U parse J A (pv_pion V) s ev = (t, es)"
      "r = (p\<lparr>pm_session := Some t\<rparr>, sessionEffects V es)"
      using st by (auto split: option.splits if_splits prod.splits)
    then have "continues U parse J A p r"
      using follows_step [OF s(2)] by (auto simp: continues_def)
    from continues_handled [OF this] acc show ?thesis unfolding handled_def stepFrame_def by (auto simp: s(3) plain_noclose)
  next
    case (StAuthWait e)
    then show ?thesis using st acc
      by (auto simp: authWait_def advance_def stepFrame_def split: resultCh.splits option.splits)
  next
    case (StListen e)
    then show ?thesis using st acc lst
      by (auto simp: listenerListen_def advance_def stepFrame_def split: option.splits if_splits)
  next
    case (StAccept V e a)
    with st have a: "pm_accepting p" by (simp split: if_splits)
    with acc lst obtain s where "pm_session p = Some s" "pm_listenerStarted p" by blast
    note o = accept_outcome [OF _ this] socksAccept_outcome [OF _ this]
    obtain q es where r: "r = (q, es)" by (cases r)
    show ?thesis
    proof (cases "po_SOCKS5 (pm_options p)")
      case True
      with StAccept st a r have "runSOCKS5Listener_accept e a p = (q, es)" by simp
      from o(2) [OF this] show ?thesis by (simp add: r)
    next
      case False
      with StAccept st a r have "runListener_accept V e a p = (q, es)" by simp
      from o(1) [OF this] show ?thesis by (simp add: r)
    qed
  next
    case (StSocks V conn)
    let ?h = "handleSOCKS5Connect V conn (p\<lparr>pm_socksHandlers := pm_socksHandlers p - 1\<rparr>)"
    obtain q c es where q: "?h = (q, c, es)" using prod_cases3 by blast
    have r: "0 < pm_socksHandlers p" "r = (q, es @ [PSocksConn (cn_out c)])"
      using st StSocks q by (simp_all split: if_splits)
    from r(1) acc lst obtain s where "pm_session p = Some s" "pm_listenerStarted p" by blast
    from socks_outcome [OF q this] r(2) show ?thesis by blast
  qed
qed

text \<open>The invariant, and that authentication is needed for the tunnel and is never undone.\<close>

lemma advance_session:
  assumes "\<And>s. pm_session p = Some s \<Longrightarrow> session_inv succeeded s" "advance U parse J A p r"
  shows "\<And>s. pm_session (fst r) = Some s \<Longrightarrow> session_inv succeeded s"
    and "authOK p \<Longrightarrow> authOK (fst r)" and "sessionClosed p \<Longrightarrow> pm_session p \<noteq> None \<Longrightarrow> sessionClosed (fst r)"
    and "PSession e \<in> set (snd r) \<Longrightarrow> payloadEffect e \<Longrightarrow> authOK (fst r)"
proof -
  have k: "session_inv succeeded s' \<and> (IsAuthenticated s \<longrightarrow> IsAuthenticated s') \<and> (se_closeOnce s \<longrightarrow> se_closeOnce s')
      \<and> (\<forall>e. payloadEffect e \<longrightarrow> e \<in> set es \<longrightarrow> IsAuthenticated s')"
    if i: "session_inv succeeded s" and f: "follows U parse J A s es s'" for s s' es
  proof -
    obtain evs where r: "sessionRun U parse J A s evs = (s', es)" using f by (auto simp: follows_def)
    show ?thesis using sessionRun_good [OF i r] payload_authenticated [OF i r] by (auto simp: evolves_def IsAuthenticated_def)
  qed
  consider (none) "pm_session p = None" "pm_session (fst r) = None" "\<forall>e. payloadEffect e \<longrightarrow> e \<notin> set (sessionOf (snd r))"
    | (some) s0 s' where "session_inv succeeded s0" "pm_session (fst r) = Some s'" "follows U parse J A s0 (sessionOf (snd r)) s'"
        "pm_session p = None \<or> pm_session p = Some s0"
    using assms by (fastforce simp: advance_def payloadEffect_def dest: NewSession_inv split: option.splits)
  then have "(\<forall>s. pm_session (fst r) = Some s \<longrightarrow> session_inv succeeded s) \<and> (authOK p \<longrightarrow> authOK (fst r))
    \<and> (sessionClosed p \<and> pm_session p \<noteq> None \<longrightarrow> sessionClosed (fst r))
    \<and> (\<forall>e. payloadEffect e \<longrightarrow> e \<in> set (sessionOf (snd r)) \<longrightarrow> authOK (fst r))"
  proof cases
    case none
    then show ?thesis by (auto simp: authOK_def)
  next
    case some
    with k [OF some(1,3)] show ?thesis by (auto simp: authOK_def sessionClosed_def)
  qed
  then show "\<And>s. pm_session (fst r) = Some s \<Longrightarrow> session_inv succeeded s" "authOK p \<Longrightarrow> authOK (fst r)"
    "sessionClosed p \<Longrightarrow> pm_session p \<noteq> None \<Longrightarrow> sessionClosed (fst r)"
    "PSession e \<in> set (snd r) \<Longrightarrow> payloadEffect e \<Longrightarrow> authOK (fst r)"
    by (simp_all add: sessionOf_mem)
qed

lemma peerStep_inv:
  assumes inv: "peer_inv succeeded p" and st: "peerStep U parse J A p st = Some r"
  shows "peer_inv succeeded (fst r)" and "authOK p \<Longrightarrow> authOK (fst r)"
    and "e \<in> set (snd r) \<Longrightarrow> tunnelEffect e \<Longrightarrow> authOK (fst r)"
proof -
  have a: "advance U parse J A p r" and f: "stepFrame p r" using peerStep_outcome [OF inv st] by simp_all
  have i: "\<And>s. pm_session p = Some s \<Longrightarrow> session_inv succeeded s" using inv by (simp add: peer_inv_def)
  note s = advance_session [OF i a]
  have w: "authOK p" if "pm_session p = Some s" "WaitAuthenticated s = Some None" for s
    using that i [of s] by (auto simp: WaitAuthenticated_def session_inv_def authOK_def split: if_splits)
  show au: "authOK p \<Longrightarrow> authOK (fst r)" by (rule s(2))
  have wait: "pm_authResultCh (fst r) = ChHolds None \<Longrightarrow> authOK p" and lst: "pm_listenerStarted (fst r) \<Longrightarrow> authOK p"
    using f inv w unfolding stepFrame_def peer_inv_def by blast+
  have "pm_result (fst r) \<noteq> None \<Longrightarrow> sessionClosed (fst r)"
  proof (cases "pm_result p = None")
    case True
    then show "pm_result (fst r) \<noteq> None \<Longrightarrow> sessionClosed (fst r)" using f by (auto simp: stepFrame_def)
  next
    case False
    then have c: "sessionClosed p" using inv by (simp add: peer_inv_def)
    show ?thesis
    proof (cases "pm_session p = None")
      case False
      with c s(3) show ?thesis by simp
    next
      case True
      with st \<open>pm_result p \<noteq> None\<close> inv show ?thesis
        by (cases st) (auto simp: authWait_def listenerListen_def peer_inv_def authOK_def sessionClosed_def
            split: resultCh.splits option.splits if_splits)
    qed
  qed
  moreover have "sm_state (pm_stateMachine (fst r)) \<in> {StateRendezvous, StateSignaling}"
  proof -
    have "sm_state (pm_stateMachine (fst r)) \<in> {sm_state (pm_stateMachine p), StateSignaling}"
      using f unfolding stepFrame_def by blast
    with inv show ?thesis unfolding peer_inv_def by auto
  qed
  moreover have "pm_accepting (fst r) \<or> 0 < pm_socksHandlers (fst r) \<longrightarrow> pm_listenerStarted (fst r)"
    using f unfolding stepFrame_def by blast
  ultimately show "peer_inv succeeded (fst r)"
    using s(1) au wait lst unfolding peer_inv_def by blast
  show "e \<in> set (snd r) \<Longrightarrow> tunnelEffect e \<Longrightarrow> authOK (fst r)"
    using f s(4) au inv unfolding stepFrame_def peer_inv_def by (metis tunnelEffect.simps(5))
qed

lemma peerRun_inv:
  assumes "peer_inv succeeded p" "peerRun U parse J A p sts = Some (q, es)"
  shows "peer_inv succeeded q \<and> (authOK p \<longrightarrow> authOK q) \<and> ((\<exists>e \<in> set es. tunnelEffect e) \<longrightarrow> authOK q)
       \<and> pm_options q = pm_options p \<and> pm_authenticator q = pm_authenticator p
       \<and> count_list es PClientClose = (if pm_result p = None \<and> pm_result q \<noteq> None then 1 else 0)
       \<and> (pm_result p \<noteq> None \<longrightarrow> pm_result q = pm_result p)"
  using assms
proof (induction sts arbitrary: p es)
  case (Cons st sts)
  obtain p1 es1 where s1: "peerStep U parse J A p st = Some (p1, es1)"
    using Cons.prems(2) by (auto split: option.splits)
  obtain es2 where s2: "peerRun U parse J A p1 sts = Some (q, es2)" "es = es1 @ es2"
    using Cons.prems(2) s1 by (auto split: option.splits)
  note i = peerStep_inv [OF Cons.prems(1) s1, unfolded fst_conv snd_conv]
  have f: "stepFrame p (p1, es1)" using peerStep_outcome [OF Cons.prems(1) s1] by simp
  note IH = Cons.IH [OF i(1) s2(1)]
  have "pm_options q = pm_options p \<and> pm_authenticator q = pm_authenticator p"
    using IH f by (simp add: stepFrame_def)
  moreover have "count_list es PClientClose = (if pm_result p = None \<and> pm_result q \<noteq> None then 1 else 0)
      \<and> (pm_result p \<noteq> None \<longrightarrow> pm_result q = pm_result p)"
  proof -
    have "pm_result p1 = pm_result p \<and> count_list es1 PClientClose = 0
        \<or> pm_result p = None \<and> pm_result p1 \<noteq> None \<and> count_list es1 PClientClose = 1"
      using f unfolding stepFrame_def fst_conv snd_conv by blast
    moreover have "count_list es2 PClientClose = (if pm_result p1 = None \<and> pm_result q \<noteq> None then 1 else 0)
        \<and> (pm_result p1 \<noteq> None \<longrightarrow> pm_result q = pm_result p1)" using IH by simp
    ultimately show ?thesis unfolding s2(2) count_list_append by (elim disjE conjE) simp_all
  qed
  moreover have "(\<exists>e \<in> set es. tunnelEffect e) \<longrightarrow> authOK q" using IH i(3) by (auto simp: s2(2))
  moreover have "peer_inv succeeded q" "authOK p \<longrightarrow> authOK q" using IH i(2) by simp_all
  ultimately show ?case by simp
qed auto

lemma peerStep_after_return:
  assumes "peer_inv succeeded p" "pm_result p \<noteq> None" "pm_session p = None"
  shows "peerStep U parse J A p st = None"
  using assms
  by (cases st) (auto simp: authWait_def listenerListen_def peer_inv_def authOK_def split: resultCh.splits)

lemma peerRun_follows:
  assumes "peer_inv succeeded p" "peerRun U parse J A p sts = Some (q, es)" "pm_session p = Some s"
  shows "\<exists>s'. pm_session q = Some s' \<and> follows U parse J A s (sessionOf es) s'"
  using assms
proof (induction sts arbitrary: p es s)
  case (Cons st sts)
  obtain p1 es1 where s1: "peerStep U parse J A p st = Some (p1, es1)"
    using Cons.prems(2) by (auto split: option.splits)
  obtain es2 where s2: "peerRun U parse J A p1 sts = Some (q, es2)" "es = es1 @ es2"
    using Cons.prems(2) s1 by (auto split: option.splits)
  have i: "peer_inv succeeded p1" using peerStep_inv(1) [OF Cons.prems(1) s1] by simp
  obtain t where t: "pm_session p1 = Some t" "follows U parse J A s (sessionOf es1) t"
    using peerStep_outcome [OF Cons.prems(1) s1] Cons.prems(3) by (auto simp: advance_def)
  from Cons.IH [OF i s2(1) t(1)] follows_trans [OF t(2)] show ?case by (auto simp: s2(2))
qed auto

text \<open>A run from the start drives at most one session, created for the program's own configuration.\<close>

lemma peerRun_one_session:
  assumes "peer_inv succeeded p" "peerRun U parse J A p sts = Some (q, es)" "pm_session p = None"
  shows "pm_session q = None \<and> (sessionOf es = [] \<or> sessionOf es = [ClosePC] \<and> pm_result q \<noteq> None)
       \<or> (\<exists>(V :: penv) sm paired s0 s. NewSession (pv_pion V) (pv_newPC V) (sessionConfig p sm paired) = (Inr (s0, []), [])
            \<and> pm_session q = Some s \<and> follows U parse J A s0 (sessionOf es) s)"
  using assms
proof (induction sts arbitrary: p es)
  case (Cons st sts)
  obtain p1 es1 where s1: "peerStep U parse J A p st = Some (p1, es1)"
    using Cons.prems(2) by (auto split: option.splits)
  obtain es2 where s2: "peerRun U parse J A p1 sts = Some (q, es2)" "es = es1 @ es2"
    using Cons.prems(2) s1 by (auto split: option.splits)
  have i: "peer_inv succeeded p1" using peerStep_inv(1) [OF Cons.prems(1) s1] by simp
  have o: "advance U parse J A p (p1, es1)" "stepFrame p (p1, es1)" using peerStep_outcome [OF Cons.prems(1) s1] by simp_all
  then have c: "sessionConfig p1 = sessionConfig p" by (auto simp: stepFrame_def sessionConfig_def fun_eq_iff)
  from o(1) Cons.prems(3)
  consider (none) "pm_session p1 = None" "sessionOf es1 = []"
    | (failed) "pm_session p1 = None" "sessionOf es1 = [ClosePC]" "pm_result p1 \<noteq> None"
    | (new) V sm paired s0 t where "NewSession (pv_pion (V :: penv)) (pv_newPC V) (sessionConfig p sm paired) = (Inr (s0, []), [])"
        "pm_session p1 = Some t" "follows U parse J A s0 (sessionOf es1) t"
    by (auto simp: advance_def)
  then show ?case
  proof cases
    case none
    with Cons.IH [OF i s2(1) none(1)] show ?thesis by (simp add: s2(2) c)
  next
    case failed
    with s2 peerStep_after_return [OF i failed(3,1)] show ?thesis by (cases sts) (auto split: option.splits)
  next
    case new
    obtain s' where "pm_session q = Some s'" "follows U parse J A t (sessionOf es2) s'"
      using peerRun_follows [OF i s2(1) new(2)] by blast
    moreover from this(2) follows_trans [OF new(3)] have "follows U parse J A s0 (sessionOf es) s'" by (simp add: s2(2))
    ultimately show ?thesis using new(1) by blast
  qed
qed simp

end

section \<open>The program as started\<close>

lemma runPeer_start_Inr:
  assumes "runPeer_start C U U' dialErr de we bv options = (Inr p, es)"
  shows "pm_options p = options \<and> NewInteractiveAuthenticator C (po_PairingSecret options) = Inr (pm_authenticator p)
       \<and> pm_session p = None \<and> pm_result p = None \<and> peer_inv succ p
       \<and> pm_stateMachine p = \<lparr>sm_state = StateRendezvous\<rparr> \<and> pm_brokerEvents p \<and> pm_streamCounter p = 0
       \<and> PeerOptions_Validate options = None \<and> (\<forall>cs. es \<noteq> cs @ [PClientClose])"
  using assms
  by (auto simp: runPeer_start_def peer_inv_def authOK_def sessionClosed_def Transition_def
      split: option.splits sum.splits if_splits prod.splits)

lemma toy_start:
  "\<exists>es. runPeer_start toyCrypto idUnicode idUnicode None None None ''v1'' toyOptions = (Inr toyPeer, es)"
proof -
  have 1: "PeerOptions_Validate toyOptions = None" by code_simp
  have 2: "ValidateToken ''token'' = Inr ''token''" by code_simp
  have 3: "normalizeBrokerURL idUnicode ''127.0.0.1:8080'' = Inr ''ws://127.0.0.1:8080/ws''" by code_simp
  have 4: "NewInteractiveAuthenticator toyCrypto ''secret'' = Inr (toyAuth SchemeCPACEV2)"
    using toy_new by (simp add: NewInteractiveAuthenticator_def NewInteractiveAuthenticatorWithScheme_def toyCrypto_def)
  have 5: "ai_Name (interactiveIface toyCrypto idUnicode) (toyAuth SchemeCPACEV2) = SchemeCPACEV2"
    using toy_init(2) by (simp add: interactiveIface_def)
  show ?thesis
    using 1 2 3 4 5
    by (simp add: runPeer_start_def Dial_def Client_Register_def Client_send_def toyOptions_def toyPeer_def Transition_def NewStateMachine_def)
qed

lemma toy_HandleOffer:
  "HandleOffer idUnicode toyParse toyEnv J A toySession ''FP-A'' =
     (toySession\<lparr>se_remoteFingerprint := ''FP-A'', se_remoteDescription := True,
        se_localFingerprint := ''FP-B'', se_stateMachine := \<lparr>sm_state = StateAuthPending\<rparr>\<rparr>, [], Inr ''FP-B'')"
  by (simp add: HandleOffer_def setRemoteDescription_def setLocalDescription_def maybeEnterAuthPending_def
      maybeSendAuth_def toyEnv_def toySession_def Transition_def)

lemma callbacks_run:
  assumes "list_all isCallback evs" "pm_session p = Some s" "sessionRun U parse J A s (map (Pair (pv_pion V)) evs) = (t, es)"
  shows "peerRun U parse J A p (map (StCallback V) evs) = Some (p\<lparr>pm_session := Some t\<rparr>, sessionEffects V es)"
  using assms
proof (induction evs arbitrary: p s es)
  case (Cons ev evs)
  obtain s1 es1 where s1: "sessionStep U parse J A (pv_pion V) s ev = (s1, es1)" by fastforce
  obtain es2 where s2: "sessionRun U parse J A s1 (map (Pair (pv_pion V)) evs) = (t, es2)" "es = es1 @ es2"
    using Cons.prems(3) s1 by (auto split: prod.splits)
  from Cons.IH [of "p\<lparr>pm_session := Some s1\<rparr>" s1 es2] s2(1) Cons.prems(1,2) show ?case
    by (simp add: s1 s2(2))
qed simp

lemma peerRun_append:
  "peerRun U parse J A p xs = Some (q, es) \<Longrightarrow> peerRun U parse J A q ys = Some (r, fs)
     \<Longrightarrow> peerRun U parse J A p (xs @ ys) = Some (r, es @ fs)"
  by (induction xs arbitrary: p es) (auto split: option.splits prod.splits)

lemma toy_paired:
  "peerStep idUnicode toyParse J A toyPeer (StLoop toyPenv (InBroker toyPaired)) =
     Some (toyPeer\<lparr>pm_stateMachine := \<lparr>sm_state = StateSignaling\<rparr>, pm_session := Some toySession,
             pm_authResultCh := ChEmpty\<rparr>, [])"
proof -
  have c: "sessionConfig toyPeer \<lparr>sm_state = StateSignaling\<rparr> \<lparr>pd_SessionID = ''s1'', pd_Initiator = False, pd_PeerMode = ''connect''\<rparr>
      = toyConfig"
    by (simp add: sessionConfig_def toyPeer_def toyOptions_def toyConfig_def)
  have m: "ms_Type toyPaired = ''paired''" "ms_Paired toyPaired = Some \<lparr>pd_SessionID = ''s1'', pd_Initiator = False, pd_PeerMode = ''connect''\<rparr>"
    by (simp_all add: toyPaired_def Message_def)
  have t: "Transition (pm_stateMachine toyPeer) StateSignaling = (\<lparr>sm_state = StateSignaling\<rparr>, None)"
      "pm_session toyPeer = None" "pm_brokerEvents toyPeer" "pm_result toyPeer = None"
    by (simp_all add: toyPeer_def Transition_def)
  have n: "NewSession (pv_pion toyPenv) (pv_newPC toyPenv) toyConfig = (Inr (toySession, []), [])"
    using toySession_new by (simp add: toyPenv_def)
  show ?thesis by (simp add: onBrokerMessage_def onPaired_def m t c n)
qed

lemma toy_offer:
  assumes "pm_session p = Some toySession" "pm_result p = None" "pm_brokerEvents p"
  shows "\<exists>es. peerStep idUnicode toyParse J A p (StLoop toyPenv (InBroker toyOffer)) =
     Some (p\<lparr>pm_session := Some (fst (HandleOffer idUnicode toyParse toyEnv J A toySession ''FP-A''))\<rparr>, es)"
proof -
  have m: "ms_Type toyOffer = ''signal''" "ms_Signal toyOffer = Some \<lparr>sg_Kind = ''offer'',
      sg_SDP = Some \<lparr>sdp_Type = ''offer'', sdp_SDP = ''FP-A''\<rparr>, sg_Candidate = None\<rparr>"
    by (simp_all add: toyOffer_def Message_def)
  have v: "pv_pion toyPenv = toyEnv" "pv_deadlineErr toyPenv = None" "pv_writeErr toyPenv = None"
    by (simp_all add: toyPenv_def)
  show ?thesis
    by (simp add: onBrokerMessage_def m assms handleSignal_def v toy_HandleOffer sendSignal_def SendSignal_def Client_send_def)
qed

lemma toy_peer_authenticates:
  "\<exists>J p s es. peerRun idUnicode toyParse J (interactiveIface toyCrypto idUnicode) toyPeer toySchedule = Some (p, es)
     \<and> pm_session p = Some s \<and> sm_state (se_stateMachine s) = StateAuthenticated \<and> IsAuthenticated s \<and> se_hasOnStream s
     \<and> pm_result p = None \<and> pm_brokerEvents p"
proof -
  let ?A = "interactiveIface toyCrypto idUnicode"
  let ?cbs = "[EvDataChannel 3 controlChannelLabel, EvControlOpen, EvControlMessage [1], EvControlMessage [2]]"
  obtain J s es where r: "sessionRun idUnicode toyParse J ?A toySession (map (Pair toyEnv) (CallHandleOffer ''FP-A'' # ?cbs)) = (s, es)"
      "sm_state (se_stateMachine s) = StateAuthenticated" "IsAuthenticated s" "se_hasOnStream s"
    using toy_session_authenticates by auto
  let ?p1 = "toyPeer\<lparr>pm_stateMachine := \<lparr>sm_state = StateSignaling\<rparr>, pm_session := Some toySession, pm_authResultCh := ChEmpty\<rparr>"
  let ?s1 = "fst (HandleOffer idUnicode toyParse toyEnv J ?A toySession ''FP-A'')"
  let ?p2 = "?p1\<lparr>pm_session := Some ?s1\<rparr>"
  have f: "pm_session ?p1 = Some toySession" "pm_result ?p1 = None" "pm_brokerEvents ?p1" by (simp_all add: toyPeer_def)
  obtain es1 where 1: "peerRun idUnicode toyParse J ?A toyPeer
      [StLoop toyPenv (InBroker toyPaired), StLoop toyPenv (InBroker toyOffer)] = Some (?p2, es1)"
    using toy_offer [OF f, of J ?A] by (auto simp: toy_paired simp del: peerStep.simps)
  have "sessionStep idUnicode toyParse J ?A toyEnv toySession (CallHandleOffer ''FP-A'') = (?s1, [])"
    by (simp add: toy_HandleOffer dropResult_def)
  then have "sessionRun idUnicode toyParse J ?A ?s1 (map (Pair (pv_pion toyPenv)) ?cbs) = (s, es)"
    using r(1) by (simp add: toyPenv_def del: sessionStep.simps split: prod.splits)
  then have 2: "peerRun idUnicode toyParse J ?A ?p2 (map (StCallback toyPenv) ?cbs)
      = Some (?p2\<lparr>pm_session := Some s\<rparr>, sessionEffects toyPenv es)"
    by (intro callbacks_run) simp_all
  let ?p3 = "?p2\<lparr>pm_session := Some s, pm_authResultCh := ChRead\<rparr>"
  obtain es3 where 3: "peerRun idUnicode toyParse J ?A (?p2\<lparr>pm_session := Some s\<rparr>) [StAuthWait None, StLoop toyPenv InAuth]
      = Some (?p3, es3)"
    using r(3) by (simp add: authWait_def WaitAuthenticated_def IsAuthenticated_def onAuthResult_def startListener_def
        toyPeer_def toyOptions_def)
  have "\<exists>es. peerRun idUnicode toyParse J ?A toyPeer toySchedule = Some (?p3, es)"
    unfolding toySchedule_def using peerRun_append [OF 1 peerRun_append [OF 2 3]] by blast
  moreover have "pm_session ?p3 = Some s" "pm_result ?p3 = None" "pm_brokerEvents ?p3" by (simp_all add: toyPeer_def)
  ultimately show ?thesis using r(2-4) by blast
qed

text \<open>
  (C9) The peer program drives one session: in any run of a started program, whatever the broker, the
  stack, the listener and its clients do and in whatever order, the session's state and effects
  are those of a run of its own methods and callbacks from \<open>NewSession\<close>, with the mode and ICE servers of
  the options and the authenticator made from the pairing secret; if there is none, no effect of a
  session has happened but the close of a peer connection that could not be set up.
\<close>

theorem peer_drives_one_session:
  assumes "runPeer_start C U0 U' dialErr de we bv options = (Inr p0, es0)"
    and "peerRun U parse J (interactiveIface C U') p0 sts = Some (p, es)"
  shows "case pm_session p of
      None \<Rightarrow> sessionOf es = [] \<or> sessionOf es = [ClosePC] \<and> pm_result p \<noteq> None
    | Some s \<Rightarrow> \<exists>E newPC cfg s0 a evs. NewSession E newPC cfg = (Inr (s0, []), [])
        \<and> sessionRun U parse J (interactiveIface C U') s0 evs = (s, sessionOf es)
        \<and> NewInteractiveAuthenticator C (po_PairingSecret options) = Inr a
        \<and> sc_Authenticator cfg = Some a \<and> sc_Mode cfg = po_Mode options \<and> sc_ICE cfg = po_ICE options
        \<and> (sc_hasOnStream cfg \<longleftrightarrow> po_Mode options = ModeExpose)"
proof -
  note i = runPeer_start_Inr [OF assms(1), of "\<lambda>a. au_state a = AuthStateSucceeded"]
  have "peer_inv (\<lambda>a. au_state a = AuthStateSucceeded) p0" "pm_session p0 = None" using i by simp_all
  from ia.peerRun_one_session [OF this(1) assms(2) this(2)]
  consider "pm_session p = None" "sessionOf es = [] \<or> sessionOf es = [ClosePC] \<and> pm_result p \<noteq> None"
    | (s) V sm paired s0 s where "NewSession (pv_pion (V :: penv)) (pv_newPC V) (sessionConfig p0 sm paired) = (Inr (s0, []), [])"
        "pm_session p = Some s" "follows U parse J (interactiveIface C U') s0 (sessionOf es) s"
    by (elim disjE exE conjE) simp_all
  then show ?thesis
  proof cases
    case s
    obtain evs where "sessionRun U parse J (interactiveIface C U') s0 evs = (s, sessionOf es)"
      using s(3) by (auto simp: follows_def)
    with s(1,2) i show ?thesis
      by (auto simp: sessionConfig_def intro!: exI [of _ "pv_pion V"] exI [of _ "pv_newPC V"] exI [of _ "sessionConfig p0 sm paired"])
  qed simp
qed

theorem peer_drives_one_session_witness:
  "\<exists>J p es s. peerRun idUnicode toyParse J (interactiveIface toyCrypto idUnicode) toyPeer toySchedule = Some (p, es)
     \<and> pm_session p = Some s \<and> IsAuthenticated s
     \<and> (\<exists>E newPC cfg s0 evs. NewSession E newPC cfg = (Inr (s0, []), []) \<and> sc_Mode cfg = ModeExpose
          \<and> sessionRun idUnicode toyParse J (interactiveIface toyCrypto idUnicode) s0 evs = (s, sessionOf es))"
proof -
  obtain J p s es where r: "peerRun idUnicode toyParse J (interactiveIface toyCrypto idUnicode) toyPeer toySchedule = Some (p, es)"
      "pm_session p = Some s" "IsAuthenticated s" using toy_peer_authenticates by blast
  obtain es0 where "runPeer_start toyCrypto idUnicode idUnicode None None None ''v1'' toyOptions = (Inr toyPeer, es0)"
    using toy_start by blast
  from peer_drives_one_session [OF this r(1)]
  obtain E newPC cfg s0 evs where "NewSession E newPC cfg = (Inr (s0, []), [])" "sc_Mode cfg = po_Mode toyOptions"
      "sessionRun idUnicode toyParse J (interactiveIface toyCrypto idUnicode) s0 evs = (s, sessionOf es)"
    unfolding r(2) option.case by blast
  moreover from this(2) have "sc_Mode cfg = ModeExpose" by (simp add: toyOptions_def)
  ultimately have "\<exists>E newPC cfg s0 evs. NewSession E newPC cfg = (Inr (s0, []), []) \<and> sc_Mode cfg = ModeExpose
          \<and> sessionRun idUnicode toyParse J (interactiveIface toyCrypto idUnicode) s0 evs = (s, sessionOf es)" by blast
  with r show ?thesis by blast
qed

text \<open>
  (C10) Nothing is tunnelled before authentication: in any run of a started program, if a local listener
  was started, a connection accepted for forwarding or a payload channel opened or handed out, then
  the session's authenticator has succeeded and its published result is a success.
\<close>

theorem peer_tunnels_only_after_auth:
  assumes "runPeer_start C U0 U' dialErr de we bv options = (Inr p0, es0)"
    and "peerRun U parse J (interactiveIface C U') p0 sts = Some (p, es)"
    and "e \<in> set es" "tunnelEffect e"
  shows "\<exists>s. pm_session p = Some s \<and> au_state (se_authenticator s) = AuthStateSucceeded \<and> WaitAuthenticated s = Some None"
proof -
  note i = runPeer_start_Inr [OF assms(1), of "\<lambda>a. au_state a = AuthStateSucceeded"]
  have "peer_inv (\<lambda>a. au_state a = AuthStateSucceeded) p" "authOK p"
    using ia.peerRun_inv [OF _ assms(2)] i assms(3,4) by blast+
  then show ?thesis
    by (auto simp: peer_inv_def session_inv_def authOK_def WaitAuthenticated_def IsAuthenticated_def)
qed

theorem peer_tunnels_only_after_auth_witness:
  "\<exists>J p es s. peerRun idUnicode toyParse J (interactiveIface toyCrypto idUnicode) toyPeer
        (toySchedule @ [StCallback toyPenv (EvDataChannel 2 ''stream'')]) = Some (p, es)
     \<and> PSession (OnStream 2) \<in> set es \<and> pm_session p = Some s \<and> au_state (se_authenticator s) = AuthStateSucceeded"
proof -
  let ?A = "interactiveIface toyCrypto idUnicode"
  obtain J p s es where r: "peerRun idUnicode toyParse J ?A toyPeer toySchedule = Some (p, es)"
      "pm_session p = Some s" "sm_state (se_stateMachine s) = StateAuthenticated" "IsAuthenticated s" "se_hasOnStream s"
    using toy_peer_authenticates by blast
  obtain q where "peerRun idUnicode toyParse J ?A p [StCallback toyPenv (EvDataChannel 2 ''stream'')] = Some (q, [PSession (OnStream 2)])"
    using r(2-5) by (simp add: onDataChannel_def controlChannelLabel_def prepareInboundPayloadChannel_def Transition_def
        sessionEffects_def sessionEffect_def)
  from peerRun_append [OF r(1) this]
  have run: "peerRun idUnicode toyParse J ?A toyPeer (toySchedule @ [StCallback toyPenv (EvDataChannel 2 ''stream'')])
      = Some (q, es @ [PSession (OnStream 2)])" .
  obtain es0 where "runPeer_start toyCrypto idUnicode idUnicode None None None ''v1'' toyOptions = (Inr toyPeer, es0)"
    using toy_start by blast
  from peer_tunnels_only_after_auth [OF this run, of "PSession (OnStream 2)"]
  obtain s' where "pm_session q = Some s'" "au_state (se_authenticator s') = AuthStateSucceeded" by (auto simp: payloadEffect_def)
  with run show ?thesis by (intro exI conjI) (assumption | simp)+
qed

text \<open>
  (C11) Returning releases everything once: in any run the broker client is closed exactly once, by the
  return; the peer connection is closed at most once, and exactly once when the program has
  returned with a session; and after the return the result stands and no payload channel is opened or handed out.
\<close>

theorem peer_releases_once:
  assumes "runPeer_start C U0 U' dialErr de we bv options = (Inr p0, es0)"
    and "peerRun U parse J (interactiveIface C U') p0 sts = Some (p, es)"
    and "peerRun U parse J (interactiveIface C U') p sts' = Some (p', es')"
  shows "count_list es PClientClose = (if pm_result p = None then 0 else 1)
       \<and> count_list es (PSession ClosePC) \<le> 1
       \<and> (pm_result p \<noteq> None \<and> pm_session p \<noteq> None \<longrightarrow> count_list es (PSession ClosePC) = 1)
       \<and> (pm_result p \<noteq> None \<longrightarrow> pm_result p' = pm_result p
            \<and> (\<forall>dc label. PSession (OnStream dc) \<notin> set es' \<and> PSession (OpenedStream dc label) \<notin> set es'))"
proof -
  let ?succ = "\<lambda>a. au_state a = AuthStateSucceeded"
  note i = runPeer_start_Inr [OF assms(1), of ?succ]
  have r: "peer_inv ?succ p" "count_list es PClientClose = (if pm_result p = None then 0 else 1)"
    using ia.peerRun_inv [OF _ assms(2)] i by simp_all
  have r': "pm_result p \<noteq> None \<longrightarrow> pm_result p' = pm_result p" using ia.peerRun_inv [OF r(1) assms(3)] by simp
  have c: "count_list es (PSession ClosePC) \<le> 1 \<and> (pm_result p \<noteq> None \<and> pm_session p \<noteq> None \<longrightarrow> count_list es (PSession ClosePC) = 1)"
  proof (cases "pm_session p")
    case None
    then show ?thesis using ia.peerRun_one_session [OF _ assms(2)] i by (auto simp: sessionOf_count)
  next
    case (Some s)
    obtain V sm paired s0 evs where n: "NewSession (pv_pion (V :: penv)) (pv_newPC V) (sessionConfig p0 sm paired) = (Inr (s0, []), [])"
        "sessionRun U parse J (interactiveIface C U') s0 evs = (s, sessionOf es)"
      using ia.peerRun_one_session [OF _ assms(2)] i Some by (auto simp: follows_def)
    have "evolves s0 (sessionOf es) s" using ia.sessionRun_good [OF NewSession_inv [OF n(1)] n(2)] by simp
    moreover have "pm_result p \<noteq> None \<longrightarrow> se_closeOnce s" using r(1) Some by (simp add: peer_inv_def sessionClosed_def)
    ultimately show ?thesis using NewSession_fresh [OF n(1)] by (simp add: evolves_def sessionOf_count)
  qed
  have "PSession e \<notin> set es'" if "pm_result p \<noteq> None" "payloadEffect e" for e
  proof (cases "pm_session p")
    case None
    then show ?thesis using ia.peerStep_after_return [OF r(1) that(1)] assms(3) by (cases sts') auto
  next
    case (Some s)
    obtain s' evs where f: "sessionRun U parse J (interactiveIface C U') s evs = (s', sessionOf es')"
      using ia.peerRun_follows [OF r(1) assms(3) Some] by (auto simp: follows_def)
    have "session_inv ?succ s" "se_closeOnce s" using r(1) that(1) Some by (simp_all add: peer_inv_def sessionClosed_def)
    from ia.torn_no_payload [OF this f that(2)] show ?thesis by (simp add: sessionOf_mem)
  qed
  then show ?thesis using r(2) r' c by (auto simp: payloadEffect_def)
qed

theorem peer_releases_once_witness:
  "\<exists>J p es. peerRun idUnicode toyParse J (interactiveIface toyCrypto idUnicode) toyPeer
        (toySchedule @ [StLoop toyPenv InDone]) = Some (p, es)
     \<and> pm_result p = Some None \<and> count_list es PClientClose = 1 \<and> count_list es (PSession ClosePC) = 1"
proof -
  let ?A = "interactiveIface toyCrypto idUnicode"
  obtain J p s es where r: "peerRun idUnicode toyParse J ?A toyPeer toySchedule = Some (p, es)"
      "pm_session p = Some s" "pm_result p = None" using toy_peer_authenticates by blast
  obtain q fs where q: "peerRun idUnicode toyParse J ?A p [StLoop toyPenv InDone] = Some (q, fs)"
      "pm_result q = Some None" "pm_session q \<noteq> None"
    using r(2,3) by (cases "Close (pv_pion toyPenv) s") (simp add: returnWith_def)
  from peerRun_append [OF r(1) q(1)]
  have run: "peerRun idUnicode toyParse J ?A toyPeer (toySchedule @ [StLoop toyPenv InDone]) = Some (q, es @ fs)" .
  have stop: "peerRun idUnicode toyParse J ?A q [] = Some (q, [])" by simp
  obtain es0 where "runPeer_start toyCrypto idUnicode idUnicode None None None ''v1'' toyOptions = (Inr toyPeer, es0)"
    using toy_start by blast
  from peer_releases_once [OF this run stop] run q(2,3) show ?thesis by (intro exI conjI) (assumption | simp)+
qed

section \<open>Losing the broker\<close>

lemma postAuth_iff:
  assumes "peer_inv succ p"
  shows "postAuth p \<longleftrightarrow> (\<exists>s. pm_session p = Some s \<and> IsAuthenticated s \<and> \<not> torn s)"
proof (cases "pm_session p")
  case None
  with assms show ?thesis by (auto simp: postAuth_def loopState_def peer_inv_def)
next
  case (Some s)
  let ?live = "sm_state (se_stateMachine s) \<in> {StateAuthenticated, StateStreaming}"
  from Some assms have "session_inv succ s" by (simp add: peer_inv_def)
  then have "IsAuthenticated s \<longrightarrow> ?live \<or> torn s" "?live \<longrightarrow> IsAuthenticated s" unfolding session_inv_def by blast+
  moreover have "?live \<longrightarrow> \<not> torn s" by (auto simp: torn_def)
  moreover have "postAuth p \<longleftrightarrow> ?live" by (simp add: postAuth_def loopState_def Some)
  ultimately show ?thesis unfolding Some by blast
qed

text \<open>Once detached, the broker is never heard again.\<close>

lemma handled_events:
  "pm_brokerEvents (fst (returnWith V p r)) = pm_brokerEvents p"
  "pm_brokerEvents (fst (failReturn V p e err)) = pm_brokerEvents p"
  by (auto simp: returnWith_def failReturn_def split: option.splits prod.splits)

lemma loopStep_detached:
  "loopStep U parse J A V p i = Some (q, es) \<Longrightarrow> \<not> pm_brokerEvents p \<Longrightarrow> \<not> pm_brokerEvents q"
  by (cases i)
     (auto simp: prod_eq_iff onAuthResult_def onListenerResult_def failSession_def startListener_def handled_events
       split: resultCh.splits option.splits if_splits prod.splits)

lemma openStream_events: "openStream V p label = (q, es, r) \<Longrightarrow> pm_brokerEvents q = pm_brokerEvents p"
  by (auto simp: openStream_def split: option.splits prod.splits)

lemma peerStep_detached:
  assumes "peerStep U parse J A p st = Some (q, es)" "\<not> pm_brokerEvents p"
  shows "\<not> pm_brokerEvents q"
proof (cases st)
  case (StLoop V i)
  with assms loopStep_detached [of U parse J A V p i q es] show ?thesis by (auto split: if_splits)
next
  case (StAccept V e a)
  have "pm_brokerEvents (fst (runListener_accept V e a p)) = pm_brokerEvents p"
    by (auto simp: runListener_accept_def listenerReturn_def Let_def dest: openStream_events
        split: accept.splits option.splits prod.splits sum.splits)
  moreover have "pm_brokerEvents (fst (runSOCKS5Listener_accept e a p)) = pm_brokerEvents p"
    by (auto simp: runSOCKS5Listener_accept_def listenerReturn_def split: accept.splits option.splits)
  ultimately show ?thesis using assms StAccept by (auto split: if_splits)
next
  case (StSocks V conn)
  have "pm_brokerEvents (fst (handleSOCKS5Connect V conn x)) = pm_brokerEvents x" for x
    by (auto simp: handleSOCKS5Connect_def Let_def dest: openStream_events split: prod.splits sum.splits)
  from this [of "p\<lparr>pm_socksHandlers := pm_socksHandlers p - 1\<rparr>"] show ?thesis
    using assms StSocks by (auto split: if_splits prod.splits)
qed (use assms in \<open>auto simp: authWait_def listenerListen_def split: option.splits if_splits prod.splits resultCh.splits\<close>)

lemma peerRun_detached:
  "peerRun U parse J A p sts = Some (q, es) \<Longrightarrow> \<not> pm_brokerEvents p \<Longrightarrow> \<not> pm_brokerEvents q"
proof (induction sts arbitrary: p es)
  case (Cons st sts)
  then obtain p1 es1 es2 where "peerStep U parse J A p st = Some (p1, es1)" "peerRun U parse J A p1 sts = Some (q, es2)"
    by (auto split: option.splits)
  with Cons.IH Cons.prems(2) peerStep_detached show ?case by blast
qed simp

text \<open>
  (C12) Losing the broker: when the broker connection of a running program ends (its events channel
  closes, or the client reports a read error), the loop reacts at once.  While an
  authenticated session is not torn down, the session is left as it is, the program goes on and
  the broker is never listened to again; otherwise the program returns with an error and the session, if any, is closed.
\<close>

theorem broker_loss_spares_tunnel:
  assumes "runPeer_start C U0 U' dialErr de we bv options = (Inr p0, es0)"
    and "peerRun U parse J (interactiveIface C U') p0 sts = Some (p, es)"
    and "pm_result p = None" "pm_brokerEvents p"
    and "i = InBrokerClosed \<or> i = InBroker (brokerReadError text)"
  shows "\<exists>q fs. peerStep U parse J (interactiveIface C U') p (StLoop V i) = Some (q, fs)
     \<and> (if \<exists>s. pm_session p = Some s \<and> IsAuthenticated s \<and> \<not> torn s
        then pm_session q = pm_session p \<and> sessionOf fs = [] \<and> pm_result q = None
           \<and> (\<forall>sts' q' fs'. peerRun U parse J (interactiveIface C U') q sts' = Some (q', fs') \<longrightarrow> \<not> pm_brokerEvents q')
        else (\<exists>err. pm_result q = Some (Some err)) \<and> sessionClosed q \<and> PClientClose \<in> set fs)"
proof -
  let ?A = "interactiveIface C U'"
  have inv: "peer_inv (\<lambda>a. au_state a = AuthStateSucceeded) p"
    using ia.peerRun_inv [OF _ assms(2)] runPeer_start_Inr [OF assms(1)] by blast
  note pa = postAuth_iff [OF inv]
  have ty: "ms_Type (brokerReadError text) = MessageTypeError"
      "ms_Error (brokerReadError text) = Some \<lparr>er_Code = ''broker-read'', er_Message = text\<rparr>"
    by (simp_all add: brokerReadError_def Message_def)
  show ?thesis
  proof (cases "postAuth p")
    case True
    then obtain reason where st: "peerStep U parse J ?A p (StLoop V i) = Some (onBrokerLoss p reason)"
      using assms(3-5) ty by (auto simp: onBrokerMessage_def)
    with True assms(3) peerRun_detached [where p = "p\<lparr>pm_brokerEvents := False\<rparr>"] show ?thesis
      unfolding pa by (auto simp: onBrokerLoss_def)
  next
    case False
    then obtain err where st: "peerStep U parse J ?A p (StLoop V i) = Some (failSession V p err)"
      using assms(3-5) ty by (auto simp: onBrokerMessage_def)
    have "handled U parse J ?A p (failSession V p err)" "pm_result (fst (failSession V p err)) = Some (Some err)"
      using finishes_handled [OF finishes_failSession] by blast+
    then have "sessionClosed (fst (failSession V p err))" "count_list (snd (failSession V p err)) PClientClose = 1"
      "pm_result (fst (failSession V p err)) = Some (Some err)"
      using assms(3) unfolding handled_def by auto
    moreover from this(2) have "PClientClose \<in> set (snd (failSession V p err))" by (metis count_notin zero_neq_one)
    ultimately show ?thesis
      using False st unfolding pa by (cases "failSession V p err") auto
  qed
qed

theorem broker_loss_spares_tunnel_witness:
  "\<exists>J p es s q fs. peerRun idUnicode toyParse J (interactiveIface toyCrypto idUnicode) toyPeer toySchedule = Some (p, es)
     \<and> peerStep idUnicode toyParse J (interactiveIface toyCrypto idUnicode) p (StLoop toyPenv InBrokerClosed) = Some (q, fs)
     \<and> pm_session q = Some s \<and> IsAuthenticated s \<and> pm_result q = None"
proof -
  let ?A = "interactiveIface toyCrypto idUnicode"
  obtain J p s es where r: "peerRun idUnicode toyParse J ?A toyPeer toySchedule = Some (p, es)"
      "pm_session p = Some s" "sm_state (se_stateMachine s) = StateAuthenticated" "IsAuthenticated s"
      "pm_result p = None" "pm_brokerEvents p" using toy_peer_authenticates by blast
  obtain es0 where st: "runPeer_start toyCrypto idUnicode idUnicode None None None ''v1'' toyOptions = (Inr toyPeer, es0)"
    using toy_start by blast
  have "\<not> torn s" using r(3) by (simp add: torn_def)
  with broker_loss_spares_tunnel [OF st r(1) r(5,6), of InBrokerClosed "[]" toyPenv] r(2,4)
  obtain q fs where "peerStep idUnicode toyParse J ?A p (StLoop toyPenv InBrokerClosed) = Some (q, fs)"
      "pm_session q = Some s" "pm_result q = None" by (auto simp del: peerStep.simps)
  with r(1,4) show ?thesis by blast
qed

section \<open>SOCKS5 targets\<close>

lemma parse_socks5Label: "target \<noteq> [] \<Longrightarrow> parseSocks5Label (socks5Label n target) = Inr target"
proof -
  assume t: "target \<noteq> []"
  let ?pre = "''socks5-'' @ FormatNat (unat n)"
  have "CHR ''|'' \<notin> set (FormatNat (unat n))"
    using FormatNat_digits [of "unat n"] by (auto simp: list_all_iff isDigit_def)
  then have "IndexByte (?pre @ CHR ''|'' # target) CHR ''|'' = Some (length ?pre)"
    by (intro IndexByte_append) simp
  with t show ?thesis by (simp add: parseSocks5Label_def socks5Label_def)
qed

lemma JoinHostPort_nonempty [simp]: "JoinHostPort h p \<noteq> []"
  by (simp add: JoinHostPort_def)

lemma expose_wire:
  assumes "parseSocks5Label label = Inr target"
  shows "filter wireEffect (handleExposeStream configured True label dialErr sendErr)
       = (if dialErr target = None \<and> sendErr = None then [XDial target, XSend [1], XBridge] else [XDial target])"
    and "\<not> (dialErr target = None \<and> sendErr = None) \<Longrightarrow> last (handleExposeStream configured True label dialErr sendErr) = XCloseDC"
  using assms by (auto simp: handleExposeStream_def split: option.splits)

text \<open>
  (C23) The exposing peer dials what the SOCKS5 client asked for.  When the connecting peer opens a
  channel for a client, the label it gives to the WebRTC stack carries the target of the client's
  request, whatever bytes the host name has.  For a channel with that label the exposing peer dials
  that target, once and nothing else, and what it then does on the network is, in this order, the
  dial, the ready signal and the bridge: the signal is sent only after the dial has succeeded, and
  the stream is bridged only after the signal was sent.  When the dial or the signal fails there is
  no bridge and the channel is closed.  The connecting peer neither bridges nor answers its client
  until the signal has come.  (The comments of the code place the bridge of the exposing peer
  before its signal; the order here is the one of the code.)
\<close>

theorem socks5_target_end_to_end:
  assumes "handleSOCKS5Connect V conn p = (q, conn', es)" "PSession (OpenedStream dc label) \<in> set es"
  shows "\<exists>target. Handshake conn = (conn', Inr target) \<and> pe_createChannel (pv_pion V) label = Inr dc \<and> POnOpenSocks dc label \<in> set es
     \<and> (\<forall>configured dialErr sendErr.
          filter wireEffect (handleExposeStream configured True label dialErr sendErr)
            = (if dialErr target = None \<and> sendErr = None then [XDial target, XSend [1], XBridge] else [XDial target])
        \<and> (\<not> (dialErr target = None \<and> sendErr = None) \<longrightarrow>
             last (handleExposeStream configured True label dialErr sendErr) = XCloseDC))
     \<and> (\<forall>c2 xs. socks5OnOpen False conn' label target = (c2, xs) \<longrightarrow> c2 = conn' \<and> filter wireEffect xs = [])"
proof -
  obtain c1 h where h: "Handshake conn = (c1, h)" by fastforce
  obtain target where t: "h = Inr target" using assms h by (cases h) (auto simp: handleSOCKS5Connect_def)
  let ?l = "socks5Label (pm_streamCounter p + 1) target"
  obtain p2 fs r where o: "openStream V (p\<lparr>pm_streamCounter := pm_streamCounter p + 1\<rparr>) ?l = (p2, fs, r)" using prod_cases3 by blast
  have opened: "r = Inr d \<and> l = ?l \<and> pe_createChannel (pv_pion V) l = Inr d" if "PSession (OpenedStream d l) \<in> set fs" for d l
    using o that by (auto simp: openStream_def OpenStreamChannel_def sessionEffects_def sessionEffect_def
        split: option.splits prod.splits if_splits sum.splits)
  have "PSession (OpenedStream dc label) \<in> set fs"
    using assms by (auto simp: handleSOCKS5Connect_def h t Let_def o split: sum.splits)
  note r = opened [OF this]
  then have "conn' = c1" "POnOpenSocks dc label \<in> set es"
    using assms(1) by (auto simp: handleSOCKS5Connect_def h t Let_def o)
  moreover have "parseSocks5Label label = Inr target"
    using r Handshake_sound [OF h [unfolded t]] parse_socks5Label by fastforce
  ultimately show ?thesis using h t r expose_wire [of label target]
    by (auto simp: socks5OnOpen_def)
qed

theorem socks5_target_end_to_end_witness:
  "\<exists>q c es label. handleSOCKS5Connect toyPenv toyClient toyStreaming = (q, c, es) \<and> PSession (OpenedStream 7 label) \<in> set es
     \<and> filter wireEffect (handleExposeStream [] True label (\<lambda>_. None) None) = [XDial ''a|b:443'', XSend [1], XBridge]"
proof -
  have "snd (Handshake toyClient) = Inr ''a|b:443''" by code_simp
  then obtain c1 where h: "Handshake toyClient = (c1, Inr ''a|b:443'')" by (cases "Handshake toyClient") simp
  let ?label = "socks5Label (pm_streamCounter toyStreaming + 1) ''a|b:443''"
  obtain q c es where r: "handleSOCKS5Connect toyPenv toyClient toyStreaming = (q, c, es)" using prod_cases3 by blast
  have l: "PSession (OpenedStream 7 ?label) \<in> set es"
    using r by (auto simp: handleSOCKS5Connect_def h openStream_def toyStreaming_def OpenStreamChannel_def IsAuthenticated_def
        toySession_def toyPenv_def toyEnv_def Transition_def Let_def sessionEffects_def sessionEffect_def)
  from socks5_target_end_to_end [OF r l] h
  have "filter wireEffect (handleExposeStream [] True ?label (\<lambda>_. None) None) = [XDial ''a|b:443'', XSend [1], XBridge]"
    by auto
  with r l show ?thesis by blast
qed

end
