(* ===== verification/GoFlag.thy ===== *)
theory GoFlag
  imports GoUrl
begin

text \<open>
  The part of Go's \<open>flag\<close> package the programs use: \<open>FlagSet.Parse\<close> with the error handling
  \<open>ContinueOnError\<close>, over string, integer and boolean flags.  The defined flags are a function from names to
  kinds; setting a flag is a function on the state that its variables are part of.  Messages
  and usage text go to the terminal and are left out.
\<close>

section \<open>Definitions\<close>

definition flag_ErrHelp :: gerror where
  "flag_ErrHelp = Sentinel ''flag.ErrHelp''"

datatype flagKind = FlagString | FlagInt | FlagBool

definition ParseBool :: "string \<Rightarrow> bool option" where
  "ParseBool s =
     (if s \<in> {''1'', ''t'', ''T'', ''TRUE'', ''true'', ''True''} then Some True
      else if s \<in> {''0'', ''f'', ''F'', ''FALSE'', ''false'', ''False''} then Some False
      else None)"

text \<open>
  \<open>strconv.ParseInt\<close> with base 0 and 64 bits, as integer flags use it: an optional sign, a base prefix, and
  underscores between digits.
\<close>

definition digitOf :: "char \<Rightarrow> nat option" where
  "digitOf c =
     (if isDigit c then Some (ord c - 48)
      else if 97 \<le> ord (lowerChar c) \<and> ord (lowerChar c) \<le> 122 then Some (ord (lowerChar c) - 87)
      else None)"

text \<open>The prefix of a number without its sign: the base and what follows.\<close>

definition splitBase :: "string \<Rightarrow> nat \<times> string" where
  "splitBase s =
     (case s of
        c # d # r \<Rightarrow>
          if c \<noteq> CHR ''0'' then (10, s)
          else if r \<noteq> [] \<and> lowerChar d = CHR ''b'' then (2, r)
          else if r \<noteq> [] \<and> lowerChar d = CHR ''o'' then (8, r)
          else if r \<noteq> [] \<and> lowerChar d = CHR ''x'' then (16, r)
          else (8, d # r)
      | [c] \<Rightarrow> if c = CHR ''0'' then (8, []) else (10, s)
      | [] \<Rightarrow> (10, []))"

fun parseDigits :: "nat \<Rightarrow> nat \<Rightarrow> string \<Rightarrow> nat option" where
  "parseDigits base n [] = Some n"
| "parseDigits base n (c # cs) =
     (if c = CHR ''_'' then parseDigits base n cs
      else (case digitOf c of
        None \<Rightarrow> None
      | Some d \<Rightarrow> if base \<le> d \<or> 2 ^ 64 \<le> n * base + d then None else parseDigits base (n * base + d) cs))"

fun underscoreLoop :: "bool \<Rightarrow> char \<Rightarrow> string \<Rightarrow> bool" where
  "underscoreLoop hex saw [] = (saw \<noteq> CHR ''_'')"
| "underscoreLoop hex saw (c # cs) =
     (if isDigit c \<or> hex \<and> 97 \<le> ord (lowerChar c) \<and> ord (lowerChar c) \<le> 102 then underscoreLoop hex CHR ''0'' cs
      else if c = CHR ''_'' then saw = CHR ''0'' \<and> underscoreLoop hex CHR ''_'' cs
      else saw \<noteq> CHR ''_'' \<and> underscoreLoop hex CHR ''!'' cs)"

definition underscoreOK :: "string \<Rightarrow> bool" where
  "underscoreOK s =
     (case s of
        c # d # r \<Rightarrow>
          if c = CHR ''0'' \<and> lowerChar d \<in> set ''box'' then underscoreLoop (lowerChar d = CHR ''x'') CHR ''0'' r
          else underscoreLoop False CHR ''^'' s
      | _ \<Rightarrow> underscoreLoop False CHR ''^'' s)"

definition ParseUint0 :: "string \<Rightarrow> nat option" where
  "ParseUint0 s =
     (if s = [] then None
      else (case splitBase s of (base, r) \<Rightarrow>
        (case parseDigits base 0 r of
           None \<Rightarrow> None
         | Some n \<Rightarrow> if CHR ''_'' \<in> set r \<and> \<not> underscoreOK s then None else Some n)))"

definition ParseInt0 :: "string \<Rightarrow> int option" where
  "ParseInt0 s =
     (let neg = (s \<noteq> [] \<and> hd s = CHR ''-''); u = (if s \<noteq> [] \<and> (hd s = CHR ''-'' \<or> hd s = CHR ''+'') then tl s else s) in
      case ParseUint0 u of
        None \<Rightarrow> None
      | Some n \<Rightarrow>
          if \<not> neg \<and> 2 ^ 63 \<le> n \<or> neg \<and> 2 ^ 63 < n then None else Some (if neg then - int n else int n))"

text \<open>Whether a flag that is not boolean takes a text as its value, and the error when not.\<close>

definition valueOK :: "flagKind \<Rightarrow> string \<Rightarrow> bool" where
  "valueOK kind v \<longleftrightarrow> (kind = FlagInt \<longrightarrow> ParseInt0 v \<noteq> None)"

definition badValue :: "string \<Rightarrow> string \<Rightarrow> gerror" where
  "badValue v name = Errorf ''invalid value %q for flag -%s: %v'' [v, name, ''parse error''] []"

text \<open>The name of an argument that is a flag, with its value when one is attached.\<close>

definition flagName :: "string \<Rightarrow> string" where
  "flagName s = (if s ! 1 = CHR ''-'' then drop 2 s else drop 1 s)"

text \<open>
  \<open>Parse\<close>: the state after the flags, and the arguments that are left or the error.  An integer flag is set
  from its text, which has been checked.  Parsing stops
  at the first argument that is not a flag, after \<open>--\<close>, and at an error.
\<close>

fun flag_Parse ::
  "(string \<Rightarrow> flagKind option) \<Rightarrow> (string \<Rightarrow> string \<Rightarrow> 's \<Rightarrow> 's) \<Rightarrow> (string \<Rightarrow> bool \<Rightarrow> 's \<Rightarrow> 's) \<Rightarrow> 's \<Rightarrow> string list
    \<Rightarrow> 's \<times> string list res" where
  "flag_Parse formal setS setB st [] = (st, Inr [])"
| "flag_Parse formal setS setB st (s # args) =
     (if length s < 2 \<or> s ! 0 \<noteq> CHR ''-'' then (st, Inr (s # args))
      else if s = ''--'' then (st, Inr args)
      else if flagName s = [] \<or> hd (flagName s) = CHR ''-'' \<or> hd (flagName s) = CHR ''='' then
        (st, Inl (Errorf ''bad flag syntax: %s'' [s] []))
      else
        (case CutByte (flagName s) CHR ''='' of
           (name, value, hasValue) \<Rightarrow>
             (case formal name of
                None \<Rightarrow>
                  if name = ''help'' \<or> name = ''h'' then (st, Inl flag_ErrHelp)
                  else (st, Inl (Errorf ''flag provided but not defined: -%s'' [name] []))
              | Some FlagBool \<Rightarrow>
                  (case ParseBool (if hasValue then value else ''true'') of
                     None \<Rightarrow> (st, Inl (Errorf ''invalid boolean value %q for -%s: %v'' [value, name, ''parse error''] []))
                   | Some b \<Rightarrow> flag_Parse formal setS setB (setB name b st) args)
              | Some kind \<Rightarrow>
                  if hasValue then
                    (if \<not> valueOK kind value then (st, Inl (badValue value name))
                     else flag_Parse formal setS setB (setS name value st) args)
                  else (case args of
                          [] \<Rightarrow> (st, Inl (Errorf ''flag needs an argument: -%s'' [name] []))
                        | v # rest \<Rightarrow>
                            if \<not> valueOK kind v then (st, Inl (badValue v name))
                            else flag_Parse formal setS setB (setS name v st) rest))))"

lemma valueOK_simps [simp]: "valueOK FlagString v" "valueOK FlagInt v \<longleftrightarrow> ParseInt0 v \<noteq> None"
  by (simp_all add: valueOK_def)

end
