(* ===== verification/PeerFlags.thy ===== *)
theory PeerFlags
  imports GoFlag Connection PeerMain
begin

text \<open>
  The command line of the peer program in \<^verbatim>\<open>cmd/rtc2tcp-peer/main.go\<close>: subcommands, flags, and how flags,
  connection string, environment and generated values make up the options that \<open>runPeer\<close> gets.
  The environment, the file system and the random source are arguments.
\<close>

section \<open>Definitions\<close>

text \<open>The horizontal ellipsis in a message, in UTF-8.\<close>

definition ellipsis :: string where
  "ellipsis = [CHR 0xE2, CHR 0x80, CHR 0xA6]"

fun peekBool :: "string list \<Rightarrow> string list \<Rightarrow> bool" where
  "peekBool [] names = False"
| "peekBool (a # args) names =
     (if list_ex (\<lambda>n. a = ''-'' @ n \<or> a = ''--'' @ n \<or> a = ''-'' @ n @ ''=true'' \<or> a = ''--'' @ n @ ''=true'') names then True
      else peekBool args names)"

record peerFlags =
  fl_options :: PeerOptions
  fl_versionOnly :: bool
  fl_quiet :: bool
  fl_noColor :: bool
  fl_pairingSecret :: string
  fl_pairingSecretFile :: string
  fl_legacySecret :: string
  fl_legacySecretFile :: string
  fl_connectionString :: string

definition defaultBrokerOf :: "string \<Rightarrow> string" where
  "defaultBrokerOf buildBroker = (if buildBroker = [] then ''https://rtc.haltman.io/'' else buildBroker)"

text \<open>The variables once all flags are registered: a registration sets its variable to the default.\<close>

definition flagDefaults :: "string \<Rightarrow> PeerMode \<Rightarrow> peerFlags" where
  "flagDefaults defaultBroker mode =
     \<lparr>fl_options = \<lparr>po_Mode = mode, po_RendezvousToken = [], po_PairingSecret = [], po_BrokerURL = defaultBroker,
         po_ICE = \<lparr>ice_STUN = defaultSTUN, ice_TURN = [], ice_TURNUsername = [], ice_TURNPassword = []\<rparr>,
         po_Target = [], po_Listen = (if mode = ModeConnect then defaultListen else []), po_SOCKS5 = False\<rparr>,
      fl_versionOnly = False, fl_quiet = False, fl_noColor = False, fl_pairingSecret = [], fl_pairingSecretFile = [],
      fl_legacySecret = [], fl_legacySecretFile = [], fl_connectionString = []\<rparr>"

definition flagKindOf :: "PeerMode \<Rightarrow> string \<Rightarrow> flagKind option" where
  "flagKindOf mode name =
     (if name \<in> {''rendezvous-token'', ''pairing-secret'', ''pairing-secret-file'', ''secret'', ''secret-file'', ''broker'',
                 ''stun'', ''turn'', ''turn-username'', ''turn-password'', ''connection'', ''t'', ''s'', ''b''} then Some FlagString
      else if name \<in> {''version'', ''quiet'', ''silent'', ''no-color'', ''V'', ''q''} then Some FlagBool
      else if mode = ModeExpose \<and> name \<in> {''target'', ''T''} then Some FlagString
      else if mode = ModeConnect \<and> name \<in> {''listen'', ''l''} then Some FlagString
      else if (mode = ModeExpose \<or> mode = ModeConnect) \<and> name = ''socks5'' then Some FlagBool
      else None)"

definition setStringFlag :: "string \<Rightarrow> string \<Rightarrow> peerFlags \<Rightarrow> peerFlags" where
  "setStringFlag name v f =
     (let o' = fl_options f; ice = po_ICE o' in
      if name = ''rendezvous-token'' \<or> name = ''t'' then f\<lparr>fl_options := o'\<lparr>po_RendezvousToken := v\<rparr>\<rparr>
      else if name = ''pairing-secret'' \<or> name = ''s'' then f\<lparr>fl_pairingSecret := v\<rparr>
      else if name = ''pairing-secret-file'' then f\<lparr>fl_pairingSecretFile := v\<rparr>
      else if name = ''secret'' then f\<lparr>fl_legacySecret := v\<rparr>
      else if name = ''secret-file'' then f\<lparr>fl_legacySecretFile := v\<rparr>
      else if name = ''broker'' \<or> name = ''b'' then f\<lparr>fl_options := o'\<lparr>po_BrokerURL := v\<rparr>\<rparr>
      else if name = ''stun'' then f\<lparr>fl_options := o'\<lparr>po_ICE := ice\<lparr>ice_STUN := v\<rparr>\<rparr>\<rparr>
      else if name = ''turn'' then f\<lparr>fl_options := o'\<lparr>po_ICE := ice\<lparr>ice_TURN := v\<rparr>\<rparr>\<rparr>
      else if name = ''turn-username'' then f\<lparr>fl_options := o'\<lparr>po_ICE := ice\<lparr>ice_TURNUsername := v\<rparr>\<rparr>\<rparr>
      else if name = ''turn-password'' then f\<lparr>fl_options := o'\<lparr>po_ICE := ice\<lparr>ice_TURNPassword := v\<rparr>\<rparr>\<rparr>
      else if name = ''connection'' then f\<lparr>fl_connectionString := v\<rparr>
      else if name = ''target'' \<or> name = ''T'' then f\<lparr>fl_options := o'\<lparr>po_Target := v\<rparr>\<rparr>
      else if name = ''listen'' \<or> name = ''l'' then f\<lparr>fl_options := o'\<lparr>po_Listen := v\<rparr>\<rparr>
      else f)"

definition setBoolFlag :: "string \<Rightarrow> bool \<Rightarrow> peerFlags \<Rightarrow> peerFlags" where
  "setBoolFlag name b f =
     (if name = ''version'' \<or> name = ''V'' then f\<lparr>fl_versionOnly := b\<rparr>
      else if name = ''quiet'' \<or> name = ''silent'' \<or> name = ''q'' then f\<lparr>fl_quiet := b\<rparr>
      else if name = ''no-color'' then f\<lparr>fl_noColor := b\<rparr>
      else if name = ''socks5'' then f\<lparr>fl_options := (fl_options f)\<lparr>po_SOCKS5 := b\<rparr>\<rparr>
      else f)"

text \<open>The positional connection string of \<open>connect\<close>, and \<open>fs.Parse\<close>.\<close>

definition parseFlagSet :: "string \<Rightarrow> PeerMode \<Rightarrow> string list \<Rightarrow> peerFlags \<times> string list res" where
  "parseFlagSet defaultBroker mode args =
     (let f = flagDefaults defaultBroker mode in
      if mode = ModeConnect \<and> args \<noteq> [] \<and> \<not> startsWith ''-'' (hd args) then
        flag_Parse (flagKindOf mode) setStringFlag setBoolFlag (f\<lparr>fl_connectionString := hd args\<rparr>) (tl args)
      else flag_Parse (flagKindOf mode) setStringFlag setBoolFlag f args)"

text \<open>The connection string fills in what the flags leave open.\<close>

definition applyConnection :: "unicode \<Rightarrow> string \<Rightarrow> peerFlags \<Rightarrow> peerFlags res" where
  "applyConnection U defaultBroker f =
     (if TrimSpace (fl_connectionString f) = [] then Inr f
      else (case ParseConnectionString U (fl_connectionString f) of
        Inl err \<Rightarrow> Inl (Errorf ''parse --connection: %w'' [] [err])
      | Inr cs \<Rightarrow>
          (let f1 = (if TrimSpace (po_RendezvousToken (fl_options f)) = []
                     then f\<lparr>fl_options := (fl_options f)\<lparr>po_RendezvousToken := cs_RendezvousToken cs\<rparr>\<rparr> else f);
               f2 = (if fl_pairingSecret f1 = [] \<and> fl_pairingSecretFile f1 = [] \<and> fl_legacySecret f1 = []
                       \<and> fl_legacySecretFile f1 = [] then f1\<lparr>fl_pairingSecret := cs_PairingSecret cs\<rparr> else f1) in
           Inr (if po_BrokerURL (fl_options f2) = defaultBroker
                then f2\<lparr>fl_options := (fl_options f2)\<lparr>po_BrokerURL := cs_BrokerURL cs\<rparr>\<rparr> else f2))))"

text \<open>Token and secret: resolved, generated on \<open>expose\<close>, required on \<open>connect\<close>.\<close>

definition resolveToken :: "(string \<Rightarrow> string) \<Rightarrow> bytes res \<Rightarrow> PeerMode \<Rightarrow> string \<Rightarrow> string res" where
  "resolveToken env rnd mode given =
     (let v = ResolveRendezvousTokenOptional env given in
      if v \<noteq> [] then Inr v
      else if mode = ModeExpose then
        (case RandomToken rnd of Inl err \<Rightarrow> Inl (Errorf ''generate rendezvous token: %w'' [] [err]) | Inr tok \<Rightarrow> Inr tok)
      else Inl (Errorf (''rendezvous token is required: pass --rendezvous-token, --connection, set %s, or paste the rtc2tcp://'' @ ellipsis @ '' connection string'')
                  [EnvRendezvousToken] []))"

definition resolveSecret :: "(string \<Rightarrow> string) \<Rightarrow> (string \<Rightarrow> bytes res) \<Rightarrow> bytes res \<Rightarrow> PeerMode \<Rightarrow> peerFlags \<Rightarrow> string res" where
  "resolveSecret env fs rnd mode f =
     (case ResolvePairingSecretOptional env fs (fl_pairingSecret f) (fl_pairingSecretFile f) (fl_legacySecret f) (fl_legacySecretFile f) of
        Inl err \<Rightarrow> Inl err
      | Inr secret \<Rightarrow>
          if secret \<noteq> [] then Inr secret
          else if mode = ModeExpose then
            (case RandomToken rnd of Inl err \<Rightarrow> Inl (Errorf ''generate pairing secret: %w'' [] [err]) | Inr gen \<Rightarrow> Inr gen)
          else Inl (Errorf (''pairing secret is required: pass --pairing-secret, --pairing-secret-file, --connection, set %s/%s, or paste the rtc2tcp://''
                       @ ellipsis @ '' connection string'')
                      [EnvPairingSecretFile, EnvPairingSecret] []))"

definition parsePeerFlags ::
  "unicode \<Rightarrow> (string \<Rightarrow> string) \<Rightarrow> (string \<Rightarrow> bytes res) \<Rightarrow> bytes res \<Rightarrow> bytes res \<Rightarrow> string \<Rightarrow> PeerMode \<Rightarrow> string list
    \<Rightarrow> (PeerOptions \<times> bool) res" where
  "parsePeerFlags U env fs rnd1 rnd2 buildBroker mode args =
     (let defaultBroker = defaultBrokerOf buildBroker in
      case parseFlagSet defaultBroker mode args of
        (_, Inl err) \<Rightarrow> Inl err
      | (f, Inr _) \<Rightarrow>
          if fl_versionOnly f then Inr (fl_options f, True)
          else if mode = ModeExpose \<and> \<not> po_SOCKS5 (fl_options f) \<and> TrimSpace (po_Target (fl_options f)) = [] then
            Inl (errors_New ''expose mode requires --target HOST:PORT or --socks5'')
          else (case applyConnection U defaultBroker f of
            Inl err \<Rightarrow> Inl err
          | Inr f1 \<Rightarrow>
          (case resolveToken env rnd1 mode (po_RendezvousToken (fl_options f1)) of
            Inl err \<Rightarrow> Inl err
          | Inr token \<Rightarrow>
          (case resolveSecret env fs rnd2 mode f1 of
            Inl err \<Rightarrow> Inl err
          | Inr secret \<Rightarrow>
              Inr ((fl_options f1)\<lparr>po_RendezvousToken := token, po_PairingSecret := secret\<rparr>, False)))))"

text \<open>The connection string printed for the connecting machine, unless output is suppressed.\<close>

definition printExposeHandoff :: "unicode \<Rightarrow> bool \<Rightarrow> PeerOptions \<Rightarrow> string res option" where
  "printExposeHandoff U quiet options =
     (if quiet then None
      else Some (Format U \<lparr>cs_RendezvousToken = po_RendezvousToken options, cs_PairingSecret = po_PairingSecret options,
                   cs_BrokerURL = po_BrokerURL options\<rparr>))"

text \<open>\<open>run\<close> and \<open>runSubcommand\<close>: what they print, and whether they return or go on to \<open>runPeer\<close>.\<close>

datatype appOutput = RootUsage | VersionLine

datatype appResult = Returns "gerror option" | Runs PeerOptions

definition runSubcommand ::
  "unicode \<Rightarrow> (string \<Rightarrow> string) \<Rightarrow> (string \<Rightarrow> bytes res) \<Rightarrow> bytes res \<Rightarrow> bytes res \<Rightarrow> string \<Rightarrow> PeerMode \<Rightarrow> string list
    \<Rightarrow> appOutput list \<times> appResult" where
  "runSubcommand U env fs rnd1 rnd2 buildBroker mode args =
     (case parsePeerFlags U env fs rnd1 rnd2 buildBroker mode args of
        Inl err \<Rightarrow> if errors_Is err flag_ErrHelp then ([], Returns None) else ([], Returns (Some err))
      | Inr (options, versionOnly) \<Rightarrow>
          if versionOnly then ([VersionLine], Returns None) else ([], Runs options))"

definition app_run ::
  "unicode \<Rightarrow> (string \<Rightarrow> string) \<Rightarrow> (string \<Rightarrow> bytes res) \<Rightarrow> bytes res \<Rightarrow> bytes res \<Rightarrow> string \<Rightarrow> string list
    \<Rightarrow> appOutput list \<times> appResult" where
  "app_run U env fs rnd1 rnd2 buildBroker args =
     (case args of
        [] \<Rightarrow> ([RootUsage], Returns (Some (errors_New ''subcommand required'')))
      | cmd # rest \<Rightarrow>
          if cmd = ''expose'' then runSubcommand U env fs rnd1 rnd2 buildBroker ModeExpose rest
          else if cmd = ''connect'' then runSubcommand U env fs rnd1 rnd2 buildBroker ModeConnect rest
          else if cmd \<in> {''-h'', ''--help'', ''help''} then ([RootUsage], Returns None)
          else if cmd \<in> {''-v'', ''-V'', ''-version'', ''--version'', ''version''} then ([VersionLine], Returns None)
          else ([RootUsage], Returns (Some (Errorf ''unknown subcommand %q'' [cmd] []))))"

section \<open>Specifications\<close>

text \<open>The first value that is not blank, trimmed.\<close>

fun firstSet :: "string list \<Rightarrow> string" where
  "firstSet [] = []"
| "firstSet (v # vs) = (if TrimSpace v \<noteq> [] then TrimSpace v else firstSet vs)"

text \<open>The connection string that the flags name, when there is one.\<close>

definition connectionOf :: "unicode \<Rightarrow> peerFlags \<Rightarrow> ConnectionString option" where
  "connectionOf U f =
     (if TrimSpace (fl_connectionString f) = [] then None
      else (case ParseConnectionString U (fl_connectionString f) of Inl _ \<Rightarrow> None | Inr cs \<Rightarrow> Some cs))"

text \<open>The contents of the file a path names; a blank path names none.\<close>

definition contents :: "(string \<Rightarrow> bytes res) \<Rightarrow> string \<Rightarrow> string" where
  "contents fs path = (if TrimSpace path = [] then [] else (case fs (TrimSpace path) of Inr d \<Rightarrow> string_of d | Inl _ \<Rightarrow> []))"

text \<open>The pairing secret of the command line: its flag, or the connection string when no secret flag is given.\<close>

definition secretGiven :: "unicode \<Rightarrow> peerFlags \<Rightarrow> string" where
  "secretGiven U f =
     (case connectionOf U f of
        Some cs \<Rightarrow> if fl_pairingSecret f = [] \<and> fl_pairingSecretFile f = [] \<and> fl_legacySecret f = [] \<and> fl_legacySecretFile f = []
                   then cs_PairingSecret cs else fl_pairingSecret f
      | None \<Rightarrow> fl_pairingSecret f)"

section \<open>Flags and credentials\<close>

lemma RandomToken_16:
  assumes "RandomToken rnd = Inr v" "\<And>b. rnd = Inr b \<Longrightarrow> length b = 16"
  shows "v \<noteq> []" "TrimSpace v = v"
proof -
  obtain b where b: "rnd = Inr b" "v = EncodeToString b" using assms(1) by (auto simp: RandomToken_def split: sum.splits)
  with assms(2) have "length v = 22" by (simp add: length_EncodeToString)
  then show "v \<noteq> []" by auto
  show "TrimSpace v = v" by (simp add: b(2))
qed

lemma parsePeerFlags_Inr:
  assumes "parsePeerFlags U env fs rnd1 rnd2 bb mode args = Inr (o', False)"
  obtains f rest f1 token secret where "parseFlagSet (defaultBrokerOf bb) mode args = (f, Inr rest)" "\<not> fl_versionOnly f"
    "applyConnection U (defaultBrokerOf bb) f = Inr f1"
    "resolveToken env rnd1 mode (po_RendezvousToken (fl_options f1)) = Inr token"
    "resolveSecret env fs rnd2 mode f1 = Inr secret"
    "o' = (fl_options f1)\<lparr>po_RendezvousToken := token, po_PairingSecret := secret\<rparr>"
    "\<not> (mode = ModeExpose \<and> \<not> po_SOCKS5 (fl_options f) \<and> TrimSpace (po_Target (fl_options f)) = [])"
  using assms by (auto simp: parsePeerFlags_def Let_def split: prod.splits sum.splits if_splits)

lemma setFlag_mode [simp]:
  "po_Mode (fl_options (setStringFlag n v f)) = po_Mode (fl_options f)"
  "po_Mode (fl_options (setBoolFlag n b f)) = po_Mode (fl_options f)"
  by (simp_all add: setStringFlag_def setBoolFlag_def Let_def)

lemma flag_Parse_mode:
  "po_Mode (fl_options (fst (flag_Parse k setStringFlag setBoolFlag f args))) = po_Mode (fl_options f)"
  by (induction k "setStringFlag" "setBoolFlag" f args rule: flag_Parse.induct)
     (auto split: prod.splits option.splits flagKind.splits list.splits)

lemma parseFlagSet_mode: "po_Mode (fl_options (fst (parseFlagSet db mode args))) = mode"
  by (auto simp: parseFlagSet_def Let_def flag_Parse_mode flagDefaults_def)

lemma applyConnection_Inr:
  assumes "applyConnection U db f = Inr f1"
  shows "po_Mode (fl_options f1) = po_Mode (fl_options f)
    \<and> po_RendezvousToken (fl_options f1) = (case connectionOf U f of
         Some cs \<Rightarrow> if TrimSpace (po_RendezvousToken (fl_options f)) = [] then cs_RendezvousToken cs else po_RendezvousToken (fl_options f)
       | None \<Rightarrow> po_RendezvousToken (fl_options f))
    \<and> po_BrokerURL (fl_options f1) = (case connectionOf U f of
         Some cs \<Rightarrow> if po_BrokerURL (fl_options f) = db then cs_BrokerURL cs else po_BrokerURL (fl_options f)
       | None \<Rightarrow> po_BrokerURL (fl_options f))
    \<and> fl_pairingSecret f1 = (case connectionOf U f of
         Some cs \<Rightarrow> if fl_pairingSecret f = [] \<and> fl_pairingSecretFile f = [] \<and> fl_legacySecret f = [] \<and> fl_legacySecretFile f = []
                    then cs_PairingSecret cs else fl_pairingSecret f
       | None \<Rightarrow> fl_pairingSecret f)
    \<and> fl_pairingSecretFile f1 = fl_pairingSecretFile f \<and> fl_legacySecret f1 = fl_legacySecret f
    \<and> fl_legacySecretFile f1 = fl_legacySecretFile f"
  using assms by (auto simp: applyConnection_def connectionOf_def Let_def split: if_splits sum.splits)

lemma resolveToken_Inr:
  assumes "resolveToken env rnd mode v = Inr token" "\<And>b. rnd = Inr b \<Longrightarrow> length b = 16"
  shows "token \<noteq> [] \<and> TrimSpace token = token
       \<and> token = firstSet [v, env EnvRendezvousToken, case RandomToken rnd of Inr g \<Rightarrow> g | Inl _ \<Rightarrow> []]
       \<and> (mode \<noteq> ModeExpose \<longrightarrow> (\<forall>r. resolveToken env r mode v = Inr token))"
proof (cases "ResolveRendezvousTokenOptional env v = []")
  case False
  with assms(1) show ?thesis
    by (auto simp: resolveToken_def Let_def ResolveRendezvousTokenOptional_def)
next
  case True
  then have e: "TrimSpace v = []" "TrimSpace (env EnvRendezvousToken) = []"
    by (auto simp: ResolveRendezvousTokenOptional_def Let_def split: if_splits)
  from True assms(1) have m: "mode = ModeExpose" "RandomToken rnd = Inr token"
    by (auto simp: resolveToken_def Let_def split: if_splits sum.splits)
  with RandomToken_16 [OF m(2) assms(2)] e show ?thesis by simp
qed

text \<open>Facts about the resolution of the pairing secret.\<close>

lemma ResolvePairingSecretOptional_trimmed:
  "ResolvePairingSecretOptional env fs ps pf ls lf = Inr s \<Longrightarrow> TrimSpace s = s"
  by (auto simp: ResolvePairingSecretOptional_def Let_def dest: resolveSources_Inr split: if_splits)

lemma contents_blank [simp]: "contents fs [] = []"
  by (simp add: contents_def)

lemma resolveSources_first:
  "resolveSources fs ss = Inr s \<Longrightarrow> s = firstSet (concat (map (\<lambda>x. [contents fs (src_path x), src_value x]) ss))"
proof (induction ss)
  case (Cons x ss)
  show ?case
  proof (cases "TrimSpace (src_path x) = []")
    case False
    then obtain d where "fs (TrimSpace (src_path x)) = Inr d" "s = TrimSpace (string_of d)" "s \<noteq> []"
      using Cons.prems by (auto simp: readSecretFile_def Let_def split: sum.splits if_splits)
    with False show ?thesis by (simp add: contents_def)
  next
    case True
    with Cons show ?thesis by (auto simp: contents_def split: if_splits)
  qed
qed simp

lemma ResolvePairingSecretOptional_first:
  assumes "ResolvePairingSecretOptional env fs ps pf ls lf = Inr s"
  shows "s = firstSet [contents fs pf, ps, contents fs lf, ls, contents fs (env EnvPairingSecretFile), env EnvPairingSecret]"
    and "countNonEmpty [ps, pf, ls, lf] \<le> 1"
    and "countNonEmpty [ps, pf, ls, lf] = 0 \<Longrightarrow> countNonEmpty [env EnvPairingSecret, env EnvPairingSecretFile] \<le> 1"
proof -
  have c: "countNonEmpty [TrimSpace a, TrimSpace b] = countNonEmpty [a, b]" for a b by (simp add: countNonEmpty_def)
  show "countNonEmpty [ps, pf, ls, lf] \<le> 1"
    "countNonEmpty [ps, pf, ls, lf] = 0 \<Longrightarrow> countNonEmpty [env EnvPairingSecret, env EnvPairingSecretFile] \<le> 1"
    using assms unfolding ResolvePairingSecretOptional_def Let_def c by (auto split: if_splits)
  have "resolveSources fs (secretSources ps pf ls lf (TrimSpace (env EnvPairingSecret)) (TrimSpace (env EnvPairingSecretFile))) = Inr s"
    using assms by (auto simp: ResolvePairingSecretOptional_def Let_def split: if_splits)
  from resolveSources_first [OF this]
  show "s = firstSet [contents fs pf, ps, contents fs lf, ls, contents fs (env EnvPairingSecretFile), env EnvPairingSecret]"
    by (simp add: secretSources_def contents_def)
qed

lemma ResolvePairingSecretOptional_single:
  "TrimSpace ps \<noteq> [] \<Longrightarrow> ResolvePairingSecretOptional env fs ps [] [] [] = Inr (TrimSpace ps)"
  by (simp add: ResolvePairingSecretOptional_def Let_def secretSources_def countNonEmpty_def)

lemma ResolvePairingSecretOptional_blank:
  "TrimSpace (env EnvPairingSecret) = [] \<Longrightarrow> TrimSpace (env EnvPairingSecretFile) = [] \<Longrightarrow>
     ResolvePairingSecretOptional env fs [] [] [] [] = Inr []"
  by (simp add: ResolvePairingSecretOptional_def Let_def secretSources_def countNonEmpty_def)

lemma firstSet_append: "firstSet (vs @ ws) = (if firstSet vs = [] then firstSet ws else firstSet vs)"
  by (induction vs) auto

lemma resolveSecret_Inr:
  assumes "resolveSecret env fs rnd mode f = Inr secret" "\<And>b. rnd = Inr b \<Longrightarrow> length b = 16"
  shows "secret \<noteq> [] \<and> TrimSpace secret = secret
       \<and> secret = firstSet [contents fs (fl_pairingSecretFile f), fl_pairingSecret f, contents fs (fl_legacySecretFile f), fl_legacySecret f,
           contents fs (env EnvPairingSecretFile), env EnvPairingSecret, case RandomToken rnd of Inr g \<Rightarrow> g | Inl _ \<Rightarrow> []]
       \<and> countNonEmpty [fl_pairingSecret f, fl_pairingSecretFile f, fl_legacySecret f, fl_legacySecretFile f] \<le> 1
       \<and> (mode \<noteq> ModeExpose \<longrightarrow> (\<forall>r. resolveSecret env fs r mode f = Inr secret))"
proof -
  obtain v where v: "ResolvePairingSecretOptional env fs (fl_pairingSecret f) (fl_pairingSecretFile f) (fl_legacySecret f)
      (fl_legacySecretFile f) = Inr v"
    using assms(1) by (auto simp: resolveSecret_def split: sum.splits)
  let ?vs = "[contents fs (fl_pairingSecretFile f), fl_pairingSecret f, contents fs (fl_legacySecretFile f), fl_legacySecret f,
      contents fs (env EnvPairingSecretFile), env EnvPairingSecret]" and ?g = "case RandomToken rnd of Inr g \<Rightarrow> g | Inl _ \<Rightarrow> []"
  note n = ResolvePairingSecretOptional_first(1,2) [OF v]
  show ?thesis
  proof (cases "v = []")
    case False
    with v assms(1) have e: "secret = v" by (auto simp: resolveSecret_def)
    with False n(1) firstSet_append [of ?vs "[?g]"] have "secret = firstSet (?vs @ [?g])" by simp
    with e False v n(2) ResolvePairingSecretOptional_trimmed [OF v] show ?thesis by (simp add: resolveSecret_def)
  next
    case True
    with v assms(1) have m: "mode = ModeExpose" "RandomToken rnd = Inr secret"
      by (auto simp: resolveSecret_def split: if_splits sum.splits)
    have "firstSet (?vs @ [?g]) = secret" using firstSet_append [of ?vs "[?g]"] n(1) True m(2) RandomToken_16 [OF m(2) assms(2)] by simp
    with m n(2) RandomToken_16 [OF m(2) assms(2)] show ?thesis by simp
  qed
qed

text \<open>
  (C40) Credentials from the command line: when flag parsing hands options to the program, token
  and secret are set and trimmed.  The token is the first that is set of the flag, the connection
  string, the environment and a generated one.  The secret is the first that is set of the file
  flag, the secret flag, the old file flag and the old secret flag, where the connection string
  stands in for the secret flag when no secret flag is given at all, then of the file and of the
  secret that the environment names, and last a generated one; more than one source on the command
  line is never accepted, nor are both in the environment when there is none.  A connecting peer never uses a generated
  value.  The broker of the connection string counts if and only if the broker flag has the default
  value, given or not: an explicit \<open>--broker\<close> with that value is overridden, against the comment in
  the code.
\<close>

theorem parsePeerFlags_credentials:
  assumes "parsePeerFlags U env fs rnd1 rnd2 bb mode args = Inr (o', False)"
    and "\<forall>b. rnd1 = Inr b \<longrightarrow> length b = 16" "\<forall>b. rnd2 = Inr b \<longrightarrow> length b = 16"
  shows "\<exists>f rest. parseFlagSet (defaultBrokerOf bb) mode args = (f, Inr rest) \<and> po_Mode o' = mode
     \<and> po_RendezvousToken o' \<noteq> [] \<and> TrimSpace (po_RendezvousToken o') = po_RendezvousToken o'
     \<and> po_PairingSecret o' \<noteq> [] \<and> TrimSpace (po_PairingSecret o') = po_PairingSecret o'
     \<and> po_RendezvousToken o' = firstSet [po_RendezvousToken (fl_options f),
           case connectionOf U f of Some cs \<Rightarrow> cs_RendezvousToken cs | None \<Rightarrow> [], env EnvRendezvousToken,
           case RandomToken rnd1 of Inr g \<Rightarrow> g | Inl _ \<Rightarrow> []]
     \<and> po_PairingSecret o' = firstSet [contents fs (fl_pairingSecretFile f), secretGiven U f,
           contents fs (fl_legacySecretFile f), fl_legacySecret f,
           contents fs (env EnvPairingSecretFile), env EnvPairingSecret,
           case RandomToken rnd2 of Inr g \<Rightarrow> g | Inl _ \<Rightarrow> []]
     \<and> countNonEmpty [secretGiven U f, fl_pairingSecretFile f, fl_legacySecret f, fl_legacySecretFile f] \<le> 1
     \<and> (countNonEmpty [secretGiven U f, fl_pairingSecretFile f, fl_legacySecret f, fl_legacySecretFile f] = 0
          \<longrightarrow> countNonEmpty [env EnvPairingSecret, env EnvPairingSecretFile] \<le> 1)
     \<and> (mode = ModeConnect \<longrightarrow> (\<forall>r1 r2. parsePeerFlags U env fs r1 r2 bb mode args = Inr (o', False)))
     \<and> po_BrokerURL o' = (case connectionOf U f of
           Some cs \<Rightarrow> if po_BrokerURL (fl_options f) = defaultBrokerOf bb then cs_BrokerURL cs else po_BrokerURL (fl_options f)
         | None \<Rightarrow> po_BrokerURL (fl_options f))"
proof -
  from assms(1) obtain f rest f1 token secret where p: "parseFlagSet (defaultBrokerOf bb) mode args = (f, Inr rest)" "\<not> fl_versionOnly f"
      "applyConnection U (defaultBrokerOf bb) f = Inr f1"
      "resolveToken env rnd1 mode (po_RendezvousToken (fl_options f1)) = Inr token"
      "resolveSecret env fs rnd2 mode f1 = Inr secret"
      "o' = (fl_options f1)\<lparr>po_RendezvousToken := token, po_PairingSecret := secret\<rparr>"
      "\<not> (mode = ModeExpose \<and> \<not> po_SOCKS5 (fl_options f) \<and> TrimSpace (po_Target (fl_options f)) = [])"
    by (rule parsePeerFlags_Inr)
  note c = applyConnection_Inr [OF p(3)]
  note t = resolveToken_Inr [OF p(4)] and s = resolveSecret_Inr [OF p(5)]
  have t': "token \<noteq> []" "TrimSpace token = token"
    "token = firstSet [po_RendezvousToken (fl_options f1), env EnvRendezvousToken, case RandomToken rnd1 of Inr g \<Rightarrow> g | Inl _ \<Rightarrow> []]"
    "mode \<noteq> ModeExpose \<Longrightarrow> resolveToken env r1 mode (po_RendezvousToken (fl_options f1)) = Inr token" for r1
    using t assms(2) by auto
  have sg: "fl_pairingSecret f1 = secretGiven U f" "fl_pairingSecretFile f1 = fl_pairingSecretFile f"
      "fl_legacySecret f1 = fl_legacySecret f" "fl_legacySecretFile f1 = fl_legacySecretFile f"
    using c by (simp_all add: secretGiven_def)
  have s': "secret \<noteq> []" "TrimSpace secret = secret" "mode \<noteq> ModeExpose \<Longrightarrow> resolveSecret env fs r2 mode f1 = Inr secret"
    "secret = firstSet [contents fs (fl_pairingSecretFile f), secretGiven U f, contents fs (fl_legacySecretFile f), fl_legacySecret f,
       contents fs (env EnvPairingSecretFile), env EnvPairingSecret, case RandomToken rnd2 of Inr g \<Rightarrow> g | Inl _ \<Rightarrow> []]"
    "countNonEmpty [secretGiven U f, fl_pairingSecretFile f, fl_legacySecret f, fl_legacySecretFile f] \<le> 1" for r2
    using s assms(3) unfolding sg by blast+
  have e: "countNonEmpty [env EnvPairingSecret, env EnvPairingSecretFile] \<le> 1"
    if "countNonEmpty [secretGiven U f, fl_pairingSecretFile f, fl_legacySecret f, fl_legacySecretFile f] = 0"
    using p(5) ResolvePairingSecretOptional_first(3) [of env fs "secretGiven U f" "fl_pairingSecretFile f" "fl_legacySecret f" "fl_legacySecretFile f"] that
    unfolding resolveSecret_def sg by (auto split: sum.splits)
  have m: "po_Mode o' = mode" using c p(1,6) parseFlagSet_mode [of "defaultBrokerOf bb" mode args] by simp
  have tok: "token = firstSet [po_RendezvousToken (fl_options f),
           case connectionOf U f of Some cs \<Rightarrow> cs_RendezvousToken cs | None \<Rightarrow> [], env EnvRendezvousToken,
           case RandomToken rnd1 of Inr g \<Rightarrow> g | Inl _ \<Rightarrow> []]"
    using t'(3) c by (cases "connectionOf U f") simp_all
  have con: "parsePeerFlags U env fs r1 r2 bb mode args = Inr (o', False)" if "mode = ModeConnect" for r1 r2
    using that p t'(4) s'(3) by (simp add: parsePeerFlags_def)
  have o: "po_RendezvousToken o' = token" "po_PairingSecret o' = secret" "po_BrokerURL o' = po_BrokerURL (fl_options f1)"
    by (simp_all add: p(6))
  show ?thesis
    unfolding o using p(1) m t'(1,2) s'(1,2,4,5) e tok con c by (intro exI [of _ f] exI [of _ rest] conjI) blast+
qed

section \<open>The hand-off to the connecting machine\<close>

lemma expose_flags:
  assumes "given = [''--broker'', b] \<or> given = [] \<and> db = b"
  shows "parseFlagSet db ''expose'' ([''--target'', target] @ given) =
     ((flagDefaults db ModeExpose)\<lparr>fl_options := (fl_options (flagDefaults db ModeExpose))
        \<lparr>po_Target := target, po_BrokerURL := b\<rparr>\<rparr>, Inr [])"
  using assms by (auto simp: parseFlagSet_def flagName_def CutByte_def flagKindOf_def setStringFlag_def flagDefaults_def Let_def)

lemma connect_flags:
  "\<not> startsWith ''-'' s \<Longrightarrow> parseFlagSet db ''connect'' [s] = ((flagDefaults db ModeConnect)\<lparr>fl_connectionString := s\<rparr>, Inr [])"
  by (simp add: parseFlagSet_def)

text \<open>The token of an exposing peer that is not given one is a fresh one.\<close>

lemma fresh_token_valid:
  assumes "length r = 16"
  shows "ValidateToken (EncodeToString r) = Inr (EncodeToString r)"
  unfolding ValidateToken_Inr using assms EncodeToString_visible [of r] by (simp add: length_EncodeToString)

text \<open>The address that is dialed for a broker at the root or at \<open>/ws\<close> of a host.\<close>

lemma escape_host: "urlHost h name port \<Longrightarrow> escape h encodeHost = h"
proof -
  assume "urlHost h name port"
  from urlHost_chars [OF this] have "\<forall>c \<in> set h. escapeChar encodeHost c = [c]" by (auto simp: escapeChar_def)
  then show ?thesis by (induction h) (auto simp: escape_def)
qed

lemma escape_ws: "escape ''/ws'' encodePath = ''/ws''"
  by code_simp

lemma normalizeBrokerURL_host:
  assumes "urlHost h name port" "sch \<in> {''http'', ''https'', ''ws'', ''wss''}" "p \<in> {[], ''/'', ''/ws''}"
  shows "normalizeBrokerURL U (sch @ ''://'' @ h @ p) =
     (if sch \<in> {''https'', ''wss''} then Inr (''wss://'' @ h @ ''/ws'')
      else if isLocalBrokerHost U name then Inr (''ws://'' @ h @ ''/ws'')
      else Inl (errors_New ''insecure broker transport is only allowed for localhost''))"
proof -
  have c: "Contains (sch @ ''://'' @ h @ p) ''://''" "sch @ ''://'' @ h @ p \<noteq> []"
    using assms(2) by (auto simp: startsWith_def)
  have hn: "Hostname (emptyURL\<lparr>u_Scheme := x, u_Host := h, u_Path := y\<rparr>) = name" for x y
    by (rule Hostname_urlHost [OF assms(1)]) simp
  have us: "URLString (emptyURL\<lparr>u_Scheme := x, u_Host := h, u_Path := ''/ws''\<rparr>) = x @ ''://'' @ h @ ''/ws''" if "x \<noteq> []" for x
    using that urlHost_not_Nil [OF assms(1)]
    by (simp add: URLString_def emptyURL_def escape_host [OF assms(1)] EscapedPath_def escape_ws)
  let ?x = "if sch \<in> {''https'', ''wss''} then ''wss'' else ''ws''"
  let ?r = "if ?x = ''ws'' \<and> \<not> isLocalBrokerHost U name
      then Inl (errors_New ''insecure broker transport is only allowed for localhost'')
      else Inr (?x @ ''://'' @ h @ ''/ws'')"
  define raw where "raw = sch @ ''://'' @ h @ p"
  note r = c [folded raw_def] broker_visible [OF assms, folded raw_def] url_Parse_broker [OF assms, folded raw_def, of U]
  have "normalizeBrokerURL U raw = ?r"
    using assms(2,3) unfolding insert_iff empty_iff
    by (elim disjE; simp add: normalizeBrokerURL_def Let_def r emptyURL_def hn [simplified emptyURL_def, simplified] us [simplified emptyURL_def, simplified])
  then show ?thesis unfolding raw_def by auto
qed

lemma lowerChar_other:
  assumes "lowerChar c = d" "\<not> (97 \<le> ord d \<and> ord d \<le> 122)"
  shows "c = d"
proof -
  have "ord (lowerChar c) = (if 65 \<le> ord c \<and> ord c \<le> 90 then ord c + 32 else ord c)" by (simp add: lowerChar_def)
  with assms have "ord c = ord d" by (auto split: if_splits)
  then show ?thesis by (simp only: of_char_eq_iff)
qed

lemma map_lowerChar_other:
  "map lowerChar s = t \<Longrightarrow> list_all (\<lambda>d. \<not> (97 \<le> ord d \<and> ord d \<le> 122)) t \<Longrightarrow> s = t"
proof (induction s arbitrary: t)
  case (Cons c s)
  then obtain d t' where t: "t = d # t'" "lowerChar c = d" "map lowerChar s = t'" by auto
  with Cons.IH [of t'] lowerChar_other [of c d] Cons.prems(2) show ?case by simp
qed simp

text \<open>Every host that the connection string takes for the local machine may be dialed in the clear.\<close>

lemma loopback_is_local:
  assumes "urlHost h name port" "isLoopbackHost U name"
  shows "isLocalBrokerHost U name"
proof -
  have v: "33 \<le> ord c \<and> ord c \<le> 126" if "c \<in> set name" for c using urlHost_visible [OF assms(1), of c] that by simp
  then have t: "TrimSpace name = name" by (intro TrimSpace_visible_all) (simp add: list_all_iff)
  have asc: "isASCII name" using v by (fastforce simp: isASCII_def list_all_iff)
  have ne: "name \<noteq> []" using assms(1) by (cases rule: urlHost_cases) auto
  from assms(2) t asc have "map lowerChar name \<in> {''localhost'', ''127.0.0.1'', ''::1'', ''[::1]''}"
    by (simp add: isLoopbackHost_def ToLower_def)
  then consider "map lowerChar name = ''localhost''" | "name = ''127.0.0.1''" | "name = ''::1''" | "name = ''[::1]''"
    using map_lowerChar_other [of name] by auto
  then show ?thesis
  proof cases
    case 1
    moreover have "isASCII ''localhost''" "map lowerChar ''localhost'' = ''localhost''" by code_simp+
    ultimately show ?thesis using asc t ne by (simp add: isLocalBrokerHost_def EqualFold_def)
  next
    case 4
    then show ?thesis using urlHost_name [OF assms(1), of "CHR ''[''"] by simp
  qed (simp_all, code_simp+)
qed

text \<open>
  (C13) What an exposing peer prints is what the connecting peer needs.  \<open>expose\<close> with a target and
  either the default broker or one given by a flag, at the root or at \<open>/ws\<close> of a name, an IPv4
  address or an IPv6 address, under \<open>http\<close>, \<open>https\<close>, \<open>ws\<close> or \<open>wss\<close>, run without credentials, generates
  a valid token and a secret and prints a connection string.  \<open>connect\<close> with that string alone, on
  a machine without credentials in its environment and whatever its default broker is, runs with
  valid options and the same token and secret, and its broker is the same host and port under the
  scheme that the parser infers from the host.  Both peers therefore dial the same address if and
  only if the exposing peer's scheme is a secure one for a host other than \<open>localhost\<close>, \<open>127.0.0.1\<close>
  and \<open>::1\<close>, or an insecure one for those: the published broker and its default flow are the first
  case, \<open>http://127.0.0.2:8080\<close> and \<open>wss://localhost\<close> are neither.
\<close>

theorem handoff_end_to_end:
  assumes "urlHost h name port" and "sch \<in> {''http'', ''https'', ''ws'', ''wss''}" "p \<in> {[], ''/'', ''/ws''}"
    and "b = sch @ ''://'' @ h @ p" and "given = [''--broker'', b] \<or> given = [] \<and> defaultBrokerOf bb = b"
    and "TrimSpace target \<noteq> []" "length r1 = 16" "length r2 = 16"
    and "\<forall>k. TrimSpace (env k) = [] \<and> TrimSpace (env' k) = []"
  shows "\<exists>o1 s o2. app_run U env fs (Inr r1) (Inr r2) bb ([''expose'', ''--target'', target] @ given) = ([], Runs o1)
     \<and> printExposeHandoff U False o1 = Some (Inr s)
     \<and> app_run U env' fs' rnd rnd' bb' [''connect'', s] = ([], Runs o2)
     \<and> po_Mode o1 = ModeExpose \<and> po_Target o1 = target \<and> po_Mode o2 = ModeConnect
     \<and> po_RendezvousToken o2 = po_RendezvousToken o1 \<and> po_PairingSecret o2 = po_PairingSecret o1
     \<and> po_BrokerURL o1 = b \<and> po_BrokerURL o2 = (if isLoopbackHost U name then ''http'' else ''https'') @ ''://'' @ h
     \<and> normalizeBrokerURL U (po_BrokerURL o2) = Inr ((if isLoopbackHost U name then ''ws'' else ''wss'') @ ''://'' @ h @ ''/ws'')
     \<and> (normalizeBrokerURL U (po_BrokerURL o1) = normalizeBrokerURL U (po_BrokerURL o2) \<longleftrightarrow>
          (sch \<in> {''https'', ''wss''} \<longleftrightarrow> \<not> isLoopbackHost U name))
     \<and> ValidateToken (po_RendezvousToken o1) = Inr (po_RendezvousToken o1) \<and> PeerOptions_Validate o2 = None"
proof -
  let ?tok = "EncodeToString r1" and ?sec = "EncodeToString r2" and ?db = "defaultBrokerOf bb" and ?db' = "defaultBrokerOf bb'"
  let ?b2 = "(if isLoopbackHost U name then ''http'' else ''https'') @ ''://'' @ h"
  let ?o1 = "(fl_options (flagDefaults ?db ModeExpose))\<lparr>po_Target := target, po_BrokerURL := b, po_RendezvousToken := ?tok, po_PairingSecret := ?sec\<rparr>"
  let ?o2 = "(fl_options (flagDefaults ?db' ModeConnect))\<lparr>po_RendezvousToken := ?tok, po_BrokerURL := ?b2, po_PairingSecret := ?sec\<rparr>"
  let ?c = "\<lparr>cs_RendezvousToken = ?tok, cs_PairingSecret = ?sec, cs_BrokerURL = b\<rparr>"
  have g: "RandomToken (Inr r1) = Inr ?tok" "RandomToken (Inr r2) = Inr ?sec" by (simp_all add: RandomToken_def)
  from generated_credentials_roundtrip [OF assms(1-3,7,8) g, of U] obtain s where
    s: "Format U ?c = Inr s" "ParseConnectionString U s = Inr (?c\<lparr>cs_BrokerURL := ?b2\<rparr>)" "\<not> startsWith ''-'' s"
    and l: "length ?tok = 22" "length ?sec = 22" unfolding assms(4) by auto
  have ne: "?tok \<noteq> []" "?sec \<noteq> []" using l by auto
  have env: "ResolveRendezvousTokenOptional env [] = []" "ResolvePairingSecretOptional env fs [] [] [] [] = Inr []"
    using assms(9) ResolvePairingSecretOptional_blank [of env fs] by (simp_all add: ResolveRendezvousTokenOptional_def)
  have 1: "app_run U env fs (Inr r1) (Inr r2) bb ([''expose'', ''--target'', target] @ given) = ([], Runs ?o1)"
    using assms(6) env g expose_flags [OF assms(5), of target]
    by (simp add: app_run_def runSubcommand_def parsePeerFlags_def applyConnection_def resolveToken_def
        resolveSecret_def flagDefaults_def Let_def)
  have t: "TrimSpace s \<noteq> []" using s(2) by (auto simp: ParseConnectionString_def Let_def split: if_splits)
  have 2: "app_run U env' fs' rnd rnd' bb' [''connect'', s] = ([], Runs ?o2)"
    using t s(2,3) ne ResolvePairingSecretOptional_single [of ?sec env' fs']
    by (simp add: app_run_def runSubcommand_def parsePeerFlags_def connect_flags applyConnection_def resolveToken_def
        resolveSecret_def flagDefaults_def ResolveRendezvousTokenOptional_def Let_def)
  have h: "printExposeHandoff U False ?o1 = Some (Inr s)"
    using s(1) by (simp add: printExposeHandoff_def flagDefaults_def)
  have bn: "TrimSpace ?b2 \<noteq> []" using broker_visible [OF assms(1), of "if isLoopbackHost U name then ''http'' else ''https''" "[]"] by auto
  have "ValidateAddress defaultListen AddressRoleListen = Inr ''127.0.0.1:2222''" "TrimSpace defaultListen \<noteq> []" by code_simp+
  with bn have v: "PeerOptions_Validate ?o2 = None"
    using ne by (simp add: PeerOptions_Validate_def flagDefaults_def)
  have n2: "normalizeBrokerURL U ?b2 = Inr ((if isLoopbackHost U name then ''ws'' else ''wss'') @ ''://'' @ h @ ''/ws'')"
    using normalizeBrokerURL_host [OF assms(1), of "''http''" "[]" U] normalizeBrokerURL_host [OF assms(1), of "''https''" "[]" U]
      loopback_is_local [OF assms(1)] by simp
  have same: "normalizeBrokerURL U b = normalizeBrokerURL U ?b2 \<longleftrightarrow> (sch \<in> {''https'', ''wss''} \<longleftrightarrow> \<not> isLoopbackHost U name)"
    unfolding n2 assms(4) normalizeBrokerURL_host [OF assms(1-3), of U] using loopback_is_local [OF assms(1)] by simp
  have o: "po_Mode ?o1 = ModeExpose" "po_Mode ?o2 = ModeConnect" "po_BrokerURL ?o1 = b" "po_BrokerURL ?o2 = ?b2" by (simp_all add: flagDefaults_def)
  show ?thesis
  proof (intro exI conjI)
    show "normalizeBrokerURL U (po_BrokerURL ?o2) = Inr ((if isLoopbackHost U name then ''ws'' else ''wss'') @ ''://'' @ h @ ''/ws'')"
      unfolding o(4) by (rule n2)
    show "normalizeBrokerURL U (po_BrokerURL ?o1) = normalizeBrokerURL U (po_BrokerURL ?o2) \<longleftrightarrow>
          (sch \<in> {''https'', ''wss''} \<longleftrightarrow> \<not> isLoopbackHost U name)" unfolding o(3,4) by (rule same)
  qed (use 1 2 h v o fresh_token_valid [OF assms(7)] in simp_all)
qed

text \<open>The default flow, with the broker that is built in.\<close>

theorem handoff_end_to_end_witness:
  "\<exists>o1 s o2. app_run idUnicode (\<lambda>_. []) (\<lambda>_. Inr []) (Inr (replicate 16 7)) (Inr (replicate 16 9)) []
       [''expose'', ''--target'', ''127.0.0.1:22''] = ([], Runs o1)
     \<and> printExposeHandoff idUnicode False o1 = Some (Inr s)
     \<and> app_run idUnicode (\<lambda>_. []) (\<lambda>_. Inr []) (Inl flag_ErrHelp) (Inl flag_ErrHelp) [] [''connect'', s] = ([], Runs o2)
     \<and> po_PairingSecret o2 = po_PairingSecret o1 \<and> po_BrokerURL o1 = ''https://rtc.haltman.io/''
     \<and> normalizeBrokerURL idUnicode (po_BrokerURL o1) = Inr ''wss://rtc.haltman.io/ws''
     \<and> normalizeBrokerURL idUnicode (po_BrokerURL o2) = Inr ''wss://rtc.haltman.io/ws''"
proof -
  have h: "urlHost ''rtc.haltman.io'' ''rtc.haltman.io'' []" by (simp add: urlHost_def plainHost_def isAlnum_def isDigit_def)
  have l: "\<not> isLoopbackHost idUnicode ''rtc.haltman.io''" by code_simp
  have b: "''https://rtc.haltman.io/'' = ''https'' @ ''://'' @ ''rtc.haltman.io'' @ ''/''" by simp
  have g: "[] = [''--broker'', ''https://rtc.haltman.io/''] \<or> [] = [] \<and> defaultBrokerOf [] = ''https://rtc.haltman.io/''"
    by (simp add: defaultBrokerOf_def)
  have t: "TrimSpace ''127.0.0.1:22'' \<noteq> []" by code_simp
  from handoff_end_to_end [OF h _ _ b g t, of "replicate 16 7" "replicate 16 9" "\<lambda>_. []" "\<lambda>_. []" idUnicode "\<lambda>_. Inr []" "\<lambda>_. Inr []"
      "Inl flag_ErrHelp" "Inl flag_ErrHelp" "[]"] l
  show ?thesis by simp metis
qed

theorem parsePeerFlags_credentials_witness:
  "\<exists>o'. parsePeerFlags idUnicode (\<lambda>_. ''env'') (\<lambda>_. Inr []) (Inr (replicate 16 7)) (Inr (replicate 16 7)) [] ModeConnect
       [''-t'', '' tok '', ''--secret=x''] = Inr (o', False)
     \<and> po_RendezvousToken o' = ''tok'' \<and> po_PairingSecret o' = ''x'' \<and> po_BrokerURL o' = ''https://rtc.haltman.io/''
     \<and> (\<forall>r1 r2. parsePeerFlags idUnicode (\<lambda>_. ''env'') (\<lambda>_. Inr []) r1 r2 [] ModeConnect [''-t'', '' tok '', ''--secret=x''] = Inr (o', False))"
proof -
  let ?p = "parsePeerFlags idUnicode (\<lambda>_. ''env'') (\<lambda>_. Inr []) (Inr (replicate 16 7)) (Inr (replicate 16 7)) [] ModeConnect
       [''-t'', '' tok '', ''--secret=x'']"
  have "(case ?p of Inr (o', v) \<Rightarrow> \<not> v \<and> po_RendezvousToken o' = ''tok'' \<and> po_PairingSecret o' = ''x''
        \<and> po_BrokerURL o' = ''https://rtc.haltman.io/'' | Inl _ \<Rightarrow> False)" by code_simp
  then obtain o' where o: "?p = Inr (o', False)" "po_RendezvousToken o' = ''tok''" "po_PairingSecret o' = ''x''"
      "po_BrokerURL o' = ''https://rtc.haltman.io/''" by (auto split: sum.splits)
  from parsePeerFlags_credentials [OF o(1)]
  have "\<forall>r1 r2. parsePeerFlags idUnicode (\<lambda>_. ''env'') (\<lambda>_. Inr []) r1 r2 [] ModeConnect [''-t'', '' tok '', ''--secret=x''] = Inr (o', False)"
    unfolding sum.inject by (metis length_replicate)
  with o show ?thesis by blast
qed

end
