(* ===== verification/GoQuote.thy ===== *)
theory GoQuote
  imports GoUrl
begin

text \<open>
  Runes and quoting of the Go library: \<open>utf8.DecodeRuneInString\<close>, \<open>utf8.AppendRune\<close> and \<open>strconv.Quote\<close>.
  Which runes from \<open>U+0100\<close> on are printable is a table of the library and an argument here.
\<close>

section \<open>Definitions\<close>

definition RuneError :: nat where
  "RuneError = 0xFFFD"

definition contByte :: "char \<Rightarrow> bool" where
  "contByte c \<longleftrightarrow> 0x80 \<le> ord c \<and> ord c \<le> 0xBF"

text \<open>The range of a second byte, which rules out overlong forms, surrogates and values past \<open>U+10FFFF\<close>.\<close>

definition secondByteOk :: "nat \<Rightarrow> char \<Rightarrow> bool" where
  "secondByteOk b0 c \<longleftrightarrow>
     (if b0 = 0xE0 then 0xA0 else if b0 = 0xF0 then 0x90 else 0x80) \<le> ord c
   \<and> ord c \<le> (if b0 = 0xED then 0x9F else if b0 = 0xF4 then 0x8F else 0xBF)"

definition DecodeRuneInString :: "string \<Rightarrow> nat \<times> nat" where
  "DecodeRuneInString s =
     (case s of
        [] \<Rightarrow> (RuneError, 0)
      | c0 # cs \<Rightarrow>
          (let b0 = ord c0 in
           if b0 < 0x80 then (b0, 1)
           else if b0 < 0xC2 \<or> 0xF4 < b0 then (RuneError, 1)
           else if b0 < 0xE0 then
             (case cs of
                c1 # _ \<Rightarrow> if contByte c1 then (b0 mod 32 * 64 + ord c1 mod 64, 2) else (RuneError, 1)
              | _ \<Rightarrow> (RuneError, 1))
           else if b0 < 0xF0 then
             (case cs of
                c1 # c2 # _ \<Rightarrow>
                  if secondByteOk b0 c1 \<and> contByte c2
                  then (b0 mod 16 * 4096 + ord c1 mod 64 * 64 + ord c2 mod 64, 3) else (RuneError, 1)
              | _ \<Rightarrow> (RuneError, 1))
           else
             (case cs of
                c1 # c2 # c3 # _ \<Rightarrow>
                  if secondByteOk b0 c1 \<and> contByte c2 \<and> contByte c3
                  then (b0 mod 8 * 262144 + ord c1 mod 64 * 4096 + ord c2 mod 64 * 64 + ord c3 mod 64, 4) else (RuneError, 1)
              | _ \<Rightarrow> (RuneError, 1))))"

definition AppendRune :: "nat \<Rightarrow> string" where
  "AppendRune r =
     (if r < 0x80 then [char_of r]
      else if r < 0x800 then [char_of (0xC0 + r div 64), char_of (0x80 + r mod 64)]
      else if 0xD800 \<le> r \<and> r \<le> 0xDFFF \<or> 0x10FFFF < r then [CHR 0xEF, CHR 0xBF, CHR 0xBD]
      else if r < 0x10000 then
        [char_of (0xE0 + r div 4096), char_of (0x80 + r div 64 mod 64), char_of (0x80 + r mod 64)]
      else
        [char_of (0xF0 + r div 262144), char_of (0x80 + r div 4096 mod 64), char_of (0x80 + r div 64 mod 64),
         char_of (0x80 + r mod 64)])"

definition IsPrint :: "(nat \<Rightarrow> bool) \<Rightarrow> nat \<Rightarrow> bool" where
  "IsPrint table r = (if r \<le> 0xFF then 0x20 \<le> r \<and> r < 0x7F \<or> 0xA1 \<le> r \<and> r \<noteq> 0xAD else table r)"

definition lowerHexDigit :: "nat \<Rightarrow> char" where
  "lowerHexDigit n = (if n < 10 then char_of (48 + n) else char_of (87 + n))"

fun hexDigits :: "nat \<Rightarrow> nat \<Rightarrow> string" where
  "hexDigits 0 r = []"
| "hexDigits (Suc k) r = lowerHexDigit (r div 16 ^ k mod 16) # hexDigits k r"

definition appendEscapedRune :: "(nat \<Rightarrow> bool) \<Rightarrow> nat \<Rightarrow> string" where
  "appendEscapedRune table r =
     (if r = ord CHR 0x22 \<or> r = ord CHR 0x5C then [CHR 0x5C, char_of r]
      else if IsPrint table r then AppendRune r
      else if r = 0x07 then [CHR 0x5C, CHR ''a'']
      else if r = 0x08 then [CHR 0x5C, CHR ''b'']
      else if r = 0x0C then [CHR 0x5C, CHR ''f'']
      else if r = 0x0A then [CHR 0x5C, CHR ''n'']
      else if r = 0x0D then [CHR 0x5C, CHR ''r'']
      else if r = 0x09 then [CHR 0x5C, CHR ''t'']
      else if r = 0x0B then [CHR 0x5C, CHR ''v'']
      else if r < 0x20 \<or> r = 0x7F then [CHR 0x5C, CHR ''x''] @ hexDigits 2 r
      else if 0xD800 \<le> r \<and> r \<le> 0xDFFF \<or> 0x10FFFF < r then [CHR 0x5C, CHR ''u''] @ hexDigits 4 RuneError
      else if r < 0x10000 then [CHR 0x5C, CHR ''u''] @ hexDigits 4 r
      else [CHR 0x5C, CHR ''U''] @ hexDigits 8 r)"

lemma DecodeRune_width: "0 < snd (DecodeRuneInString (c # cs))"
  by (auto simp: DecodeRuneInString_def Let_def split: list.splits)

function quoteBody :: "(nat \<Rightarrow> bool) \<Rightarrow> string \<Rightarrow> string" where
  "quoteBody table [] = []"
| "quoteBody table (c # cs) =
     (let r = fst (DecodeRuneInString (c # cs)); width = snd (DecodeRuneInString (c # cs)) in
      if width = 1 \<and> r = RuneError then [CHR 0x5C, CHR ''x''] @ hexDigits 2 (ord c) @ quoteBody table cs
      else appendEscapedRune table r @ quoteBody table (drop width (c # cs)))"
  by pat_completeness auto
termination
proof (relation "measure (\<lambda>(t, s). length s)")
  show "((table, drop x (c # cs)), table, c # cs) \<in> measure (\<lambda>(t, s). length s)"
    if "x = snd (DecodeRuneInString (c # cs))" for table x c cs
    using DecodeRune_width [of c cs] that by (cases x) simp_all
qed auto

definition Quote :: "(nat \<Rightarrow> bool) \<Rightarrow> string \<Rightarrow> string" where
  "Quote table s = CHR 0x22 # quoteBody table s @ [CHR 0x22]"

section \<open>Specifications\<close>

text \<open>A reader of quoted strings: from after the opening quote, the string and what follows the closing quote.\<close>

fun readHex :: "nat \<Rightarrow> nat \<Rightarrow> string \<Rightarrow> (nat \<times> string) option" where
  "readHex 0 acc s = Some (acc, s)"
| "readHex (Suc k) acc [] = None"
| "readHex (Suc k) acc (c # cs) = (case hexVal c of None \<Rightarrow> None | Some d \<Rightarrow> readHex k (16 * acc + d) cs)"

definition simpleEscape :: "char \<Rightarrow> char option" where
  "simpleEscape = map_of [(CHR ''a'', CHR 0x07), (CHR ''b'', CHR 0x08), (CHR ''f'', CHR 0x0C), (CHR ''n'', CHR 0x0A),
     (CHR ''r'', CHR 0x0D), (CHR ''t'', CHR 0x09), (CHR ''v'', CHR 0x0B), (CHR 0x22, CHR 0x22), (CHR 0x5C, CHR 0x5C)]"

text \<open>One element: a literal byte or an escape, with what follows.\<close>

definition readElement :: "string \<Rightarrow> (string \<times> string) option" where
  "readElement s =
     (case s of
        [] \<Rightarrow> None
      | c # cs \<Rightarrow>
          if c \<noteq> CHR 0x5C then Some ([c], cs)
          else (case cs of
             [] \<Rightarrow> None
           | e # rest \<Rightarrow>
               (case simpleEscape e of
                  Some x \<Rightarrow> Some ([x], rest)
                | None \<Rightarrow>
                    if e = CHR ''x'' then map_option (\<lambda>(v, t). ([char_of v], t)) (readHex 2 0 rest)
                    else if e = CHR ''u'' then map_option (\<lambda>(v, t). (AppendRune v, t)) (readHex 4 0 rest)
                    else if e = CHR ''U'' then map_option (\<lambda>(v, t). (AppendRune v, t)) (readHex 8 0 rest)
                    else None)))"

inductive unquotes :: "string \<Rightarrow> string \<Rightarrow> string \<Rightarrow> bool" where
  close: "unquotes (CHR 0x22 # rest) [] rest"
| elem: "s \<noteq> [] \<Longrightarrow> hd s \<noteq> CHR 0x22 \<Longrightarrow> readElement s = Some (x, t) \<Longrightarrow> unquotes t v rest \<Longrightarrow> unquotes s (x @ v) rest"

inductive_cases unquotes_ConsE: "unquotes (c # cs) v rest"

text \<open>
  A byte that is not an ASCII control character, \<open>U+0000\<close> to \<open>U+001F\<close> or \<open>U+007F\<close>.  The bytes of the
  control characters \<open>U+0080\<close> to \<open>U+009F\<close>, two each in UTF-8, are not excluded.
\<close>

definition noAsciiControl :: "char \<Rightarrow> bool" where
  "noAsciiControl c \<longleftrightarrow> 0x20 \<le> ord c \<and> ord c \<noteq> 0x7F"

section \<open>Runes\<close>

lemma base64_digit: "(b::nat) < 64 \<Longrightarrow> (a * 64 + b) div 64 = a \<and> (a * 64 + b) mod 64 = b"
  by simp

text \<open>A rune is encoded by the bytes it is decoded from.\<close>

lemma AppendRune_2: "x < 32 \<Longrightarrow> 2 \<le> x \<Longrightarrow> y < 64 \<Longrightarrow> AppendRune (x * 64 + y) = [char_of (192 + x), char_of (128 + y)]"
  by (simp add: AppendRune_def)

lemma AppendRune_3:
  assumes "x < 16" "y < 64" "z < 64" "x = 0 \<longrightarrow> 32 \<le> y" "x = 13 \<longrightarrow> y < 32"
  shows "AppendRune (x * 4096 + y * 64 + z) = [char_of (224 + x), char_of (128 + y), char_of (128 + z)]"
proof -
  define r where "r = x * 4096 + y * 64 + z"
  have e: "r = (x * 64 + y) * 64 + z" by (simp add: r_def)
  have d1: "r div 64 = x * 64 + y" "r mod 64 = z" unfolding e using base64_digit [OF assms(3)] by blast+
  have d2: "r div 64 mod 64 = y" "r div 64 div 64 = x" unfolding d1 using base64_digit [OF assms(2)] by blast+
  then have d3: "r div 4096 = x" by (simp add: div_mult2_eq [symmetric])
  have "2048 \<le> r" "r < 65536" using assms by (cases "x = 0"; simp add: r_def)+
  moreover have "\<not> (0xD800 \<le> r \<and> r \<le> 0xDFFF)"
  proof -
    have "x < 13 \<or> x = 13 \<or> 13 < x" by arith
    then show ?thesis using assms unfolding r_def by auto
  qed
  ultimately show ?thesis unfolding r_def [symmetric] by (auto simp: AppendRune_def d1(2) d2(1) d3)
qed

lemma AppendRune_4:
  assumes "x < 5" "y < 64" "z < 64" "w < 64" "x = 0 \<longrightarrow> 16 \<le> y" "x = 4 \<longrightarrow> y < 16"
  shows "AppendRune (x * 262144 + y * 4096 + z * 64 + w) = [char_of (240 + x), char_of (128 + y), char_of (128 + z), char_of (128 + w)]"
proof -
  define r where "r = x * 262144 + y * 4096 + z * 64 + w"
  have e: "r = ((x * 64 + y) * 64 + z) * 64 + w" by (simp add: r_def)
  have d1: "r div 64 = (x * 64 + y) * 64 + z" "r mod 64 = w" unfolding e using base64_digit [OF assms(4)] by blast+
  have d2: "r div 64 mod 64 = z" "r div 64 div 64 = x * 64 + y" unfolding d1 using base64_digit [OF assms(3)] by blast+
  then have d3: "r div 4096 = x * 64 + y" by (simp add: div_mult2_eq [symmetric])
  then have d4: "r div 4096 mod 64 = y" "r div 4096 div 64 = x" using base64_digit [OF assms(2)] by simp_all
  then have d5: "r div 262144 = x" by (simp add: div_mult2_eq [symmetric])
  have "65536 \<le> r" "r \<le> 0x10FFFF" using assms by (cases "x = 0"; cases "x = 4"; simp add: r_def)+
  then show ?thesis unfolding r_def [symmetric] by (simp add: AppendRune_def d1(2) d2(1) d4(1) d5)
qed

lemma cont_mod: "128 \<le> (n::nat) \<Longrightarrow> n \<le> 191 \<Longrightarrow> n mod 64 = n - 128"
  by (simp add: mod_if)

lemma decode_AppendRune:
  assumes "DecodeRuneInString (c # cs) = (r, width)" "\<not> (width = 1 \<and> r = RuneError)"
  shows "AppendRune r = take width (c # cs)"
proof -
  have ch: "char_of (n + (ord d - n)) = d" if "n \<le> ord d" for d n using that by simp
  have ct: "ord d mod 64 = ord d - 128 \<and> ord d - 128 < 64 \<and> 128 \<le> ord d" if "contByte d" for d
    using that mod_add_self1 [of 128 "ord d - 128"] by (auto simp: contByte_def mod_if)
  consider (one) "ord c < 128" | (two) "194 \<le> ord c" "ord c < 224" | (three) "224 \<le> ord c" "ord c < 240"
    | (four) "240 \<le> ord c" "ord c \<le> 244"
    using assms by (cases "ord c < 128"; cases "ord c < 194"; cases "ord c < 224"; cases "ord c < 240"; cases "ord c \<le> 244")
      (auto simp: DecodeRuneInString_def Let_def)
  then show ?thesis
  proof cases
    case one
    with assms(1) show ?thesis by (auto simp: DecodeRuneInString_def AppendRune_def)
  next
    case two
    then obtain c1 rest where c: "cs = c1 # rest" "contByte c1" "r = ord c mod 32 * 64 + ord c1 mod 64" "width = 2"
      using assms by (auto simp: DecodeRuneInString_def Let_def split: list.splits if_splits)
    have "ord c mod 32 = ord c - 192" using two by (simp add: mod_if)
    then show ?thesis
      using two c(1,3,4) ct [OF c(2)] AppendRune_2 [of "ord c - 192" "ord c1 - 128"] ch [of 192 c] ch [of 128 c1] by simp
  next
    case three
    then obtain c1 c2 rest where c: "cs = c1 # c2 # rest" "secondByteOk (ord c) c1" "contByte c2"
        "r = ord c mod 16 * 4096 + ord c1 mod 64 * 64 + ord c2 mod 64" "width = 3"
      using assms by (auto simp: DecodeRuneInString_def Let_def split: list.splits if_splits)
    have "contByte c1" using c(2) by (auto simp: secondByteOk_def contByte_def split: if_splits)
    moreover have "ord c mod 16 = ord c - 224" using three by (simp add: mod_if)
    moreover have "ord c - 224 = 0 \<longrightarrow> 32 \<le> ord c1 - 128" "ord c - 224 = 13 \<longrightarrow> ord c1 - 128 < 32"
      using c(2) three by (auto simp: secondByteOk_def split: if_splits)
    ultimately show ?thesis
      using three c(1,4,5) ct [of c1] ct [OF c(3)] AppendRune_3 [of "ord c - 224" "ord c1 - 128" "ord c2 - 128"]
        ch [of 224 c] ch [of 128 c1] ch [of 128 c2] by simp
  next
    case four
    then obtain c1 c2 c3 rest where c: "cs = c1 # c2 # c3 # rest" "secondByteOk (ord c) c1" "contByte c2" "contByte c3"
        "r = ord c mod 8 * 262144 + ord c1 mod 64 * 4096 + ord c2 mod 64 * 64 + ord c3 mod 64" "width = 4"
      using assms by (auto simp: DecodeRuneInString_def Let_def split: list.splits if_splits)
    have "contByte c1" using c(2) by (auto simp: secondByteOk_def contByte_def split: if_splits)
    moreover have "ord c mod 8 = ord c - 240" using four by (simp add: mod_if)
    moreover have "ord c - 240 = 0 \<longrightarrow> 16 \<le> ord c1 - 128" "ord c - 240 = 4 \<longrightarrow> ord c1 - 128 < 16"
      using c(2) four by (auto simp: secondByteOk_def split: if_splits)
    ultimately show ?thesis
      using four c(1,5,6) ct [of c1] ct [OF c(3)] ct [OF c(4)]
        AppendRune_4 [of "ord c - 240" "ord c1 - 128" "ord c2 - 128" "ord c3 - 128"]
        ch [of 240 c] ch [of 128 c1] ch [of 128 c2] ch [of 128 c3] by simp
  qed
qed

section \<open>Quoting\<close>

text \<open>Reading is deterministic.\<close>

lemma unquotes_nonempty: "unquotes s v rest \<Longrightarrow> s \<noteq> []"
  by (cases rule: unquotes.cases) auto

lemma unquotes_fun: "unquotes s v rest \<Longrightarrow> unquotes s v' rest' \<Longrightarrow> v = v' \<and> rest = rest'"
proof (induction arbitrary: v' rest' rule: unquotes.induct)
  case (close rest)
  then show ?case by (elim unquotes_ConsE) auto
next
  case (elem s x t v rest)
  from elem.prems show ?case
  proof (cases rule: unquotes.cases)
    case close
    with elem.hyps(2) show ?thesis by simp
  next
    case (elem x' t' w)
    then have "x' = x" "t' = t" using elem.hyps(3) \<open>readElement s = Some (x, t)\<close> by simp_all
    with elem elem.IH show ?thesis by blast
  qed
qed

lemma hexVal_lower [simp]: "n < 16 \<Longrightarrow> hexVal (lowerHexDigit n) = Some n"
  by (auto simp: hexVal_def lowerHexDigit_def)

lemma readHex_hexDigits: "readHex k acc (hexDigits k r @ rest) = Some (acc * 16 ^ k + r mod 16 ^ k, rest)"
proof (induction k arbitrary: acc)
  case (Suc k)
  have "r mod 16 ^ Suc k = r div 16 ^ k mod 16 * 16 ^ k + r mod 16 ^ k"
    using mod_mult2_eq [of r "16 ^ k" 16] by (simp add: mult.commute)
  with Suc show ?case by (simp add: algebra_simps)
qed simp

lemma unquotes_literals:
  "list_all (\<lambda>c. c \<noteq> CHR 0x22 \<and> c \<noteq> CHR 0x5C) xs \<Longrightarrow> unquotes s v rest \<Longrightarrow> unquotes (xs @ s) (xs @ v) rest"
proof (induction xs)
  case (Cons c xs)
  then show ?case using unquotes.elem [of "c # xs @ s" "[c]" "xs @ s" "xs @ v" rest] by (simp add: readElement_def)
qed simp

lemma unquotes_escape:
  "readElement (CHR 0x5C # e @ s) = Some (x, s) \<Longrightarrow> unquotes s v rest \<Longrightarrow> unquotes (CHR 0x5C # e @ s) (x @ v) rest"
  by (rule unquotes.elem) auto

lemma AppendRune_high: "128 \<le> r \<Longrightarrow> c \<in> set (AppendRune r) \<Longrightarrow> 128 \<le> ord c"
  by (auto simp: AppendRune_def split: if_splits)

lemma char_of_literals:
  "char_of (34::nat) = CHR 0x22" "char_of (92::nat) = CHR 0x5C" "char_of (7::nat) = CHR 0x07" "char_of (8::nat) = CHR 0x08"
  "char_of (9::nat) = CHR 0x09" "char_of (10::nat) = CHR 0x0A" "char_of (11::nat) = CHR 0x0B" "char_of (12::nat) = CHR 0x0C"
  "char_of (13::nat) = CHR 0x0D"
  by code_simp+

lemma appendEscapedRune_cases:
  assumes "r < 0xD800 \<or> 0xDFFF < r" "r \<le> 0x10FFFF"
  obtains (quote) "r = 0x22 \<or> r = 0x5C" "appendEscapedRune table r = [CHR 0x5C, char_of r]"
    | (print) "r \<noteq> 0x22" "r \<noteq> 0x5C" "IsPrint table r" "appendEscapedRune table r = AppendRune r"
    | (simple) e where "appendEscapedRune table r = [CHR 0x5C, e]" "simpleEscape e = Some (char_of r)" "r < 128" "e \<in> set ''abfnrtv''"
    | (hex) "appendEscapedRune table r = [CHR 0x5C, CHR ''x''] @ hexDigits 2 r" "r < 128"
    | (four) "appendEscapedRune table r = [CHR 0x5C, CHR ''u''] @ hexDigits 4 r" "r < 0x10000"
    | (eight) "appendEscapedRune table r = [CHR 0x5C, CHR ''U''] @ hexDigits 8 r"
proof -
  let ?e = "map_of [(7::nat, CHR ''a''), (8, CHR ''b''), (12, CHR ''f''), (10, CHR ''n''), (13, CHR ''r''), (9, CHR ''t''), (11, CHR ''v'')]"
  consider "r = 0x22 \<or> r = 0x5C" | "r \<noteq> 0x22" "r \<noteq> 0x5C" "IsPrint table r"
    | c where "\<not> IsPrint table r" "?e r = Some c"
    | "r \<noteq> 0x22" "r \<noteq> 0x5C" "\<not> IsPrint table r" "?e r = None" by fastforce
  then show thesis
  proof cases
    case 1
    then show thesis by (intro quote) (auto simp: appendEscapedRune_def)
  next
    case 2
    then show thesis by (intro print) (auto simp: appendEscapedRune_def)
  next
    case (3 c)
    then have "r \<in> {7, 8, 12, 10, 13, 9, 11}" by (auto split: if_splits)
    with 3(1) show thesis
      by (elim insertE) (auto simp: appendEscapedRune_def simpleEscape_def char_of_literals intro: simple)
  next
    case 4
    then have "r \<notin> {7, 8, 12, 10, 13, 9, 11}" by (auto split: if_splits)
    then have e: "appendEscapedRune table r = (if r < 0x20 \<or> r = 0x7F then [CHR 0x5C, CHR ''x''] @ hexDigits 2 r
        else if r < 0x10000 then [CHR 0x5C, CHR ''u''] @ hexDigits 4 r else [CHR 0x5C, CHR ''U''] @ hexDigits 8 r)"
      using 4(1-3) assms by (auto simp: appendEscapedRune_def)
    then show thesis using hex four eight by (auto split: if_splits)
  qed
qed

lemma escaped_reads_back:
  assumes "unquotes s v rest" "r < 0xD800 \<or> 0xDFFF < r" "r \<le> 0x10FFFF"
  shows "unquotes (appendEscapedRune table r @ s) (AppendRune r @ v) rest"
proof -
  have x2: "readElement (CHR 0x5C # (CHR ''x'' # hexDigits 2 n) @ s) = Some ([char_of n], s)" if "n < 256" for n
    using that readHex_hexDigits [of 2 0 n s] by (simp add: readElement_def simpleEscape_def)
  have u4: "readElement (CHR 0x5C # (CHR ''u'' # hexDigits 4 n) @ s) = Some (AppendRune n, s)" if "n < 65536" for n
    using that readHex_hexDigits [of 4 0 n s] by (simp add: readElement_def simpleEscape_def)
  have u8: "readElement (CHR 0x5C # (CHR ''U'' # hexDigits 8 n) @ s) = Some (AppendRune n, s)" if "n \<le> 0x10FFFF" for n
    using that readHex_hexDigits [of 8 0 n s] by (simp add: readElement_def simpleEscape_def)
  have small: "AppendRune n = [char_of n]" if "n < 128" for n using that by (simp add: AppendRune_def)
  have sim: "readElement (CHR 0x5C # [e] @ s) = Some ([x], s)" if "simpleEscape e = Some x" for e x
    using that by (simp add: readElement_def)
  note esc = unquotes_escape [OF _ assms(1)]
  from assms(2,3) show ?thesis
  proof (cases rule: appendEscapedRune_cases [where table = table])
    case quote
    then have "simpleEscape (char_of r) = Some (char_of r)" by (auto simp: simpleEscape_def char_of_literals)
    with quote esc [OF sim, of "char_of r" "char_of r"] show ?thesis by (auto simp: small)
  next
    case print
    have "list_all (\<lambda>c. c \<noteq> CHR 0x22 \<and> c \<noteq> CHR 0x5C) (AppendRune r)"
    proof (cases "r < 128")
      case True
      then have o: "ord (char_of r) = r" by simp
      have "char_of r \<noteq> CHR 0x22" "char_of r \<noteq> CHR 0x5C"
        using print(1,2) arg_cong [where f = ord, of "char_of r" "CHR 0x22"] arg_cong [where f = ord, of "char_of r" "CHR 0x5C"]
        unfolding o by auto
      with True show ?thesis by (simp add: small)
    next
      case False
      then show ?thesis using AppendRune_high [of r] by (fastforce simp: list_all_iff)
    qed
    with unquotes_literals [OF this assms(1)] print show ?thesis by simp
  next
    case simple
    with esc [OF sim [OF simple(2)]] show ?thesis by (simp add: small)
  next
    case hex
    with esc [OF x2, of r] show ?thesis by (simp add: small)
  next
    case four
    with esc [OF u4, of r] show ?thesis by simp
  next
    case eight
    with esc [OF u8, of r] assms(3) show ?thesis by simp
  qed
qed

text \<open>What decoding gives is never a surrogate and never past the last code point.\<close>

lemma decode_range:
  assumes "DecodeRuneInString s = (r, width)"
  shows "(r < 0xD800 \<or> 0xDFFF < r) \<and> r \<le> 0x10FFFF"
proof -
  have m: "ord d mod 64 < 64" for d by simp
  have two: "x mod 32 * 64 + ord d mod 64 < 2048" for x d
    using m [of d] mod_less_divisor [of 32 x] by linarith
  have three: "(x mod 16 * 4096 + ord d mod 64 * 64 + ord e mod 64 < 0xD800
      \<or> 0xDFFF < x mod 16 * 4096 + ord d mod 64 * 64 + ord e mod 64)
      \<and> x mod 16 * 4096 + ord d mod 64 * 64 + ord e mod 64 \<le> 0x10FFFF"
    if "secondByteOk x d" "0xE0 \<le> x" "x < 0xF0" for x d e
  proof -
    have md: "128 \<le> ord d" "ord d \<le> 191" "x = 0xED \<longrightarrow> ord d \<le> 159"
      using that(1) by (auto simp: secondByteOk_def split: if_splits)
    have dm: "ord d mod 64 = ord d - 128" by (rule cont_mod [OF md(1,2)])
    note xr = that(2,3)
    have mx: "x mod 16 = x - 0xE0" using xr by (simp add: mod_if)
    have b: "ord d - 128 < 64" using md(2) by simp
    consider "x - 0xE0 < 13" | "x = 0xED" "ord d - 128 < 32" | "13 < x - 0xE0" "x - 0xE0 < 16" using xr md(1,3) by linarith
    then show ?thesis unfolding mx dm using m [of e] b
      by cases (simp_all, linarith+)
  qed
  have four: "x mod 8 * 262144 + ord d mod 64 * 4096 + ord e mod 64 * 64 + ord f mod 64 \<le> 0x10FFFF
      \<and> 0xDFFF < x mod 8 * 262144 + ord d mod 64 * 4096 + ord e mod 64 * 64 + ord f mod 64"
    if "secondByteOk x d" "0xF0 \<le> x" "x \<le> 0xF4" for x d e f
  proof -
    have md: "128 \<le> ord d" "ord d \<le> 191" "x = 0xF4 \<longrightarrow> ord d \<le> 143" "x = 0xF0 \<longrightarrow> 144 \<le> ord d"
      using that(1) by (auto simp: secondByteOk_def split: if_splits)
    have dm: "ord d mod 64 = ord d - 128" by (rule cont_mod [OF md(1,2)])
    note xr = that(2,3)
    have mx: "x mod 8 = x - 0xF0" using xr by (simp add: mod_if)
    have b: "ord d - 128 < 64" using md(2) by simp
    consider "x = 0xF0" "16 \<le> ord d - 128" | "0 < x - 0xF0" "x - 0xF0 < 4" | "x = 0xF4" "ord d - 128 < 16"
      using xr md by linarith
    then show ?thesis unfolding mx dm using m [of e] m [of f] b
      by cases (simp_all, linarith+)
  qed
  show ?thesis
    using assms two three four
    by (fastforce simp: DecodeRuneInString_def Let_def RuneError_def split: list.splits if_splits)
qed

theorem Quote_reads_back: "unquotes (quoteBody table v @ CHR 0x22 # rest) v rest"
proof (induction table v rule: quoteBody.induct)
  case (1 table)
  show ?case by (simp add: unquotes.close)
next
  case (2 table c cs)
  obtain r width where d: "DecodeRuneInString (c # cs) = (r, width)" by fastforce
  show ?case
  proof (cases "width = 1 \<and> r = RuneError")
    case True
    have IH: "unquotes (quoteBody table cs @ CHR 0x22 # rest) cs rest" using 2(1) d True by simp
    let ?s = "quoteBody table cs @ CHR 0x22 # rest"
    have "readElement (CHR 0x5C # (CHR ''x'' # hexDigits 2 (ord c)) @ ?s) = Some ([c], ?s)"
      using readHex_hexDigits [of 2 0 "ord c" ?s] nat_of_char_less_256 [of c] by (simp add: readElement_def simpleEscape_def)
    from unquotes_escape [OF this IH] show ?thesis using d True by simp
  next
    case False
    have IH: "unquotes (quoteBody table (drop width (c # cs)) @ CHR 0x22 # rest) (drop width (c # cs)) rest"
      using 2(2) d False by simp
    from escaped_reads_back [OF IH, of r table] decode_range [OF d]
    have "unquotes (appendEscapedRune table r @ quoteBody table (drop width (c # cs)) @ CHR 0x22 # rest)
        (AppendRune r @ drop width (c # cs)) rest" by simp
    moreover have "AppendRune r @ drop width (c # cs) = c # cs"
      unfolding decode_AppendRune [OF d False] by (rule append_take_drop_id)
    moreover have "quoteBody table (c # cs) = appendEscapedRune table r @ quoteBody table (drop width (c # cs))"
      using d False by (auto simp: Let_def)
    ultimately show ?thesis by (metis append.assoc)
  qed
qed

text \<open>Nothing that \<open>Quote\<close> prints is an ASCII control character.\<close>

lemma noAsciiControl_escape [simp]: "noAsciiControl CHR 0x5C" "noAsciiControl CHR ''x''"
  by (simp_all add: noAsciiControl_def)

lemma hexDigits_noAsciiControl: "list_all noAsciiControl (hexDigits k r)"
  by (induction k) (auto simp: noAsciiControl_def lowerHexDigit_def)

lemma appendEscapedRune_noAsciiControl:
  assumes "r < 0xD800 \<or> 0xDFFF < r" "r \<le> 0x10FFFF"
  shows "list_all noAsciiControl (appendEscapedRune table r)"
  using assms
proof (cases rule: appendEscapedRune_cases [where table = table])
  case quote
  then show ?thesis by (auto simp: noAsciiControl_def)
next
  case print
  show ?thesis
  proof (cases "r < 128")
    case True
    with print show ?thesis by (auto simp: AppendRune_def IsPrint_def noAsciiControl_def)
  next
    case False
    then show ?thesis using AppendRune_high [of r] print(4) by (fastforce simp: list_all_iff noAsciiControl_def)
  qed
next
  case (simple e)
  then show ?thesis by (auto simp: noAsciiControl_def)
qed (simp_all add: hexDigits_noAsciiControl noAsciiControl_def)

lemma Quote_noAsciiControl: "list_all noAsciiControl (Quote table v)"
proof -
  have "list_all noAsciiControl (quoteBody table v)"
  proof (induction table v rule: quoteBody.induct)
    case (2 table c cs)
    obtain r width where d: "DecodeRuneInString (c # cs) = (r, width)" by fastforce
    from 2 d decode_range [OF d] appendEscapedRune_noAsciiControl [of r table] hexDigits_noAsciiControl [of 2 "ord c"] show ?case
      by (auto simp: Let_def)
  qed simp
  then show ?thesis by (simp add: Quote_def noAsciiControl_def)
qed

end
