(* ===== verification/Logx.thy ===== *)
theory Logx
  imports GoQuote
begin

text \<open>
  Structured log lines of \<^verbatim>\<open>internal/logx/event.go\<close> and the broker's \<open>FormatEvent\<close>.  The values of a line
  come from the network (labels, reasons, error texts); the theorems say that no value can break
  a line or pass for another field.  Keys and values are the strings that \<open>fmt.Sprint\<close> gives.
\<close>

section \<open>Definitions\<close>

text \<open>The runes that \<open>range\<close> over a string visits.\<close>

function runes :: "string \<Rightarrow> nat list" where
  "runes [] = []"
| "runes (c # cs) = fst (DecodeRuneInString (c # cs)) # runes (drop (snd (DecodeRuneInString (c # cs))) (c # cs))"
  by pat_completeness auto
termination
proof (relation "measure length")
  show "(drop (snd (DecodeRuneInString (c # cs))) (c # cs), c # cs) \<in> measure length" for c cs
    using DecodeRune_width [of c cs] by simp
qed simp

definition needsQuote :: "string \<Rightarrow> bool" where
  "needsQuote s =
     (if s = [] then True
      else list_ex (\<lambda>r. r = 0x20 \<or> r = 0x22 \<or> r = 0x5C \<or> r = 0x3D \<or> r < 0x20 \<or> r = 0x7F) (runes s))"

definition writeValue :: "(nat \<Rightarrow> bool) \<Rightarrow> string \<Rightarrow> string" where
  "writeValue table s = (if needsQuote s then Quote table s else s)"

fun writeFields :: "(nat \<Rightarrow> bool) \<Rightarrow> string list \<Rightarrow> string" where
  "writeFields table (k # v # kv) = '' '' @ k @ ''='' @ writeValue table v @ writeFields table kv"
| "writeFields table [v] = '' _trailing='' @ writeValue table v"
| "writeFields table [] = []"

definition Event :: "(nat \<Rightarrow> bool) \<Rightarrow> string \<Rightarrow> string \<Rightarrow> string list \<Rightarrow> string" where
  "Event table prefix event kv = prefix @ '': event='' @ event @ writeFields table kv"

definition FormatEvent :: "(nat \<Rightarrow> bool) \<Rightarrow> string \<Rightarrow> string list \<Rightarrow> string" where
  "FormatEvent table event kv = Event table ''broker'' event kv"

section \<open>Specifications\<close>

text \<open>The fields of a line.\<close>

fun fieldsOf :: "string list \<Rightarrow> (string \<times> string) list" where
  "fieldsOf (k # v # kv) = (k, v) # fieldsOf kv"
| "fieldsOf [v] = [(''_trailing'', v)]"
| "fieldsOf [] = []"

definition fieldText :: "(nat \<Rightarrow> bool) \<Rightarrow> string \<times> string \<Rightarrow> string" where
  "fieldText table f = CHR '' '' # fst f @ CHR ''='' # writeValue table (snd f)"

section \<open>Values\<close>

lemma DecodeRune_ascii: "ord c < 128 \<Longrightarrow> DecodeRuneInString (c # cs) = (ord c, 1)"
  by (simp add: DecodeRuneInString_def)

text \<open>A multi-byte rune swallows no ASCII byte.\<close>

lemma DecodeRune_swallows:
  assumes "128 \<le> ord c" "d \<in> set (take (snd (DecodeRuneInString (c # cs))) (c # cs))"
  shows "128 \<le> ord d"
proof (cases "snd (DecodeRuneInString (c # cs)) = 1 \<and> fst (DecodeRuneInString (c # cs)) = RuneError")
  case True
  with assms show ?thesis by simp
next
  case False
  obtain r w where d: "DecodeRuneInString (c # cs) = (r, w)" by fastforce
  note a = decode_AppendRune [OF d] False
  have "128 \<le> r"
  proof (rule ccontr)
    assume "\<not> 128 \<le> r"
    then have "AppendRune r = [char_of r]" by (simp add: AppendRune_def)
    moreover have "hd (AppendRune r) = c" using a d DecodeRune_width [of c cs] by (cases w) simp_all
    ultimately have "c = char_of r" by simp
    moreover have "ord (char_of r :: char) = r" using \<open>\<not> 128 \<le> r\<close> by simp
    ultimately show False using assms(1) \<open>\<not> 128 \<le> r\<close> by metis
  qed
  then show ?thesis using AppendRune_high [of r d] a assms(2) d by simp
qed

lemma runes_ascii: "c \<in> set s \<Longrightarrow> ord c < 128 \<Longrightarrow> ord c \<in> set (runes s)"
proof (induction s rule: runes.induct)
  case (2 d cs)
  let ?w = "snd (DecodeRuneInString (d # cs))"
  have "d # cs = take ?w (d # cs) @ drop ?w (d # cs)" by simp
  with 2(2) have "c \<in> set (take ?w (d # cs)) \<or> c \<in> set (drop ?w (d # cs))" by (metis Un_iff set_append)
  then show ?case
  proof
    assume c: "c \<in> set (take ?w (d # cs))"
    show ?thesis
    proof (cases "ord d < 128")
      case True
      with c show ?thesis by (simp add: DecodeRune_ascii)
    next
      case False
      with DecodeRune_swallows [OF _ c] 2(3) show ?thesis by simp
    qed
  qed (use 2 in simp)
qed simp

lemma char_neqI: "ord c \<noteq> ord d \<Longrightarrow> c \<noteq> d"
  by blast

lemma plain_value:
  assumes "\<not> needsQuote s" "c \<in> set s"
  shows "noAsciiControl c \<and> c \<noteq> CHR '' '' \<and> c \<noteq> CHR 0x22 \<and> c \<noteq> CHR 0x5C \<and> c \<noteq> CHR ''=''"
proof (cases "ord c < 128")
  case True
  let ?P = "\<lambda>r :: nat. r = 0x20 \<or> r = 0x22 \<or> r = 0x5C \<or> r = 0x3D \<or> r < 0x20 \<or> r = 0x7F"
  have "\<not> list_ex ?P (runes s)" using assms(1) unfolding needsQuote_def by meson
  with runes_ascii [OF assms(2) True] have "\<not> ?P (ord c)" unfolding list_ex_iff by blast
  then show ?thesis by (intro conjI char_neqI) (simp_all add: noAsciiControl_def)
next
  case False
  then show ?thesis by (intro conjI char_neqI) (simp_all add: noAsciiControl_def)
qed

lemma writeValue_noAsciiControl: "list_all noAsciiControl (writeValue table v)"
  using plain_value [of v] Quote_noAsciiControl [of table v] by (auto simp: writeValue_def list_all_iff)

text \<open>A value ends where the line or the next field's space begins.\<close>

lemma writeValue_ends:
  assumes "writeValue table v @ r = writeValue table v' @ r'"
    and "r = [] \<or> hd r = CHR '' ''" "r' = [] \<or> hd r' = CHR '' ''"
  shows "v = v' \<and> r = r'"
proof -
  have hdq: "hd (u @ x) \<noteq> CHR 0x22" if "\<not> needsQuote u" for u x
  proof -
    have "u \<noteq> []" using that by (auto simp: needsQuote_def)
    then show ?thesis using plain_value [OF that, of "hd u"] by simp
  qed
  have mixed: False if "Quote table u @ x = w @ y" "\<not> needsQuote w" for u x w y
    using hdq [OF that(2), of y] unfolding that(1) [symmetric] Quote_def by simp
  consider "needsQuote v" "needsQuote v'" | "\<not> needsQuote v" "\<not> needsQuote v'" | "needsQuote v \<noteq> needsQuote v'" by blast
  then show ?thesis
  proof cases
    case 1
    with assms(1) have "quoteBody table v @ CHR 0x22 # r = quoteBody table v' @ CHR 0x22 # r'"
      by (simp add: writeValue_def Quote_def)
    with Quote_reads_back [of table v r] Quote_reads_back [of table v' r'] unquotes_fun show ?thesis by metis
  next
    case 2
    have tw: "takeWhile (\<lambda>c. c \<noteq> CHR '' '') (u @ x) = u \<and> dropWhile (\<lambda>c. c \<noteq> CHR '' '') (u @ x) = x"
      if "\<not> needsQuote u" "x = [] \<or> hd x = CHR '' ''" for u x
      using plain_value [OF that(1)] that(2) by (cases x) (auto simp: takeWhile_append dropWhile_append)
    from 2 assms(1) have "v @ r = v' @ r'" by (simp add: writeValue_def)
    with tw [OF 2(1) assms(2)] tw [OF 2(2) assms(3)] show ?thesis by metis
  next
    case 3
    with assms(1) mixed show ?thesis by (cases "needsQuote v") (simp_all add: writeValue_def, metis+)
  qed
qed

section \<open>Lines\<close>

lemma writeFields_fields: "writeFields table kv = concat (map (fieldText table) (fieldsOf kv))"
  by (induction kv rule: fieldsOf.induct) (simp_all add: fieldText_def)

lemma fields_unique:
  assumes "concat (map (fieldText table) fs) = concat (map (fieldText table) gs)"
    and "\<forall>f \<in> set fs \<union> set gs. CHR ''='' \<notin> set (fst f)"
  shows "fs = gs"
  using assms
proof (induction fs arbitrary: gs)
  case Nil
  then show ?case by (cases gs) (simp_all add: fieldText_def)
next
  case (Cons f fs)
  then obtain g gs' where g: "gs = g # gs'" by (cases gs) (simp_all add: fieldText_def)
  let ?R = "\<lambda>xs. concat (map (fieldText table) xs)"
  have e: "fst f @ CHR ''='' # writeValue table (snd f) @ ?R fs = fst g @ CHR ''='' # writeValue table (snd g) @ ?R gs'"
    using Cons.prems(1) by (simp add: g fieldText_def [of table f] fieldText_def [of table g])
  have k: "CHR ''='' \<notin> set (fst f)" "CHR ''='' \<notin> set (fst g)" using Cons.prems(2) by (auto simp: g)
  have tw: "takeWhile (\<lambda>c. c \<noteq> CHR ''='') (x @ CHR ''='' # y) = x" if "CHR ''='' \<notin> set x" for x y
    using that by (subst takeWhile_append2) auto
  have "fst f = fst g" using tw [OF k(1)] tw [OF k(2)] e by metis
  moreover from this e have "writeValue table (snd f) @ ?R fs = writeValue table (snd g) @ ?R gs'" by simp
  moreover have "?R xs = [] \<or> hd (?R xs) = CHR '' ''" for xs by (cases xs) (simp_all add: fieldText_def)
  ultimately have "f = g" "?R fs = ?R gs'" using writeValue_ends [of table "snd f" "?R fs" "snd g" "?R gs'"] by (auto simp: prod_eq_iff)
  with Cons.IH [of gs'] Cons.prems(2) show ?case by (simp add: g)
qed

text \<open>The control characters from \<open>U+0080\<close> to \<open>U+009F\<close> are not quoted, among them \<open>U+009B\<close>, which terminals take for an escape sequence.\<close>

lemma c1_controls_unquoted:
  assumes "0x80 \<le> ord c" "ord c < 0xA0"
  shows "writeValue table [CHR 0xC2, c] = [CHR 0xC2, c]"
  using assms by (simp add: writeValue_def needsQuote_def DecodeRuneInString_def contByte_def)

text \<open>
  (C39) Log lines cannot be forged: whatever the values are, a line has no byte below \<open>0x20\<close> and no
  \<open>DEL\<close> beyond those of its fixed parts, so no line break and no escape, and a value cannot start a
  new line; and two lines of the same event are equal only if their fields are, so a value can
  neither pass for another field nor hide one.  The package comment promises the quoting of every
  control character; the code does not quote the 32 from \<open>U+0080\<close> to \<open>U+009F\<close>: a value that is one of
  them is written as it is.
\<close>

theorem event_lines_unambiguous:
  assumes "\<forall>f \<in> set (fieldsOf kv) \<union> set (fieldsOf kv'). CHR ''='' \<notin> set (fst f)"
    and "list_all noAsciiControl (prefix @ event)" "\<forall>f \<in> set (fieldsOf kv). list_all noAsciiControl (fst f)"
  shows "list_all noAsciiControl (Event table prefix event kv)
       \<and> (Event table prefix event kv = Event table prefix event kv' \<longleftrightarrow> fieldsOf kv = fieldsOf kv')
       \<and> (0x80 \<le> ord c \<and> ord c < 0xA0 \<longrightarrow>
            Event table prefix event [k, [CHR 0xC2, c]] = prefix @ '': event='' @ event @ '' '' @ k @ ''='' @ [CHR 0xC2, c])"
proof -
  have "list_all noAsciiControl (fieldText table f)" if "f \<in> set (fieldsOf kv)" for f
    using assms(3) that writeValue_noAsciiControl [of table "snd f"] by (auto simp: fieldText_def noAsciiControl_def)
  then have "list_all noAsciiControl (writeFields table kv)"
    unfolding writeFields_fields by (auto simp: list_all_iff)
  with assms(2) have "list_all noAsciiControl (Event table prefix event kv)" by (auto simp: Event_def noAsciiControl_def)
  moreover have "Event table prefix event kv = Event table prefix event kv' \<longleftrightarrow> fieldsOf kv = fieldsOf kv'"
    using fields_unique [OF _ assms(1), of table] by (auto simp: Event_def writeFields_fields)
  ultimately show ?thesis by (simp add: Event_def c1_controls_unquoted)
qed

theorem event_lines_unambiguous_witness:
  "Event (\<lambda>_. False) ''peer'' ''rejected'' [''reason'', ''a session_id=1'']
     \<noteq> Event (\<lambda>_. False) ''peer'' ''rejected'' [''reason'', ''a'', ''session_id'', ''1'']
   \<and> Event (\<lambda>_. False) ''peer'' ''rejected'' [''reason'', [CHR 0xC2, CHR 0x9B]]
     = ''peer: event=rejected reason='' @ [CHR 0xC2, CHR 0x9B]"
  using event_lines_unambiguous [of "[''reason'', ''a session_id=1'']" "[''reason'', ''a'', ''session_id'', ''1'']" "''peer''" "''rejected''" "\<lambda>_. False"
      "CHR 0x9B" "''reason''"]
  by (simp add: noAsciiControl_def)

end
