(* ===== verification/BrokerServe.thy ===== *)
theory BrokerServe
  imports BrokerSystem Connection Client
begin

text \<open>
  What surrounds the broker's maps in \<^verbatim>\<open>internal/rendezvous/broker.go\<close>: the routes and the origin
  check in front of the handler, the write path and the read deadline of a connection, the
  keepalive and janitor goroutines, and \<open>Shutdown\<close>.  Times are nanoseconds.
\<close>

section \<open>Definitions\<close>

subsection \<open>Routes and origins\<close>

text \<open>The handlers of the mux; for other paths it answers itself.\<close>

datatype route = RouteWebSocket | RouteHealth | RouteMux

definition Routes :: "string \<Rightarrow> route" where
  "Routes path = (if path = ''/ws'' then RouteWebSocket else if path = ''/healthz'' then RouteHealth else RouteMux)"

definition healthz :: "nat \<times> string" where
  "healthz = (200, ''ok'')"

definition canonicalHost :: "unicode \<Rightarrow> string \<Rightarrow> string \<Rightarrow> string" where
  "canonicalHost U host0 port0 =
     (let host = ToLower U (TrimSpace host0); port = TrimSpace port0 in
      if port = [] then host else JoinHostPort host port)"

definition brokerCheckOrigin :: "unicode \<Rightarrow> http_request \<Rightarrow> bool" where
  "brokerCheckOrigin U r =
     (let origin = TrimSpace (HeaderGet r ''Origin'') in
      if origin = [] then True
      else (case url_Parse U origin of
         Inl err \<Rightarrow> False
       | Inr parsed \<Rightarrow>
           (let originHost = canonicalHost U (Hostname parsed) (url_Port parsed);
                (requestHost, requestPort) = (case SplitHostPort (rq_Host r) of Inl err \<Rightarrow> (rq_Host r, []) | Inr hp \<Rightarrow> hp) in
            EqualFold U originHost (canonicalHost U requestHost requestPort))))"

subsection \<open>Connections\<close>

definition broker_wsPingInterval :: time where "broker_wsPingInterval = 20 * second"
definition broker_wsPongWait :: time where "broker_wsPongWait = 60 * second"
definition broker_wsWriteWait :: time where "broker_wsWriteWait = 10 * second"

text \<open>The intervals of the client.\<close>

definition wsPingInterval :: time where "wsPingInterval = 20 * second"
definition wsPongWait :: time where "wsPongWait = 60 * second"
definition wsWriteWait :: time where "wsWriteWait = 10 * second"
definition appPingInterval :: time where "appPingInterval = 15 * second"

text \<open>\<open>send\<close>, under the peer's write lock: what it writes and returns, for what the connection answers.\<close>

definition Broker_send :: "gerror option \<Rightarrow> gerror option \<Rightarrow> peer \<Rightarrow> message \<Rightarrow> effect list \<times> gerror option" where
  "Broker_send deadlineErr writeErr p m =
     (case deadlineErr of
        Some err \<Rightarrow> ([], Some err)
      | None \<Rightarrow> (case writeErr of Some err \<Rightarrow> ([], Some err) | None \<Rightarrow> ([Send p m], None)))"

text \<open>
  The read deadline of a connection, in the handler of the broker and in the read loop of the
  client.  Frames are messages and the WebSocket's own pongs and pings.  The pong handler moves the
  deadline, and so does the loop after it has read a message; a ping is answered by the library
  and leaves the deadline alone.  A read that is still waiting at the deadline fails.  Given the
  deadline and the frames with the times at which they arrive, the result is the deadline that is
  reached (\<open>Inl\<close>) or the one armed at the end.
\<close>

datatype frame = MessageFrame | PongFrame | PingFrame

definition pongHandler :: "time \<Rightarrow> time \<Rightarrow> time" where
  "pongHandler pongWait now = now + pongWait"

definition postReadRefresh :: "time \<Rightarrow> time \<Rightarrow> time" where
  "postReadRefresh pongWait now = now + pongWait"

fun readFrame :: "time \<Rightarrow> time \<Rightarrow> time \<times> frame \<Rightarrow> time" where
  "readFrame pongWait deadline (now, MessageFrame) = postReadRefresh pongWait now"
| "readFrame pongWait deadline (now, PongFrame) = pongHandler pongWait now"
| "readFrame pongWait deadline (now, PingFrame) = deadline"

fun readFrames :: "time \<Rightarrow> time \<Rightarrow> (time \<times> frame) list \<Rightarrow> time + time" where
  "readFrames pongWait deadline [] = Inr deadline"
| "readFrames pongWait deadline (tf # fs) =
     (if fst tf \<le> deadline then readFrames pongWait (readFrame pongWait deadline tf) fs else Inl deadline)"

text \<open>\<open>runPeerKeepalive\<close> over the arms its select takes: the pings written and whether it has returned.\<close>

datatype kevent = KDone | KTick "gerror option"

fun runPeerKeepalive :: "kevent list \<Rightarrow> nat \<times> bool" where
  "runPeerKeepalive [] = (0, False)"
| "runPeerKeepalive (KDone # es) = (0, True)"
| "runPeerKeepalive (KTick (Some err) # es) = (0, True)"
| "runPeerKeepalive (KTick None # es) = (case runPeerKeepalive es of (n, ret) \<Rightarrow> (Suc n, ret))"

subsection \<open>The janitor goroutine and \<open>Shutdown\<close>\<close>

text \<open>One round of \<open>runJanitor\<close> with the arm its select takes, \<open>None\<close> when that arm is not ready; the flag says it returned.\<close>

datatype jevent = JStop | JTick "string list" "string list" "string list" time time

definition runJanitor :: "('r, 'l) broker \<Rightarrow> jevent \<Rightarrow> (('r, 'l) broker \<times> effect list \<times> bool) option" where
  "runJanitor b e =
     (if b_janitorInterval b \<le> 0 then Some (b, [], True)
      else (case e of
        JStop \<Rightarrow> if b_stopped b then Some (b, [], True) else None
      | JTick keys ids lkeys now now' \<Rightarrow>
          (case evictStale keys ids lkeys now now' b of (b', es) \<Rightarrow> Some (b', es, False))))"

text \<open>
  \<open>Shutdown\<close> with the goroutine it starts and the janitor: the goroutine waits for the janitor, closes
  the connections and signals \<open>done\<close>; the caller returns on \<open>done\<close> or when its context ends.
\<close>

record ('r, 'l) shutdown =
  sd_broker :: "('r, 'l) broker"
  sd_janitor :: bool
  sd_closed :: "nat list"
  sd_done :: bool
  sd_result :: "gerror option option"

definition Shutdown :: "('r, 'l) broker \<Rightarrow> bool \<Rightarrow> ('r, 'l) shutdown" where
  "Shutdown b janitor =
     \<lparr>sd_broker = Shutdown_stop b, sd_janitor = janitor, sd_closed = [], sd_done = False, sd_result = None\<rparr>"

text \<open>\<open>SHandlers\<close> stands for what the handlers do to the broker meanwhile; nothing clears the stop signal.\<close>

datatype ('r, 'l) slabel =
    SHandlers "('r, 'l) broker"
  | SJanitor jevent
  | SDrain "string list" "string list"
  | SSelectDone
  | SSelectCtx gerror

definition closedConns :: "effect list \<Rightarrow> nat list" where
  "closedConns es = concat (map (\<lambda>e. case e of CloseConn c \<Rightarrow> [c] | _ \<Rightarrow> []) es)"

fun shutdownStep :: "('r, 'l) shutdown \<Rightarrow> ('r, 'l) slabel \<Rightarrow> ('r, 'l) shutdown option" where
  "shutdownStep s (SHandlers b) = (if b_stopped b then Some (s\<lparr>sd_broker := b\<rparr>) else None)"
| "shutdownStep s (SJanitor e) =
     (if \<not> sd_janitor s then None
      else map_option (\<lambda>(b, es, ret). s\<lparr>sd_broker := b, sd_closed := sd_closed s @ closedConns es, sd_janitor := \<not> ret\<rparr>)
             (runJanitor (sd_broker s) e))"
| "shutdownStep s (SDrain ids keys) =
     (if sd_janitor s \<or> sd_done s \<or> \<not> enumerates ids (b_sessions (sd_broker s)) \<or> \<not> enumerates keys (b_waiting (sd_broker s)) then None
      else Some (s\<lparr>sd_closed := sd_closed s @ closedConns (Shutdown_drain ids keys (sd_broker s)), sd_done := True\<rparr>))"
| "shutdownStep s SSelectDone =
     (if sd_result s = None \<and> sd_done s then Some (s\<lparr>sd_result := Some None\<rparr>) else None)"
| "shutdownStep s (SSelectCtx err) =
     (if sd_result s = None then Some (s\<lparr>sd_result := Some (Some err)\<rparr>) else None)"

fun shutdownRun :: "('r, 'l) shutdown \<Rightarrow> ('r, 'l) slabel list \<Rightarrow> ('r, 'l) shutdown option" where
  "shutdownRun s [] = Some s"
| "shutdownRun s (l # ls) = (case shutdownStep s l of None \<Rightarrow> None | Some s' \<Rightarrow> shutdownRun s' ls)"

section \<open>Specifications\<close>

text \<open>
  What \<open>canonicalHost\<close> makes of the name and the port of a URL's host, and of a request's host: only
  an IPv6 address that the request names without a port keeps its brackets.
\<close>

definition hostText :: "string \<Rightarrow> string \<Rightarrow> string" where
  "hostText name port =
     (if drop 1 port = [] then map lowerChar name
      else if CHR '':'' \<in> set name then CHR ''['' # map lowerChar name @ CHR '']'' # port
      else map lowerChar name @ port)"

definition requestText :: "string \<Rightarrow> string \<Rightarrow> string" where
  "requestText name port =
     (if CHR '':'' \<in> set name \<and> port = [] then CHR ''['' # map lowerChar name @ '']'' else hostText name port)"

text \<open>The texts can be read back: what stands before the port, and the port.\<close>

fun hostRead :: "string \<Rightarrow> string \<times> string" where
  "hostRead (c # s) =
     (if c = CHR ''['' then (takeWhile (\<lambda>c. c \<noteq> CHR '']'') s, drop 1 (dropWhile (\<lambda>c. c \<noteq> CHR '']'') s))
      else if 2 \<le> count_list (c # s) CHR '':'' then (c # s, [])
      else (takeWhile (\<lambda>c. c \<noteq> CHR '':'') (c # s), dropWhile (\<lambda>c. c \<noteq> CHR '':'') (c # s)))"
| "hostRead [] = ([], [])"

text \<open>The times at which a message or a pong arrived.\<close>

definition refreshTimes :: "(time \<times> frame) list \<Rightarrow> time list" where
  "refreshTimes fs = map fst (filter (\<lambda>tf. snd tf \<noteq> PingFrame) fs)"

section \<open>Origins\<close>

lemma lowerChar_idem [simp]: "lowerChar (lowerChar c) = lowerChar c"
  by (simp add: lowerChar_def)

lemma lowerChar_sep:
  assumes "d \<in> set '':[]''"
  shows "lowerChar c = d \<longleftrightarrow> c = d"
proof
  assume l: "lowerChar c = d"
  then have "ord (lowerChar c) = ord d" by simp
  moreover have "ord d \<in> {58, 91, 93}" using assms by auto
  moreover have "ord (lowerChar c) = (if 65 \<le> ord c \<and> ord c \<le> 90 then ord c + 32 else ord c)" by (simp add: lowerChar_def)
  ultimately have "ord c = ord d" by (auto split: if_splits)
  then show "c = d" by (simp only: of_char_eq_iff)
qed (use assms in \<open>auto simp: lowerChar_def\<close>)

lemma lowerChar_sep_in: "d \<in> set '':[]'' \<Longrightarrow> d \<in> set (map lowerChar s) \<longleftrightarrow> d \<in> set s"
proof (induction s)
  case (Cons c s)
  then show ?case using lowerChar_sep [of d c] by (cases "c = d") auto
qed simp

lemma lowerChar_digit: "isDigit c \<Longrightarrow> lowerChar c = c"
  by (simp add: lowerChar_def isDigit_def)

lemma count_lower: "count_list (map lowerChar s) CHR '':'' = count_list s CHR '':''"
  using lowerChar_sep [of "CHR '':''"] by (induction s) auto

lemma canonicalHost_urlHost:
  assumes "urlHost h name port"
  shows "canonicalHost U name (drop 1 port) = hostText name port"
proof -
  have t: "TrimSpace name = name" "TrimSpace (drop 1 port) = drop 1 port"
    using urlHost_visible [OF assms]
    by (intro TrimSpace_visible_all; simp add: list_all_iff; meson in_set_dropD)+
  have "isASCII name" using urlHost_visible [OF assms] by (fastforce simp: isASCII_def list_all_iff)
  then have l: "ToLower U name = map lowerChar name" by (simp add: ToLower_def)
  show ?thesis using urlHost_port(1) [OF assms] lowerChar_sep_in [of "CHR '':''" name] unfolding canonicalHost_def Let_def t l
    by (auto simp: hostText_def JoinHostPort_def)
qed

text \<open>The host of a request, with the fallback to the whole text when it has no port.\<close>

lemma request_host:
  assumes "urlHost h name port"
  shows "(case (case SplitHostPort h of Inl err \<Rightarrow> (h, []) | Inr hp \<Rightarrow> hp) of (rh, rp) \<Rightarrow> canonicalHost U rh rp) = requestText name port"
  using assms
proof (cases rule: urlHost_cases)
  case plain
  have "(case SplitHostPort h of Inl err \<Rightarrow> (h, []) | Inr hp \<Rightarrow> hp) = (name, drop 1 port)"
  proof (cases port)
    case Nil
    with plain show ?thesis by (simp add: SplitHostPort_def)
  next
    case (Cons p ds)
    with urlHost_port [OF assms] have p: "p = CHR '':''" "CHR '':'' \<notin> set ds" by auto
    then have l: "LastIndexByte (name @ port) CHR '':'' = Some (length name)" using Cons by (simp add: LastIndexByte_append)
    have b: "CHR ''['' \<notin> set (name @ port)" "CHR '']'' \<notin> set (name @ port)"
      using plainHost_chars [OF plain(1), of "CHR ''[''"] plainHost_chars [OF plain(1), of "CHR '']''"] by auto
    then have "hd (name @ port) \<noteq> CHR ''[''" using plain(3) by (metis append_is_Nil_conv list.set_sel(1))
    with l b Cons plain show ?thesis by (simp add: SplitHostPort_def)
  qed
  with canonicalHost_urlHost [OF assms, of U] plain show ?thesis by (simp add: requestText_def)
next
  case ipv6
  have e: "IndexByte h CHR '']'' = Some (Suc (length name))"
    using IndexByte_append [of "CHR '']''" "CHR ''['' # name" port] urlHost_name [OF assms] ipv6(3) by auto
  show ?thesis
  proof (cases port)
    case Nil
    have "CHR '':'' \<in> set h" using ipv6(3,4) by simp
    then obtain i where "LastIndexByte h CHR '':'' = Some i" using LastIndexByte_bound by blast
    with e ipv6(3) Nil have s: "SplitHostPort h = Inl (addrErr h ''missing port in address'')" by (simp add: SplitHostPort_def)
    have t: "TrimSpace h = h" using urlHost_visible [OF assms] by (intro TrimSpace_visible_all) (simp add: list_all_iff)
    have "isASCII h" using urlHost_visible [OF assms] by (fastforce simp: isASCII_def list_all_iff)
    then have "ToLower U h = CHR ''['' # map lowerChar name @ '']''" using ipv6(3) Nil by (simp add: ToLower_def lowerChar_def)
    with s t ipv6(4) Nil show ?thesis by (simp add: canonicalHost_def requestText_def)
  next
    case (Cons p ds)
    with urlHost_port [OF assms] have p: "p = CHR '':''" "CHR '':'' \<notin> set ds" "list_all isDigit ds" by auto
    then have l: "LastIndexByte h CHR '':'' = Some (Suc (Suc (length name)))"
      using LastIndexByte_append [of "CHR '':''" ds "CHR ''['' # name @ [CHR '']'']"] Cons ipv6(3) by simp
    have "CHR ''['' \<notin> set ds" "CHR '']'' \<notin> set ds" using p(3) by (auto simp: list_all_iff isDigit_def)
    with e l Cons p ipv6(3) urlHost_name [OF assms] have "SplitHostPort h = Inr (name, drop 1 port)" by (auto simp: SplitHostPort_def)
    with canonicalHost_urlHost [OF assms, of U] Cons show ?thesis by (simp add: requestText_def)
  qed
qed

lemma hostText_ascii:
  assumes "urlHost h name port"
  shows "isASCII (hostText name port)" "isASCII (requestText name port)"
    "map lowerChar (hostText name port) = hostText name port" "map lowerChar (requestText name port) = requestText name port"
proof -
  have v: "ord c < 128" "ord (lowerChar c) < 128" if "c \<in> set name \<union> set port" for c
    using urlHost_visible [OF assms, of c] that by (auto simp: lowerChar_def)
  then show "isASCII (hostText name port)" "isASCII (requestText name port)"
    by (auto simp: hostText_def requestText_def isASCII_def list_all_iff)
  have "map lowerChar port = port"
    using urlHost_port(1,2) [OF assms] by (cases port) (auto simp: list_all_iff lowerChar_digit lowerChar_sep map_idI)
  then show "map lowerChar (hostText name port) = hostText name port" "map lowerChar (requestText name port) = requestText name port"
    by (simp_all add: hostText_def requestText_def lowerChar_sep)
qed

lemma takeWhile_sep: "d \<notin> set s \<Longrightarrow> takeWhile (\<lambda>c. c \<noteq> d) (s @ d # t) = s \<and> dropWhile (\<lambda>c. c \<noteq> d) (s @ d # t) = d # t"
  by (induction s) auto

lemma hostRead_bracket:
  assumes "CHR '']'' \<notin> set s"
  shows "hostRead (CHR ''['' # s @ CHR '']'' # t) = (s, t)"
  using takeWhile_sep [OF assms, of t] by simp

lemma hostRead_hostText:
  assumes "urlHost h name port"
  shows "hostRead (hostText name port) = (map lowerChar name, if drop 1 port = [] then [] else port)"
  using assms
proof (cases rule: urlHost_cases)
  case plain
  then have n: "CHR '':'' \<notin> set (map lowerChar name)" "map lowerChar name \<noteq> []" using lowerChar_sep_in by auto
  have f: "hd (map lowerChar name) \<noteq> CHR ''[''"
    using urlHost_name [OF assms, of "hd name"] plain(3) lowerChar_sep [of "CHR ''[''" "hd name"] by (auto simp: list.map_sel(1))
  show ?thesis
  proof (cases "drop 1 port = []")
    case True
    with n f plain(3) show ?thesis by (cases "map lowerChar name") (auto simp: hostText_def)
  next
    case False
    with urlHost_port [OF assms] have p: "port = CHR '':'' # drop 1 port" "CHR '':'' \<notin> set (drop 1 port)" by auto
    have c: "count_list (map lowerChar name @ CHR '':'' # drop 1 port) CHR '':'' = 1"
      using n(1) p(2) by (simp add: count_notin)
    have h: "hostText name port = map lowerChar name @ CHR '':'' # drop 1 port" using False plain(4) p(1) by (simp add: hostText_def)
    have "hostRead (map lowerChar name @ CHR '':'' # drop 1 port) = (map lowerChar name, CHR '':'' # drop 1 port)"
      using c f n(2) takeWhile_sep [OF n(1), of "drop 1 port"] by (cases "map lowerChar name") auto
    with h p(1) False show ?thesis by simp
  qed
next
  case ipv6
  have c: "2 \<le> count_list (map lowerChar name) CHR '':''" using ipv6(1) by (simp add: ipv6Host_def count_lower)
  have b: "CHR '']'' \<notin> set (map lowerChar name)" "CHR ''['' \<notin> set (map lowerChar name)"
    using urlHost_name [OF assms] lowerChar_sep_in [of _ name] by auto
  show ?thesis
  proof (cases "drop 1 port = []")
    case True
    with c b show ?thesis by (cases "map lowerChar name") (auto simp: hostText_def)
  next
    case False
    with ipv6(4) hostRead_bracket [OF b(1)] show ?thesis by (simp add: hostText_def del: hostRead.simps)
  qed
qed

lemma hostText_requestText:
  assumes "urlHost h name port" "urlHost h' name' port'"
  shows "hostText name port = requestText name' port' \<longleftrightarrow>
           map lowerChar name = map lowerChar name' \<and> drop 1 port = drop 1 port' \<and> \<not> (ipv6Host name' \<and> port' = [])"
proof -
  have v6: "ipv6Host name' \<longleftrightarrow> CHR '':'' \<in> set name'"
  proof
    show "ipv6Host name' \<Longrightarrow> CHR '':'' \<in> set name'"
      by (rule ccontr) (use count_notin [of "CHR '':''" name'] in \<open>simp add: ipv6Host_def\<close>)
    show "CHR '':'' \<in> set name' \<Longrightarrow> ipv6Host name'" using assms(2) by (cases rule: urlHost_cases) auto
  qed
  show ?thesis
  proof (cases "CHR '':'' \<in> set name' \<and> port' = []")
    case True
    have b: "CHR '']'' \<notin> set (map lowerChar name')" using urlHost_name [OF assms(2)] lowerChar_sep_in [of _ name'] by auto
    have r: "requestText name' port' = CHR ''['' # map lowerChar name' @ CHR '']'' # []" using True by (simp add: requestText_def)
    have "hostText name port \<noteq> requestText name' port'"
    proof
      assume eq: "hostText name port = requestText name' port'"
      have "CHR ''['' \<notin> set (map lowerChar name)" using urlHost_name [OF assms(1)] lowerChar_sep_in [of _ name] by auto
      then have n: "\<not> startsWith ''['' (map lowerChar name @ xs)" if "name \<noteq> []" for xs
        using that by (cases name) (auto simp: startsWith_def)
      have "name \<noteq> []" using assms(1) by (cases rule: urlHost_cases) auto
      moreover have "startsWith ''['' (hostText name port)" unfolding eq r by (simp add: startsWith_def)
      ultimately have "drop 1 port \<noteq> []" using n [of "[]"] n [of port] by (auto simp: hostText_def split: if_splits)
      with hostRead_hostText [OF assms(1)] eq r hostRead_bracket [OF b, of "[]"] show False by (auto simp del: hostRead.simps)
    qed
    with True v6 show ?thesis by blast
  next
    case False
    then have r: "requestText name' port' = hostText name' port'" by (auto simp: requestText_def)
    have "map lowerChar name = map lowerChar name' \<and> drop 1 port = drop 1 port'" if "hostText name port = hostText name' port'"
      using hostRead_hostText [OF assms(1)] hostRead_hostText [OF assms(2)] that by (auto simp del: hostRead.simps split: if_splits)
    moreover have "hostText name port = hostText name' port'" if "map lowerChar name = map lowerChar name'" "drop 1 port = drop 1 port'"
    proof -
      have "CHR '':'' \<in> set name \<longleftrightarrow> CHR '':'' \<in> set name'"
        using that(1) lowerChar_sep_in [of "CHR '':''" name] lowerChar_sep_in [of "CHR '':''" name'] by auto
      then show ?thesis using that urlHost_port(1) [OF assms(1)] urlHost_port(1) [OF assms(2)] by (auto simp: hostText_def)
    qed
    ultimately show ?thesis using r False v6 by auto
  qed
qed

lemma null_origin: "url_Parse U ''null'' = Inr (emptyURL\<lparr>u_Path := ''null''\<rparr>)"
  by code_simp

lemma brokerCheckOrigin_Inr:
  assumes "TrimSpace (HeaderGet r ''Origin'') = origin" "origin \<noteq> []" "url_Parse U origin = Inr u"
    and "urlHost (rq_Host r) name' port'" "canonicalHost U (Hostname u) (url_Port u) = t" "isASCII t" "map lowerChar t = t"
  shows "brokerCheckOrigin U r \<longleftrightarrow> t = requestText name' port'"
proof -
  have "brokerCheckOrigin U r \<longleftrightarrow> EqualFold U t (requestText name' port')"
    using assms(1-3,5) request_host [OF assms(4), of U] by (simp add: brokerCheckOrigin_def case_prod_beta)
  with hostText_ascii [OF assms(4)] assms(6,7) show ?thesis by (simp add: EqualFold_def)
qed

lemma handleUpgrade_goes_on: "snd (snd (handleUpgrade R U b r now upgradeErr)) \<Longrightarrow> upgradeErr = None"
  by (auto simp: handleUpgrade_def Let_def split: prod.splits if_splits option.splits)

text \<open>
  (C8) The origin check: a browser names the page that opens a WebSocket by scheme, host and
  port, or by \<open>null\<close>.  For a request whose host is a name, an IPv4 address or an IPv6 address in
  brackets, with a port or without, the origin \<open>null\<close> is refused, and an \<open>http\<close> or \<open>https\<close> origin with
  such a host passes if and only if its host, whatever its case, and its port are those that the
  request itself names and the request does not name an IPv6 address without a port.  The last
  condition is a flaw, not a protection: one of the two texts compared keeps its brackets, so a
  page of such a broker is refused by its own broker.  As the WebSocket library refuses an upgrade
  that fails the check, the handler goes on for no page of another host or port.  The scheme is
  not compared.
\<close>

theorem cross_site_upgrades_refused:
  assumes "HeaderValues r ''Origin'' = origin # others" and "urlHost (rq_Host r) name' port'"
    and gorilla: "\<not> brokerCheckOrigin U r \<Longrightarrow> upgradeErr \<noteq> None"
  shows "(origin = ''null'' \<longrightarrow> \<not> brokerCheckOrigin U r \<and> \<not> snd (snd (handleUpgrade R U b r now upgradeErr)))
       \<and> (origin = sch @ ''://'' @ h \<and> sch \<in> {''http'', ''https''} \<and> urlHost h name port \<longrightarrow>
            (brokerCheckOrigin U r \<longleftrightarrow>
               map lowerChar name = map lowerChar name' \<and> drop 1 port = drop 1 port' \<and> \<not> (ipv6Host name' \<and> port' = []))
          \<and> (snd (snd (handleUpgrade R U b r now upgradeErr)) \<longrightarrow>
               map lowerChar name = map lowerChar name' \<and> drop 1 port = drop 1 port'))"
proof (intro conjI impI)
  have g: "HeaderGet r ''Origin'' = origin" using assms(1) by (simp add: HeaderGet_def)
  note up = handleUpgrade_goes_on [of R U b r now upgradeErr]
  {
    assume n: "origin = ''null''"
    have "name' \<noteq> []" using assms(2) by (cases rule: urlHost_cases) auto
    then have "requestText name' port' \<noteq> []" by (simp add: requestText_def hostText_def)
    moreover have "TrimSpace ''null'' = ''null''" by code_simp
    moreover have "canonicalHost U [] [] = []" by (simp add: canonicalHost_def ToLower_def isASCII_def)
    ultimately show no: "\<not> brokerCheckOrigin U r"
      using brokerCheckOrigin_Inr [where t = "[]", OF _ _ null_origin assms(2)] g n
      by (simp add: emptyURL_def Hostname_def url_Port_def splitHostPort_def isASCII_def)
    then show "\<not> snd (snd (handleUpgrade R U b r now upgradeErr))" using gorilla up by blast
  }
  assume o: "origin = sch @ ''://'' @ h \<and> sch \<in> {''http'', ''https''} \<and> urlHost h name port"
  then have h: "urlHost h name port" and sch: "sch \<in> {''http'', ''https'', ''ws'', ''wss''}" by auto
  let ?u = "emptyURL\<lparr>u_Scheme := sch, u_Host := h, u_Path := []\<rparr>"
  have p: "url_Parse U origin = Inr ?u" "TrimSpace origin = origin" "origin \<noteq> []"
    using url_Parse_broker [OF h sch, of "[]"] broker_visible [OF h sch, of "[]"] o by auto
  have "canonicalHost U (Hostname ?u) (url_Port ?u) = hostText name port"
    using Hostname_urlHost [OF h, of ?u] url_Port_urlHost [OF h, of ?u] canonicalHost_urlHost [OF h] by simp
  from brokerCheckOrigin_Inr [OF _ p(3,1) assms(2) this hostText_ascii(1,3) [OF h]] g p(2)
  show iff: "brokerCheckOrigin U r \<longleftrightarrow>
      map lowerChar name = map lowerChar name' \<and> drop 1 port = drop 1 port' \<and> \<not> (ipv6Host name' \<and> port' = [])"
    using hostText_requestText [OF h assms(2)] by simp
  assume "snd (snd (handleUpgrade R U b r now upgradeErr))"
  with up gorilla iff show "map lowerChar name = map lowerChar name'" "drop 1 port = drop 1 port'" by blast+
qed

text \<open>A page of another site, and a page of the broker itself, on an IPv6 address without a port.\<close>

theorem cross_site_upgrades_refused_witness:
  "\<not> brokerCheckOrigin idUnicode \<lparr>rq_RemoteAddr = ''192.0.2.1:9'', rq_Host = ''broker.example:8080'',
       rq_Header = (\<lambda>k. if k = ''Origin'' then [''https://evil.example''] else [])\<rparr>
   \<and> \<not> brokerCheckOrigin idUnicode \<lparr>rq_RemoteAddr = ''[::1]:4000'', rq_Host = ''[::1]'',
       rq_Header = (\<lambda>k. if k = ''Origin'' then [''http://[::1]''] else [])\<rparr>"
proof
  let ?e = "Some (errors_New ''origin'')"
  let ?r = "\<lparr>rq_RemoteAddr = ''192.0.2.1:9'', rq_Host = ''broker.example:8080'',
       rq_Header = (\<lambda>k. if k = ''Origin'' then [''https://evil.example''] else [])\<rparr>"
  have "HeaderValues ?r ''Origin'' = ''https://evil.example'' # []" by code_simp
  moreover have "urlHost (rq_Host ?r) ''broker.example'' '':8080''" "urlHost ''evil.example'' ''evil.example'' []"
    by (simp_all add: urlHost_def plainHost_def isAlnum_def isDigit_def)
  ultimately show "\<not> brokerCheckOrigin idUnicode ?r"
    using cross_site_upgrades_refused [where r = ?r and sch = "''https''" and h = "''evil.example''" and name = "''evil.example''"
      and port = "[]" and name' = "''broker.example''" and port' = "'':8080''" and U = idUnicode and upgradeErr = ?e]
    by auto
  let ?s = "\<lparr>rq_RemoteAddr = ''[::1]:4000'', rq_Host = ''[::1]'',
       rq_Header = (\<lambda>k. if k = ''Origin'' then [''http://[::1]''] else [])\<rparr>"
  have "HeaderValues ?s ''Origin'' = ''http://[::1]'' # []" "isIPv6Literal ''::1''" by code_simp+
  moreover from this(2) have v: "ipv6Host ''::1''" by (simp add: ipv6Host_def isAlnum_def isDigit_def)
  moreover from v have "urlHost (rq_Host ?s) ''::1'' []" "urlHost ''[::1]'' ''::1'' []"
    by (simp_all add: urlHost_def portText_def)
  ultimately show "\<not> brokerCheckOrigin idUnicode ?s"
    using cross_site_upgrades_refused [where r = ?s and sch = "''http''" and h = "''[::1]''" and name = "''::1''"
      and port = "[]" and name' = "''::1''" and port' = "[]" and U = idUnicode and upgradeErr = ?e]
    by auto
qed

section \<open>Shutdown\<close>

lemma closedConns_append [simp]: "closedConns (es @ fs) = closedConns es @ closedConns fs"
  by (simp add: closedConns_def)

lemma drain_closes_held:
  assumes "enumerates ids (b_sessions b)" "enumerates keys (b_waiting b)"
  shows "set (closedConns (Shutdown_drain ids keys b)) = p_conn ` holds b"
proof -
  have "c \<in> set (closedConns (Shutdown_drain ids keys b)) \<longleftrightarrow> CloseConn c \<in> set (Shutdown_drain ids keys b)" for c
    by (auto simp: closedConns_def split: effect.splits intro: bexI [of _ "CloseConn c"])
  moreover have "CloseConn c \<in> set (Shutdown_drain ids keys b) \<longleftrightarrow> c \<in> p_conn ` holds b" for c
    using assms by (auto simp: Shutdown_drain_def enumerates_def holds_def dom_def image_iff split: option.splits) metis+
  ultimately show ?thesis by blast
qed

lemma shutdownRun_append:
  "shutdownRun s (ls @ ls') = (case shutdownRun s ls of None \<Rightarrow> None | Some s' \<Rightarrow> shutdownRun s' ls')"
  by (induction ls arbitrary: s) (simp_all split: option.splits)

text \<open>What a run keeps: the stop signal, and once \<open>done\<close> is closed a drain of the broker as it stood.\<close>

definition drainedIn :: "('r, 'l) shutdown \<Rightarrow> ('r, 'l) slabel list \<Rightarrow> ('r, 'l) shutdown \<Rightarrow> bool" where
  "drainedIn s0 ls s \<longleftrightarrow>
     (\<exists>ls1 ids keys ls2 s1. ls = ls1 @ SDrain ids keys # ls2 \<and> shutdownRun s0 ls1 = Some s1 \<and> \<not> sd_janitor s1
        \<and> p_conn ` holds (sd_broker s1) \<subseteq> set (sd_closed s))"

lemma runJanitor_stopped: "runJanitor b e = Some (b', es, ret) \<Longrightarrow> b_stopped b' = b_stopped b"
  by (auto simp: runJanitor_def evictStale_def collectStale_def split: if_splits jevent.splits prod.splits)

lemma shutdownStep_keeps0:
  assumes "shutdownStep s l = Some s'" "b_stopped (sd_broker s)" "sd_result s = Some None \<longrightarrow> sd_done s"
  shows "b_stopped (sd_broker s') \<and> set (sd_closed s) \<subseteq> set (sd_closed s') \<and> (sd_result s' = Some None \<longrightarrow> sd_done s')
    \<and> (sd_done s' \<longrightarrow> sd_done s \<or> (\<exists>ids keys. l = SDrain ids keys \<and> \<not> sd_janitor s \<and> p_conn ` holds (sd_broker s) \<subseteq> set (sd_closed s')))"
proof (cases l)
  case (SJanitor e)
  with assms(1) obtain b es ret where "runJanitor (sd_broker s) e = Some (b, es, ret)"
      "s' = s\<lparr>sd_broker := b, sd_closed := sd_closed s @ closedConns es, sd_janitor := \<not> ret\<rparr>"
    by (auto split: if_splits)
  with assms(2,3) runJanitor_stopped [of "sd_broker s" e b es ret] show ?thesis by auto
next
  case (SDrain ids keys)
  with assms show ?thesis by (auto simp: drain_closes_held split: if_splits)
qed (use assms in \<open>auto split: if_splits\<close>)

lemmas shutdownStep_keeps = shutdownStep_keeps0 [THEN conjunct1] shutdownStep_keeps0 [THEN conjunct2, THEN conjunct1]
  shutdownStep_keeps0 [THEN conjunct2, THEN conjunct2, THEN conjunct1] shutdownStep_keeps0 [THEN conjunct2, THEN conjunct2, THEN conjunct2, rule_format]

lemma shutdownRun_keeps:
  assumes "shutdownRun (Shutdown b j) ls = Some s"
  shows "b_stopped (sd_broker s) \<and> (sd_result s = Some None \<longrightarrow> sd_done s) \<and> (sd_done s \<longrightarrow> drainedIn (Shutdown b j) ls s)"
  using assms
proof (induction ls arbitrary: s rule: rev_induct)
  case Nil
  then show ?case by (auto simp: Shutdown_def Shutdown_stop_def)
next
  case (snoc l ls)
  then obtain s1 where s1: "shutdownRun (Shutdown b j) ls = Some s1" "shutdownStep s1 l = Some s"
    by (auto simp: shutdownRun_append split: option.splits)
  note ih = snoc.IH [OF s1(1)] and st = shutdownStep_keeps [OF s1(2)]
  have "drainedIn (Shutdown b j) (ls @ [l]) s" if d: "sd_done s"
  proof (cases "sd_done s1")
    case True
    with ih obtain ls1 ids keys ls2 s2 where "ls = ls1 @ SDrain ids keys # ls2" "shutdownRun (Shutdown b j) ls1 = Some s2"
        "\<not> sd_janitor s2" "p_conn ` holds (sd_broker s2) \<subseteq> set (sd_closed s1)" by (auto simp: drainedIn_def)
    with st(2) ih show ?thesis unfolding drainedIn_def
      by (intro exI [of _ ls1] exI [of _ ids] exI [of _ keys] exI [of _ "ls2 @ [l]"] exI [of _ s2]) auto
  next
    case False
    with st(4) ih d obtain ids keys where "l = SDrain ids keys" "\<not> sd_janitor s1" "p_conn ` holds (sd_broker s1) \<subseteq> set (sd_closed s)"
      by blast
    with s1(1) show ?thesis unfolding drainedIn_def
      by (intro exI [of _ ls] exI [of _ ids] exI [of _ keys] exI [of _ "[]"] exI [of _ s1]) auto
  qed
  with st ih show ?case by blast
qed

text \<open>
  (C37) Shutting the broker down: whatever the handlers do meanwhile, while \<open>Shutdown\<close> has not returned at most
  three more steps of the janitor, of its goroutine and of itself let it return without an error; and it returns
  without an error only after the janitor has ended and the connection of every peer that the
  broker then held, waiting or in a session, was closed.
\<close>

theorem shutdown_completes:
  assumes "shutdownRun (Shutdown b j) ls = Some s"
    and "finite (dom (b_sessions (sd_broker s)))" "finite (dom (b_waiting (sd_broker s)))"
  shows "(sd_result s = None \<longrightarrow> (\<exists>ls' s'. length ls' \<le> 3 \<and> shutdownRun s ls' = Some s' \<and> sd_result s' = Some None))
       \<and> (sd_result s = Some None \<longrightarrow> drainedIn (Shutdown b j) ls s)"
proof -
  note k = shutdownRun_keeps [OF assms(1)]
  obtain ids keys where e: "enumerates ids (b_sessions (sd_broker s))" "enumerates keys (b_waiting (sd_broker s))"
    using assms(2,3) finite_distinct_list unfolding enumerates_def by metis
  have "\<exists>ls' s'. length ls' \<le> 3 \<and> shutdownRun s ls' = Some s' \<and> sd_result s' = Some None" if r: "sd_result s = None"
  proof -
    consider "sd_done s" | "\<not> sd_done s" "\<not> sd_janitor s" | "\<not> sd_done s" "sd_janitor s" by blast
    then show ?thesis
    proof cases
      case 1
      with r show ?thesis by (intro exI [of _ "[SSelectDone]"]) simp
    next
      case 2
      with r e show ?thesis by (intro exI [of _ "[SDrain ids keys, SSelectDone]"]) simp
    next
      case 3
      with k have "runJanitor (sd_broker s) JStop = Some (sd_broker s, [], True)" by (simp add: runJanitor_def)
      with 3 r e show ?thesis by (intro exI [of _ "[SJanitor JStop, SDrain ids keys, SSelectDone]"]) simp
    qed
  qed
  with k show ?thesis by blast
qed


theorem shutdown_completes_witness:
  "\<exists>ls' s'. length ls' \<le> 3 \<and> shutdownRun (Shutdown toyBroker2 True) ls' = Some s' \<and> sd_result s' = Some None"
proof -
  have "finite (dom (b_sessions toyBroker2))" "finite (dom (b_waiting toyBroker2))" by (simp_all add: toyBroker2)
  then have "finite (dom (b_sessions (sd_broker (Shutdown toyBroker2 True))))" "finite (dom (b_waiting (sd_broker (Shutdown toyBroker2 True))))"
    by (simp_all add: Shutdown_def Shutdown_stop_def)
  moreover have "sd_result (Shutdown toyBroker2 True) = None" by (simp add: Shutdown_def)
  ultimately show ?thesis using shutdown_completes [of toyBroker2 True "[]" "Shutdown toyBroker2 True"] by simp
qed

section \<open>Messages\<close>

text \<open>
  A well-typed message of the broker: its type is one a broker sends and exactly the payload of that type is there.
  It is discreet when its texts are among the fixed ones.
\<close>

definition wellTyped :: "message \<Rightarrow> bool" where
  "wellTyped m \<longleftrightarrow>
     ms_Type m \<in> {MessageTypeRegistered, MessageTypePaired, MessageTypeSignal, MessageTypeError, MessageTypePeerLeft, MessageTypePong}
   \<and> (ms_Registered m \<noteq> None \<longleftrightarrow> ms_Type m = MessageTypeRegistered) \<and> (ms_Paired m \<noteq> None \<longleftrightarrow> ms_Type m = MessageTypePaired)
   \<and> (ms_Signal m \<noteq> None \<longleftrightarrow> ms_Type m = MessageTypeSignal) \<and> (ms_Error m \<noteq> None \<longleftrightarrow> ms_Type m = MessageTypeError)
   \<and> (ms_PeerLeft m \<noteq> None \<longleftrightarrow> ms_Type m = MessageTypePeerLeft) \<and> (ms_Pong m \<noteq> None \<longleftrightarrow> ms_Type m = MessageTypePong)
   \<and> ms_Register m = None \<and> ms_Ping m = None"

definition discreet :: "message \<Rightarrow> bool" where
  "discreet m \<longleftrightarrow>
     (\<forall>e. ms_Error m = Some e \<longrightarrow> er_Message e = genericBrokerMessage (er_Code e) \<and> er_Message e \<noteq> ''broker error'')
   \<and> (\<forall>l. ms_PeerLeft m = Some l \<longrightarrow> pl_Reason l \<in> {''peer disconnected'', ''pair delivery failed''})"

fun effectMessages :: "effect list \<Rightarrow> message list" where
  "effectMessages [] = []"
| "effectMessages (Send p m # es) = m # effectMessages es"
| "effectMessages (SendConn c m # es) = m # effectMessages es"
| "effectMessages (GoDeliver sid p m # es) = m # effectMessages es"
| "effectMessages (_ # es) = effectMessages es"

abbreviation goodMessage :: "message \<Rightarrow> bool" where
  "goodMessage m \<equiv> wellTyped m \<and> discreet m"

lemma effectMessages_append [simp]: "effectMessages (es @ fs) = effectMessages es @ effectMessages fs"
  by (induction es rule: effectMessages.induct) simp_all

lemma writeEffects_from:
  "m \<in> set (writeEffects es out c) \<Longrightarrow> m \<in> set (effectMessages es) \<or> m \<in> set (out c)"
  by (induction es out rule: writeEffects.induct) (auto split: if_splits)

lemma spawned_from: "(sid, p, m) \<in> set (spawned es) \<Longrightarrow> m \<in> set (effectMessages es)"
  by (induction es rule: spawned.induct) auto

lemma good_simps [simp]:
  "goodMessage (brokerError code (genericBrokerMessage code)) = (genericBrokerMessage code \<noteq> ''broker error'')"
  "goodMessage (registeredMessage p)" "goodMessage (pairedMessage sid i mo)" "goodMessage (pongMessage m)"
  "goodMessage (Message ''signal''\<lparr>ms_Signal := Some sg\<rparr>)"
  "goodMessage (peerLeftMessage reason) = (reason \<in> {''peer disconnected'', ''pair delivery failed''})"
  by (auto simp: wellTyped_def discreet_def brokerError_def registeredMessage_def pairedMessage_def pongMessage_def peerLeftMessage_def Message_def)

lemma generic_codes [simp]:
  "genericBrokerMessage ''register-failed'' \<noteq> ''broker error''" "genericBrokerMessage ''pairing-failed'' \<noteq> ''broker error''"
  "genericBrokerMessage ''relay-failed'' \<noteq> ''broker error''" "genericBrokerMessage ''waiter-expired'' \<noteq> ''broker error''"
  "genericBrokerMessage ''session-expired'' \<noteq> ''broker error''"
  "goodMessage (brokerError ''invalid-signal'' ''signal payload is required'')"
  "goodMessage (brokerError ''unexpected-message'' ''only signal messages are allowed after registration'')"
  using good_simps(1) [of "''invalid-signal''"] good_simps(1) [of "''unexpected-message''"]
  by (simp_all add: genericBrokerMessage_def)

definition good :: "effect list \<Rightarrow> bool" where
  "good es \<longleftrightarrow> list_all goodMessage (effectMessages es)"

lemma good_unregisterPeer: "reason \<in> {''peer disconnected'', ''pair delivery failed''} \<Longrightarrow> good (snd (unregisterPeer ks b mp reason))"
  by (auto simp: unregisterPeer_def good_def split: option.splits prod.splits)

lemma good_tryPair: "tryPair b p rnd now = (b', es, e) \<Longrightarrow> good es"
  by (auto simp: tryPair_def good_def Let_def split: option.splits sum.splits if_splits)

lemma good_handleMessage: "handleMessage ks b p closeErr m relayErr = (es, ret) \<Longrightarrow> good es"
  by (auto simp: handleMessage_def relaySignal_def good_def split: option.splits sum.splits if_splits prod.splits)

lemma good_evictStale: "good (snd (evictStale keys ids lkeys now now' b))"
proof -
  have "good (concat (map evictWaiter ps))" "good (concat (map evictSession ss))" for ps ss
    by (induction ps; simp add: good_def evictWaiter_def) (induction ss; simp add: good_def evictSession_def)
  then show ?thesis by (simp add: evictStale_def good_def split: prod.splits)
qed

lemma good_deliverPaired: "goodMessage m \<Longrightarrow> good (snd (deliverPaired ks b sid p m err))"
  using good_unregisterPeer [of "''pair delivery failed''" ks b "Some p"]
  by (auto simp: deliverPaired_def good_def split: option.splits prod.splits)

lemma good_others:
  "good (handleRegisterFailed ip c err se)" "good [Send p (registeredMessage p)]" "good (pairingFailedEffects p err)"
  by (simp_all add: good_def handleRegisterFailed_def writeAndClose_def pairingFailedEffects_def split: option.splits)

lemma good_handlerExit: "good (snd (handlerExit ks b p))"
  using good_unregisterPeer [of "''peer disconnected''" ks b "Some p"] by (auto simp: handlerExit_def good_def split: prod.splits)

definition sysGood :: "('r, 'l) sys \<Rightarrow> bool" where
  "sysGood y \<longleftrightarrow> (\<forall>c. list_all goodMessage (y_out y c)) \<and> (\<forall>(sid, p, m) \<in> set (y_tasks y). goodMessage m)"

lemma sysGood_write: "good es \<Longrightarrow> \<forall>c. list_all goodMessage (out c) \<Longrightarrow> list_all goodMessage (writeEffects es out c)"
  unfolding good_def list_all_iff using writeEffects_from by blast

lemma sysGood_step:
  assumes "sys_step R U y y'" "sysGood y"
  shows "sysGood y'"
  using assms
proof (cases rule: sys_step.cases)
  case (deliver ts sid p m ts' ks err b' es)
  then have "goodMessage m" using assms(2) by (auto simp: sysGood_def)
  from good_deliverPaired [OF this, of ks "y_broker y" sid p err] deliver have "good es" by simp
  with deliver assms(2) show ?thesis by (auto simp: sysGood_def sysGood_write)
next
  case (pair c p rnd now b' es)
  have "\<forall>(sid, p, m) \<in> set (spawned es). goodMessage m"
    using good_tryPair [OF pair(4)] spawned_from unfolding good_def list_all_iff by blast
  with pair assms(2) show ?thesis by (auto simp: sysGood_def)
next
  case (exit c p ks b' es)
  from good_handlerExit [of ks "y_broker y" p] exit have "good es" by simp
  with exit assms(2) show ?thesis by (auto simp: sysGood_def sysGood_write)
next
  case (janitor keys ids lkeys now now' b' es)
  from good_evictStale [of keys ids lkeys now now' "y_broker y"] janitor have "good es" by simp
  with janitor assms(2) show ?thesis by (auto simp: sysGood_def sysGood_write)
next
  case (loop c p ks closeErr m relayErr es ret)
  with good_handleMessage [OF loop(4)] assms(2) show ?thesis by (auto simp: sysGood_def sysGood_write)
qed (use good_others sysGood_write in \<open>auto simp: sysGood_def\<close>)

text \<open>
  (C6) What the broker writes: in every reachable state every message written to any connection has a type that brokers
  send and exactly the payload of that type, and its error texts and departure reasons are
  fixed ones, so that no internal error text reaches a peer.
\<close>

theorem broker_messages_well_typed:
  assumes "sys_reach R U b y" "m \<in> set (y_out y c)"
  shows "wellTyped m \<and> discreet m"
proof -
  from assms(1) have "sysGood y"
  proof (induction rule: sys_reach.induct)
    case start
    then show ?case by (simp add: sysGood_def sys_init_def)
  next
    case (step y y')
    then show ?case by (blast intro: sysGood_step)
  qed
  with assms(2) show ?thesis by (auto simp: sysGood_def list_all_iff)
qed


theorem broker_messages_well_typed_witness:
  "wellTyped raceSignal \<and> discreet raceSignal
     \<and> (\<exists>b y. NewBroker openLib = Inr b \<and> sys_reach openLib raceU b y \<and> raceSignal \<in> set (y_out y 1))"
proof -
  obtain b where new: "NewBroker openLib = Inr b" using NewBroker_never_fails by blast
  then have "b_waiting b = Map.empty" "b_activeKey b = Map.empty" "b_sessions b = Map.empty"
    by (auto simp: NewBroker_def NewBrokerWithOptions_def Let_def split: sum.splits)
  from race_run [OF this] obtain y where y: "sys_reach openLib raceU b y" "raceSignal \<in> set (y_out y 1)" by fastforce
  with broker_messages_well_typed [OF y] new show ?thesis by blast
qed

section \<open>Keepalive\<close>

lemma readFrames_append: "readFrames w d fs = Inr d' \<Longrightarrow> readFrames w d (fs @ us) = readFrames w d' us"
  by (induction fs arbitrary: d) (auto split: if_splits)

lemma readFrames_pinged:
  assumes "\<forall>n \<le> N. x < arr n \<longrightarrow> (arr n, MessageFrame) \<in> set fs" "sorted (map fst fs)" "\<forall>t \<in> fst ` set fs. x \<le> t \<and> t \<le> arr N"
    and "arr 0 \<le> x + w" "\<forall>n. arr (Suc n) \<le> arr n + w" "0 \<le> w"
  shows "readFrames w (x + w) fs = Inr (last (x # refreshTimes fs) + w)"
  using assms(1-4)
proof (induction fs arbitrary: x)
  case (Cons tf fs)
  obtain t f where tf: "tf = (t, f)" by fastforce
  have "t \<le> x + w"
  proof (cases "t \<le> x")
    case False
    then have "x < arr N" using Cons.prems(3) tf by simp
    then obtain n where n: "n \<le> N" "x < arr n" "\<forall>m < n. arr m \<le> x"
      using exists_least_iff [of "\<lambda>n. x < arr n"] by (metis leI linorder_le_cases order_trans)
    have "arr n \<le> x + w"
    proof (cases n)
      case (Suc m)
      with n(3) assms(5) have "arr m \<le> x" "arr n \<le> arr m + w" by auto
      then show ?thesis by linarith
    qed (use Cons.prems(4) in simp)
    moreover have "(arr n, MessageFrame) \<in> set ((t, f) # fs)" using Cons.prems(1) n tf by blast
    then have "t \<le> arr n" using Cons.prems(2) tf by (auto simp: image_iff)
    ultimately show ?thesis by linarith
  qed (use assms(6) in simp)
  moreover have "readFrames w (readFrame w (x + w) tf) fs = Inr (last (x # refreshTimes (tf # fs)) + w)"
  proof (cases "f = PingFrame")
    case True
    then have "(arr n, MessageFrame) \<in> set fs" if "n \<le> N" "x < arr n" for n
      using Cons.prems(1) that tf by auto
    then have "readFrames w (x + w) fs = Inr (last (x # refreshTimes fs) + w)"
      by (intro Cons.IH) (use Cons.prems in auto)
    with True tf show ?thesis by (simp add: refreshTimes_def)
  next
    case False
    have "readFrames w (t + w) fs = Inr (last (t # refreshTimes fs) + w)"
    proof (rule Cons.IH)
      show "\<forall>n \<le> N. t < arr n \<longrightarrow> (arr n, MessageFrame) \<in> set fs"
        using Cons.prems(1,3) tf by fastforce
      show "arr 0 \<le> t + w" using Cons.prems(3,4) tf by fastforce
    qed (use Cons.prems tf in auto)
    moreover have "readFrame w (x + w) tf = t + w" using False tf by (cases f) (simp_all add: pongHandler_def postReadRefresh_def)
    ultimately show ?thesis using False tf by (simp add: refreshTimes_def)
  qed
  ultimately show ?case using tf by simp
qed (simp add: refreshTimes_def)

text \<open>
  (C38) The keepalive intervals fit together.  The client sends an application ping every
  \<open>appPingInterval\<close>, which the broker answers.  On either side, whatever other frames arrive,
  WebSocket pings that do not move the deadline among them: while these messages take at most \<open>45\<close>
  seconds to arrive, however much their delays vary, the read deadline is never reached and stands
  a minute after the last message or pong; and a connection on which neither comes any more is
  given up at that deadline, whatever frame comes after it.
\<close>

theorem keepalive_sound:
  assumes "pongWait \<in> {broker_wsPongWait, wsPongWait}"
    and "dialed \<le> start" "sorted (map fst fs)"
    and "\<forall>t \<in> fst ` set fs. start \<le> t \<and> t \<le> dialed + int N * appPingInterval + delay N"
    and "\<forall>n \<le> N. start < dialed + int n * appPingInterval + delay n
            \<longrightarrow> (dialed + int n * appPingInterval + delay n, MessageFrame) \<in> set fs"
    and "\<forall>n. 0 \<le> delay n \<and> delay n \<le> 45 * second"
  shows "readFrames pongWait (start + pongWait) fs = Inr (last (start # refreshTimes fs) + pongWait)
       \<and> (\<forall>late f. late > last (start # refreshTimes fs) + 60 * second \<longrightarrow>
            readFrames pongWait (start + pongWait) (fs @ [(late, f)]) = Inl (last (start # refreshTimes fs) + 60 * second))"
proof -
  have w: "pongWait = 60 * second" using assms(1) by (auto simp: broker_wsPongWait_def wsPongWait_def)
  let ?arr = "\<lambda>n. dialed + int n * appPingInterval + delay n"
  have "?arr (Suc n) \<le> ?arr n + pongWait" for n
    using assms(6) [rule_format, of n] assms(6) [rule_format, of "Suc n"] by (simp add: w appPingInterval_def second_def algebra_simps)
  moreover have "?arr 0 \<le> start + pongWait" using assms(2) assms(6) [rule_format, of 0] by (simp add: w second_def)
  ultimately have r: "readFrames pongWait (start + pongWait) fs = Inr (last (start # refreshTimes fs) + pongWait)"
    by (intro readFrames_pinged [where arr = ?arr and N = N]) (use assms(3-5) in \<open>auto simp: w second_def\<close>)
  then show ?thesis using readFrames_append [OF r] by (simp add: w)
qed

theorem keepalive_sound_witness:
  "readFrames broker_wsPongWait (5 * second + broker_wsPongWait)
     [(16 * second, MessageFrame), (40 * second, PongFrame), (50 * second, PingFrame), (75 * second, MessageFrame)] = Inr (135 * second)"
proof -
  let ?fs = "[(16 * second, MessageFrame), (40 * second, PongFrame), (50 * second, PingFrame), (75 * second, MessageFrame)]"
  define delay :: "nat \<Rightarrow> time" where "delay n = (if n = 1 then second else if n = 2 then 45 * second else if n = 3 then 30 * second else if n = 4 then 15 * second else if n = 5 then 0 else 0)" for n
  have e: "n = 0 \<or> n = 1 \<or> n = 2 \<or> n = 3 \<or> n = 4 \<or> n = 5" if "n \<le> 5" for n :: nat using that by linarith
  have "readFrames broker_wsPongWait (5 * second + broker_wsPongWait) ?fs
      = Inr (last (5 * second # refreshTimes ?fs) + broker_wsPongWait)"
  proof (rule keepalive_sound [where dialed = 0 and N = 5 and delay = delay, THEN conjunct1])
    show "\<forall>n \<le> 5. 5 * second < 0 + int n * appPingInterval + delay n
        \<longrightarrow> (0 + int n * appPingInterval + delay n, MessageFrame) \<in> set ?fs"
      using e by (auto simp: delay_def appPingInterval_def second_def)
  qed (auto simp: delay_def second_def appPingInterval_def)
  then show ?thesis by (simp add: broker_wsPongWait_def refreshTimes_def)
qed

end
