(* ===== verification/BrokerMain.thy ===== *)
theory BrokerMain
  imports BrokerServe Logx Terminal
begin

text \<open>
  The broker program \<^verbatim>\<open>cmd/rtc2tcp-broker/main.go\<close>: its flags, the broker they configure, the lines it
  logs, and the order of its shutdown.  The HTTP server is outside: what \<open>ListenAndServe\<close> and its \<open>Shutdown\<close> return
  are arguments.
\<close>

section \<open>Definitions\<close>

definition brokerTool :: string where
  "brokerTool = ''rtc2tcp-broker''"

subsection \<open>Flags\<close>

record brokerFlags =
  bf_listen :: string
  bf_trustedProxies :: string
  bf_trustedProxyHeader :: string
  bf_ratePerMinute :: int
  bf_rateBurst :: int
  bf_versionOnly :: bool
  bf_quiet :: bool
  bf_silent :: bool
  bf_noColor :: bool

definition defaultBrokerFlags :: brokerFlags where
  "defaultBrokerFlags =
     \<lparr>bf_listen = '':8080'', bf_trustedProxies = [], bf_trustedProxyHeader = ''X-Forwarded-For'',
      bf_ratePerMinute = DefaultUpgradeRatePerMinute, bf_rateBurst = DefaultUpgradeBurst,
      bf_versionOnly = False, bf_quiet = False, bf_silent = False, bf_noColor = False\<rparr>"

definition brokerFlagKind :: "string \<Rightarrow> flagKind option" where
  "brokerFlagKind name =
     (if name \<in> {''listen'', ''trusted-proxies'', ''trusted-proxy-header''} then Some FlagString
      else if name \<in> {''rate-limit-per-minute'', ''rate-limit-burst''} then Some FlagInt
      else if name \<in> {''version'', ''quiet'', ''silent'', ''no-color'', ''V'', ''q''} then Some FlagBool
      else None)"

definition setBrokerValue :: "string \<Rightarrow> string \<Rightarrow> brokerFlags \<Rightarrow> brokerFlags" where
  "setBrokerValue name v f =
     (if name = ''listen'' then f\<lparr>bf_listen := v\<rparr>
      else if name = ''trusted-proxies'' then f\<lparr>bf_trustedProxies := v\<rparr>
      else if name = ''trusted-proxy-header'' then f\<lparr>bf_trustedProxyHeader := v\<rparr>
      else (case ParseInt0 v of
        None \<Rightarrow> f
      | Some n \<Rightarrow>
          if name = ''rate-limit-per-minute'' then f\<lparr>bf_ratePerMinute := n\<rparr>
          else if name = ''rate-limit-burst'' then f\<lparr>bf_rateBurst := n\<rparr>
          else f))"

definition setBrokerBool :: "string \<Rightarrow> bool \<Rightarrow> brokerFlags \<Rightarrow> brokerFlags" where
  "setBrokerBool name b f =
     (if name = ''version'' \<or> name = ''V'' then f\<lparr>bf_versionOnly := b\<rparr>
      else if name = ''quiet'' \<or> name = ''q'' then f\<lparr>bf_quiet := b\<rparr>
      else if name = ''silent'' then f\<lparr>bf_silent := b\<rparr>
      else if name = ''no-color'' then f\<lparr>bf_noColor := b\<rparr>
      else f)"

definition brokerOptionsOf :: "brokerFlags \<Rightarrow> broker_options" where
  "brokerOptionsOf f =
     \<lparr>bo_TrustedProxies = (if bf_trustedProxies f \<noteq> [] then [bf_trustedProxies f] else []),
      bo_TrustedProxyHeader = bf_trustedProxyHeader f, bo_RatePerMinute = bf_ratePerMinute f, bo_RateBurst = bf_rateBurst f\<rparr>"

subsection \<open>Start\<close>

text \<open>How \<open>main\<close> goes on: it exits, prints its version, or serves; with the banner it has printed.\<close>

datatype ('r, 'l) brokerStart =
    BrokerExit nat "gerror option"
  | BrokerVersion string
  | BrokerServe brokerFlags "('r, 'l) broker"

definition broker_main :: "('r, 'l) rate_lib \<Rightarrow> BuildInfo \<Rightarrow> string list \<Rightarrow> ('r, 'l) brokerStart" where
  "broker_main R build args =
     (case flag_Parse brokerFlagKind setBrokerValue setBrokerBool defaultBrokerFlags args of
        (_, Inl err) \<Rightarrow> BrokerExit 2 None
      | (f, Inr rest) \<Rightarrow>
          if bf_versionOnly f then BrokerVersion (banner_VersionLine brokerTool build)
          else (case NewBrokerWithOptions R (brokerOptionsOf f) of
             Inl err \<Rightarrow> BrokerExit 2 (Some err)
           | Inr broker \<Rightarrow> BrokerServe f broker))"

definition brokerBanner :: "(string \<Rightarrow> string option) \<Rightarrow> bool res option \<Rightarrow> BuildInfo \<Rightarrow> brokerFlags \<Rightarrow> string" where
  "brokerBanner env stderr build f =
     banner_Print env stderr \<lparr>bn_Quiet = (bf_quiet f \<or> bf_silent f), bn_NoColor = bf_noColor f, bn_Build = build,
                               bn_Tool = brokerTool, bn_Role = []\<rparr>"

subsection \<open>Serving and shutdown\<close>

definition FormatInt :: "int \<Rightarrow> string" where
  "FormatInt i = (if i < 0 then CHR ''-'' # FormatNat (nat (- i)) else FormatNat (nat i))"

definition listeningLine :: "(nat \<Rightarrow> bool) \<Rightarrow> BuildInfo \<Rightarrow> brokerFlags \<Rightarrow> string" where
  "listeningLine table build f =
     FormatEvent table ''listening''
       [''addr'', bf_listen f, ''version'', bi_Version build, ''commit'', bi_Commit build,
        ''trusted_proxies'', bf_trustedProxies f, ''trusted_proxy_header'', bf_trustedProxyHeader f,
        ''rate_per_minute'', FormatInt (bf_ratePerMinute f), ''rate_burst'', FormatInt (bf_rateBurst f)]"

definition http_ErrServerClosed :: gerror where
  "http_ErrServerClosed = Sentinel ''http.ErrServerClosed''"

text \<open>The goroutine that listens: its line, and the line it ends the process with when \<open>ListenAndServe\<close> fails.\<close>

definition listenGoroutine ::
  "(gerror \<Rightarrow> string) \<Rightarrow> (nat \<Rightarrow> bool) \<Rightarrow> BuildInfo \<Rightarrow> brokerFlags \<Rightarrow> gerror option \<Rightarrow> string \<times> string option" where
  "listenGoroutine errText table build f serveErr =
     (listeningLine table build f,
      case serveErr of
        None \<Rightarrow> None
      | Some err \<Rightarrow> if err \<noteq> http_ErrServerClosed then Some (FormatEvent table ''listen_failed'' [''err'', errText err]) else None)"

text \<open>
  After a signal: the HTTP server stops taking connections, then the broker shuts down.  The lines logged and the broker's
  shutdown as it begins.
\<close>

definition onTerminate ::
  "(gerror \<Rightarrow> string) \<Rightarrow> (nat \<Rightarrow> bool) \<Rightarrow> ('r, 'l) broker \<Rightarrow> gerror option \<Rightarrow> string list \<times> ('r, 'l) shutdown" where
  "onTerminate errText table b httpErr =
     ((case httpErr of None \<Rightarrow> [] | Some err \<Rightarrow> [FormatEvent table ''http_shutdown_failed'' [''err'', errText err]]), Shutdown b True)"

definition afterShutdown :: "(gerror \<Rightarrow> string) \<Rightarrow> (nat \<Rightarrow> bool) \<Rightarrow> gerror option \<Rightarrow> string list" where
  "afterShutdown errText table res =
     (case res of None \<Rightarrow> [] | Some err \<Rightarrow> [FormatEvent table ''shutdown_failed'' [''err'', errText err]])"

section \<open>Specifications\<close>

text \<open>A command line that gives every setting.\<close>

definition brokerArgs :: "string \<Rightarrow> string \<Rightarrow> string \<Rightarrow> int \<Rightarrow> int \<Rightarrow> string list" where
  "brokerArgs listen proxies header rpm burst =
     [''--listen='' @ listen, ''--trusted-proxies='' @ proxies, ''--trusted-proxy-header='' @ header,
      ''--rate-limit-per-minute='' @ FormatInt rpm, ''--rate-limit-burst='' @ FormatInt burst]"

section \<open>Integer flags\<close>

lemma foldl_digits_mono: "n \<le> foldl (\<lambda>n c. 10 * n + (ord c - 48)) n ds"
proof (induction ds arbitrary: n)
  case (Cons c cs)
  from Cons [of "10 * n + (ord c - 48)"] show ?case by simp
qed simp

lemma parseDigits_decimal:
  "list_all isDigit ds \<Longrightarrow> foldl (\<lambda>n c. 10 * n + (ord c - 48)) n ds < 2 ^ 64 \<Longrightarrow>
     parseDigits 10 n ds = Some (foldl (\<lambda>n c. 10 * n + (ord c - 48)) n ds)"
proof (induction ds arbitrary: n)
  case (Cons c cs)
  let ?m = "10 * n + (ord c - 48)"
  from Cons.prems have d: "isDigit c" by simp
  then have "c \<noteq> CHR ''_''" "digitOf c = Some (ord c - 48)" "ord c - 48 < 10" by (auto simp: digitOf_def isDigit_def)
  moreover have "?m < 2 ^ 64" using foldl_digits_mono [of ?m cs] Cons.prems(2) by simp
  ultimately show ?case using Cons.IH [of ?m] Cons.prems by (simp add: mult.commute)
qed simp

lemma FormatNat_no_lead: "0 < n \<Longrightarrow> hd (FormatNat n) \<noteq> CHR ''0''"
proof (induction n rule: FormatNat.induct)
  case (1 n)
  show ?case
  proof (cases "n < 10")
    case True
    then have "ord (digitChar n) = 48 + n" by (simp add: digitChar_def)
    then have "digitChar n \<noteq> CHR ''0''" using 1(2) by auto
    then show ?thesis using True by (subst FormatNat.simps) simp
  next
    case False
    with 1 have "hd (FormatNat (n div 10)) \<noteq> CHR ''0''" by simp
    with False show ?thesis by (subst FormatNat.simps) simp
  qed
qed

lemma ParseUint0_FormatNat:
  assumes "n < 2 ^ 64"
  shows "ParseUint0 (FormatNat n) = Some n"
proof (cases "n = 0")
  case True
  have "FormatNat 0 = ''0''" by code_simp
  with True show ?thesis by (simp add: ParseUint0_def splitBase_def)
next
  case False
  then have "splitBase (FormatNat n) = (10, FormatNat n)"
    using FormatNat_no_lead [of n] by (auto simp: splitBase_def split: list.splits)
  moreover have "parseDigits 10 0 (FormatNat n) = Some n"
    using parseDigits_decimal [OF FormatNat_digits, of 0 n] digitsVal_FormatNat [of n] assms by (simp add: digitsVal_def)
  moreover have "CHR ''_'' \<notin> set (FormatNat n)" using FormatNat_digits [of n] by (auto simp: list_all_iff isDigit_def)
  ultimately show ?thesis by (simp add: ParseUint0_def)
qed

lemma FormatNat_unsigned: "hd (FormatNat n) \<noteq> CHR ''-''" "hd (FormatNat n) \<noteq> CHR ''+''"
proof -
  have "isDigit (hd (FormatNat n))" using FormatNat_digits [of n] by (simp add: list_all_iff)
  then show "hd (FormatNat n) \<noteq> CHR ''-''" "hd (FormatNat n) \<noteq> CHR ''+''" by (auto simp: isDigit_def)
qed

lemma ParseInt0_FormatInt:
  assumes "- (2 ^ 63) \<le> i" "i < 2 ^ 63"
  shows "ParseInt0 (FormatInt i) = Some i"
proof (cases "i < 0")
  case True
  then have "ParseUint0 (FormatNat (nat (- i))) = Some (nat (- i))" "\<not> 2 ^ 63 < nat (- i)"
    using assms(1) by (auto intro!: ParseUint0_FormatNat simp: nat_less_iff)
  with True show ?thesis by (simp add: ParseInt0_def FormatInt_def)
next
  case False
  then have "ParseUint0 (FormatNat (nat i)) = Some (nat i)" "\<not> 2 ^ 63 \<le> nat i"
    using assms(2) by (auto intro!: ParseUint0_FormatNat simp: nat_less_iff)
  with False show ?thesis by (simp add: ParseInt0_def FormatInt_def FormatNat_unsigned)
qed

section \<open>The command line\<close>

lemma flag_Parse_attached:
  assumes "name \<noteq> []" "hd name \<noteq> CHR ''-''" "CHR ''='' \<notin> set name" "formal name = Some k" "k \<noteq> FlagBool" "valueOK k v"
  shows "flag_Parse formal setS setB st ((''--'' @ name @ CHR ''='' # v) # args) = flag_Parse formal setS setB (setS name v st) args"
proof -
  let ?s = "''--'' @ name @ CHR ''='' # v"
  have n: "flagName ?s = name @ CHR ''='' # v" by (simp add: flagName_def)
  have "?s \<noteq> ''--''" "\<not> length ?s < 2" "?s ! 0 = CHR ''-''" "name @ CHR ''='' # v \<noteq> []" by simp_all
  moreover have "hd (name @ CHR ''='' # v) \<noteq> CHR ''-''" "hd (name @ CHR ''='' # v) \<noteq> CHR ''=''"
    using assms(1-3) by (auto simp: hd_append) (metis hd_in_set)
  ultimately show ?thesis
    unfolding flag_Parse.simps n CutByte_append [OF assms(3)] using assms(4-6) by (cases k) simp_all
qed

text \<open>
  (C36) The broker runs with what its command line says: for any listen address, proxy list and header, and any rates
  that are 64-bit integers, given as flags, the program serves on that address a new broker that
  trusts exactly the listed proxies and limits by those rates, or by the defaults where
  they are not positive; it exits with status 2 exactly when the proxy list does not parse.  When
  the list is empty no request header can change the address that a client is limited by.
\<close>

theorem broker_runs_as_told:
  assumes "- (2 ^ 63) \<le> rpm" "rpm < 2 ^ 63" "- (2 ^ 63) \<le> burst" "burst < 2 ^ 63"
  shows "case ParseTrustedProxies proxies of
      Inl err \<Rightarrow> broker_main R build (brokerArgs listen proxies header rpm burst) = BrokerExit 2 (Some err)
    | Inr nets \<Rightarrow> (\<exists>f b. broker_main R build (brokerArgs listen proxies header rpm burst) = BrokerServe f b \<and> bf_listen f = listen \<and> \<not> bf_quiet f \<and> \<not> bf_silent f
          \<and> b_trustedProxies b = nets \<and> b_waiting b = Map.empty \<and> b_sessions b = Map.empty \<and> b_activeKey b = Map.empty
          \<and> b_ipLimiter b = newKeyedLimiter (rt_Every R (minute div (if rpm \<le> 0 then 30 else rpm))) (if burst \<le> 0 then 10 else burst)
          \<and> (nets = [] \<longrightarrow> (\<forall>U r. clientIP U r (b_trustedProxies b) (b_trustedProxyHeader b) = remoteIP r))
          \<and> (nets \<noteq> [] \<longrightarrow> b_trustedProxyHeader b = (if TrimSpace header = [] then ''X-Forwarded-For'' else TrimSpace header)))"
proof -
  let ?f = "defaultBrokerFlags\<lparr>bf_listen := listen, bf_trustedProxies := proxies, bf_trustedProxyHeader := header,
      bf_ratePerMinute := rpm, bf_rateBurst := burst\<rparr>"
  have i: "ParseInt0 (FormatInt rpm) = Some rpm" "ParseInt0 (FormatInt burst) = Some burst"
    using assms by (simp_all add: ParseInt0_FormatInt)
  have "flag_Parse brokerFlagKind setBrokerValue setBrokerBool defaultBrokerFlags (brokerArgs listen proxies header rpm burst) = (?f, Inr [])"
    unfolding brokerArgs_def
    using flag_Parse_attached [of "''listen''" brokerFlagKind FlagString listen setBrokerValue setBrokerBool]
      flag_Parse_attached [of "''trusted-proxies''" brokerFlagKind FlagString proxies setBrokerValue setBrokerBool]
      flag_Parse_attached [of "''trusted-proxy-header''" brokerFlagKind FlagString header setBrokerValue setBrokerBool]
      flag_Parse_attached [of "''rate-limit-per-minute''" brokerFlagKind FlagInt "FormatInt rpm" setBrokerValue setBrokerBool]
      flag_Parse_attached [of "''rate-limit-burst''" brokerFlagKind FlagInt "FormatInt burst" setBrokerValue setBrokerBool]
    by (simp add: brokerFlagKind_def setBrokerValue_def i del: flag_Parse.simps(2))
  moreover have "JoinWith (bo_TrustedProxies (brokerOptionsOf ?f)) '','' = proxies" by (simp add: brokerOptionsOf_def)
  moreover have "\<not> bf_versionOnly ?f" by (simp add: defaultBrokerFlags_def)
  ultimately show ?thesis
    by (auto simp: broker_main_def NewBrokerWithOptions_def Let_def brokerOptionsOf_def defaultBrokerFlags_def clientIP_def
        DefaultUpgradeRatePerMinute_def DefaultUpgradeBurst_def split: sum.splits)
qed


theorem broker_runs_as_told_witness:
  "\<exists>f b. broker_main openLib sourceBuild (brokerArgs '':9000'' '' '' ''X-Real-IP'' 60 0) = BrokerServe f b \<and> bf_listen f = '':9000''
     \<and> b_trustedProxies b = [] \<and> (\<forall>U r. clientIP U r (b_trustedProxies b) (b_trustedProxyHeader b) = remoteIP r)"
proof -
  have "ParseTrustedProxies '' '' = Inr []" by code_simp
  then show ?thesis
    using broker_runs_as_told [where rpm = 60 and burst = 0 and proxies = "'' ''" and R = openLib and build = sourceBuild
      and listen = "'':9000''" and header = "''X-Real-IP''"] by auto
qed

end
