(* ===== verification/Spec2Isabelle.thy ===== *)
theory Spec2Isabelle
  imports StateMachine Config AuthProofs BrokerRelay SessionProofs Tunnel Socks5 Connection Client PeerProofs PeerFlags Logx BrokerServe Terminal BrokerMain
begin

text \<open>
  \<^bold>\<open>A verification library for rtc2tcp.\<close>

  rtc2tcp tunnels TCP connections over a WebRTC data channel between two peers.  Both peers register
  with a rendezvous broker (\<^verbatim>\<open>internal/rendezvous\<close>), which pairs one exposing and one connecting peer by
  a token and relays their signaling.  Each peer (\<^verbatim>\<open>cmd/rtc2tcp-peer\<close>) talks to the broker through a
  client (\<^verbatim>\<open>internal/signaling\<close>), runs a WebRTC session (\<^verbatim>\<open>internal/webrtc\<close>) whose control channel
  carries a password-authenticated key exchange (\<^verbatim>\<open>internal/auth\<close>), and, once authenticated, bridges
  TCP connections to data channels (\<^verbatim>\<open>internal/tunnel\<close>), optionally behind a SOCKS5 server
  (\<^verbatim>\<open>internal/socks5\<close>).  Options, credentials and connection strings are in \<^verbatim>\<open>internal/config\<close>; log lines,
  colours and the banner in \<^verbatim>\<open>internal/logx\<close>, \<^verbatim>\<open>internal/color\<close> and \<^verbatim>\<open>internal/banner\<close>.

  \<^bold>\<open>Theories.\<close>
  \<^item> \<open>Prelude\<close>, \<open>GoStrings\<close>, \<open>GoBase64\<close>, \<open>GoNet\<close>, \<open>GoSha256\<close>, \<open>GoUrl\<close>, \<open>GoQuote\<close>, \<open>GoFlag\<close>: Go errors as
    values, and the functions of the Go library the sources call.  Strings are byte strings; the Unicode
    tables behind \<open>ToUpper\<close>, \<open>ToLower\<close> and \<open>EqualFold\<close> are a parameter, used for non-ASCII strings only.
  \<^item> \<open>Config\<close> and \<open>Connection\<close>: \<^verbatim>\<open>internal/config\<close> (modes, address policy, credential resolution,
    connection strings, fresh tokens).
  \<^item> \<open>Auth\<close>, \<open>AuthProofs\<close>: \<^verbatim>\<open>internal/auth/auth.go\<close>; the group, Argon2id, HKDF and the random source
    are a record of functions, with their documented laws as hypotheses of the agreement theorem.
  \<^item> \<open>StateMachine\<close>: \<^verbatim>\<open>internal/webrtc/state.go\<close>.
  \<^item> \<open>Session\<close>, \<open>SessionProofs\<close>: \<^verbatim>\<open>internal/webrtc/session.go\<close>.  Methods and callbacks are functions
    on the session with the effects they have on the WebRTC stack; a run is any sequence of them.
    The locale \<open>auth_contract\<close> states what the session relies on of an authenticator.
  \<^item> \<open>Tunnel\<close>: \<^verbatim>\<open>internal/tunnel/bridge.go\<close>, the callbacks and the reader goroutine as labelled steps.
  \<^item> \<open>Socks5\<close>: \<^verbatim>\<open>internal/socks5/socks5.go\<close>.
  \<^item> \<open>SignalTypes\<close>, \<open>Client\<close>: \<^verbatim>\<open>internal/signaling\<close>, messages and the broker client with its goroutines.
  \<^item> \<open>Limiter\<close>, \<open>Proxy\<close>, \<open>Broker\<close>, \<open>BrokerProofs\<close>, \<open>BrokerSystem\<close>, \<open>BrokerRelay\<close>: \<^verbatim>\<open>internal/rendezvous\<close>.
    \<open>Broker\<close> has the critical sections as functions on the broker's maps; \<open>BrokerSystem\<close> composes them
    into every interleaving of connection handlers, delivery goroutines and the janitor, and
    \<open>BrokerRelay\<close> follows the signals through them.  The locale
    \<open>keyed_admission\<close> states what the broker relies on of its rate limiter, \<open>peer_registry\<close> what any
    registry with join, leave and sweep keeps.
  \<^item> \<open>BrokerServe\<close>: the rest of \<^verbatim>\<open>broker.go\<close>: routes and origin check, write path, read deadline and keepalive,
    the janitor goroutine, and \<open>Shutdown\<close> with what runs beside it.
  \<^item> \<open>PeerMain\<close>, \<open>PeerProofs\<close>: \<open>runPeer\<close> of \<^verbatim>\<open>cmd/rtc2tcp-peer/main.go\<close> with its event loop, listeners, SOCKS5
    handlers and streams, as steps in any interleaving over \<open>Session\<close>, \<open>Client\<close> and \<open>Socks5\<close>.
  \<^item> \<open>PeerFlags\<close>: the command line of the peer, from subcommand to options.
  \<^item> \<open>BrokerMain\<close>: \<^verbatim>\<open>cmd/rtc2tcp-broker/main.go\<close>, from the command line to the serving broker and its shutdown.
  \<^item> \<open>Logx\<close>: \<^verbatim>\<open>internal/logx/event.go\<close> and \<open>FormatEvent\<close>.
  \<^item> \<open>Terminal\<close>: colours, banner, build information, the peer's texts, terminal echo and exit.

  \<^bold>\<open>What is shown.\<close>  The broker's maps stay coherent in every interleaving, pairing joins opposite
  roles, signals go to the partner only, in order and complete, departures and evictions forget exactly whom they should;
  a client cannot choose its rate-limit key, behind trusted proxies either.  Honest peers with the same secret agree on a key;
  success of a step is equivalent to the checks of the protocol; transcripts and generator inputs
  are injective; the responder's keys are those written out in \<^verbatim>\<open>PROTOCOL.md\<close>; an authenticator
  takes the edges of the documented diagram, the initiator two of them in one step, and is used
  once; reflected messages are refused.  A session hands out payload channels only after authentication, publishes one result,
  tears down once, and passes remote candidates on once and in order.  A bridge forwards bytes in
  order, bounds its send queue, loses no wake-up, closes both ends together and lets its reader
  return.  The SOCKS5 handshake accepts exactly the wire format.  Connection strings round-trip
  exactly for credentials without plus and percent signs.  The broker client never uses clear text
  to a remote host, delivers events faithfully and with at most one error of its own, and \<open>Close\<close> returns under every
  schedule.  The broker refuses pages of other hosts and ports, writes only well-typed messages with fixed texts, keeps idle connections of live
  peers, gives up silent ones, and shuts down after closing every connection it holds.  The peer
  program drives one session, tunnels only after authentication, releases its connections once,
  survives the loss of the broker, and dials exactly what the SOCKS5 client asked for; what
  \<open>expose\<close> prints gives \<open>connect\<close> the same credentials and broker host, and the same address to
  dial when the scheme is the one the parser infers.  Flags, connection string and environment
  count in a fixed order.  The broker program runs with what its flags say.
  Log lines determine their fields and cannot be broken by values, though the control characters
  \<open>U+0080\<close> to \<open>U+009F\<close> are not quoted.  Colours are decoration, and
  the terminal is given back as it was.

  \<^bold>\<open>Bounds.\<close>  No definition needs fuel except the loop of the IPv6 parser, whose bound of eight
  rounds is the bound of the loop in the library.

  \<^bold>\<open>Atomicity.\<close>  A session callback or method is one step, as is the body of a \<open>sync.Once\<close>; the broker
  and the bridge are interleaved at the granularity of their mutexes and channel operations.

  \<^bold>\<open>Not modelled.\<close>  Third-party code (pion, gorilla/websocket, circl, x/crypto, x/time, x/sys) is a parameter;
  so are the clock, randomness, the order of map iteration, the environment, what sockets and files
  return, the text of an error, and JSON encoding.  Of the HTTP server only the two routes are
  modelled; TLS, its timeouts and the delivery of signals to the process are outside.
\<close>

end
